(* ===== verification/Prelude.thy ===== *)
theory Prelude
  imports Main "HOL-Library.Word" "HOL-Library.Sublist"
begin

text \<open>
  What every other theory of the development builds on: Go's error values, the state and
  error monad in which the effectful functions of podvirt are written, the collections
  of facts the proofs share, and a few generic lemmas on lists and sums.

  A Go function that returns \<open>(T, error)\<close> and has no effects becomes a function into
  \<open>go_error + 'a\<close>. One with effects becomes an \<open>act\<close>: a function from a state to
  such a result together with the next state. The chain
  \<open>x, err := f(); if err != nil { return err }; ...\<close> is \<open>bindE f (\<lambda>x. ...)\<close>,
  \<open>return fmt.Errorf("...: %w", err)\<close> is \<open>wrapE\<close>, and an error that the code looks
  at or drops is taken out of the result by \<open>attempt\<close>.
\<close>

section \<open>Collections of facts\<close>

named_theorems act_simps \<open>equations that run the monad's combinators\<close>

section \<open>Machine integers\<close>

type_synonym u16 = "16 word"
type_synonym u32 = "32 word"
type_synonym u64 = "64 word"

lemma unat_word_of_nat: "n < 2 ^ LENGTH('a) \<Longrightarrow> unat (word_of_nat n :: 'a::len word) = n"
  by (simp add: unat_of_nat)

lemma unat_less_iff_uint: "unat v < n \<longleftrightarrow> uint v < int n" for v :: "'a::len word"
  using of_nat_less_iff [of "unat v" n, where 'a = int] by simp

lemma unat_le_iff_uint: "unat v \<le> n \<longleftrightarrow> uint v \<le> int n" for v :: "'a::len word"
  using of_nat_le_iff [of "unat v" n, where 'a = int] by simp

section \<open>Errors\<close>

text \<open>
  \<open>Errorf f args\<close> is the error made by \<open>fmt.Errorf(f, args...)\<close>: the format string is
  kept as the source has it and the arguments are kept as values, so that two errors are
  equal only if they come from the same format with the same arguments.
  \<open>NotExist\<close> is an error for which \<open>os.IsNotExist\<close> holds, \<open>EOF\<close> is \<open>io.EOF\<close>,
  \<open>ExtError\<close> is any other error of the operating system, of Podman or of a library.
  \<open>GoPanic\<close> is not an error value of Go: it marks a run-time panic (a slice bound out of
  range), which ends the program where it happens.
\<close>

datatype fmt_arg =
    FStr string
  | FNat nat
  | FInt int
  | FErr go_error
  | FMsgs "go_error list"
and go_error =
    Errorf string "fmt_arg list"
  | NotExist
  | EOF
  | ExtError string
  | GoPanic string

section \<open>The state and error monad\<close>

type_synonym ('s, 'a) act = "'s \<Rightarrow> (go_error + 'a) \<times> 's"

definition ok :: "'a \<Rightarrow> ('s, 'a) act" where
  "ok x = (\<lambda>s. (Inr x, s))"

definition fail :: "go_error \<Rightarrow> ('s, 'a) act" where
  "fail e = (\<lambda>s. (Inl e, s))"

definition bindE :: "('s, 'a) act \<Rightarrow> ('a \<Rightarrow> ('s, 'b) act) \<Rightarrow> ('s, 'b) act" where
  "bindE m f = (\<lambda>s. case m s of (Inl e, s') \<Rightarrow> (Inl e, s') | (Inr x, s') \<Rightarrow> f x s')"

definition attempt :: "('s, 'a) act \<Rightarrow> ('s, go_error + 'a) act" where
  "attempt m = (\<lambda>s. case m s of (r, s') \<Rightarrow> (Inr r, s'))"

definition wrapE :: "(go_error \<Rightarrow> go_error) \<Rightarrow> ('s, 'a) act \<Rightarrow> ('s, 'a) act" where
  "wrapE w m = (\<lambda>s. case m s of (Inl e, s') \<Rightarrow> (Inl (w e), s') | (Inr x, s') \<Rightarrow> (Inr x, s'))"

definition lift_res :: "go_error + 'a \<Rightarrow> ('s, 'a) act" where
  "lift_res r = (\<lambda>s. (r, s))"

lemma run_ok [act_simps, simp]: "ok x s = (Inr x, s)"
  by (simp add: ok_def)

lemma run_fail [act_simps, simp]: "fail e s = (Inl e, s)"
  by (simp add: fail_def)

lemma run_lift_res [act_simps, simp]: "lift_res r s = (r, s)"
  by (simp add: lift_res_def)

lemma run_bindE [act_simps]:
  "bindE m f s = (case m s of (Inl e, s') \<Rightarrow> (Inl e, s') | (Inr x, s') \<Rightarrow> f x s')"
  by (simp add: bindE_def)

lemma run_attempt [act_simps]: "attempt m s = (case m s of (r, s') \<Rightarrow> (Inr r, s'))"
  by (simp add: attempt_def)

lemma run_wrapE [act_simps]:
  "wrapE w m s = (case m s of (Inl e, s') \<Rightarrow> (Inl (w e), s') | (Inr x, s') \<Rightarrow> (Inr x, s'))"
  by (simp add: wrapE_def)

lemma bindE_ok_left [simp]: "bindE (ok x) f = f x"
  by (simp add: bindE_def ok_def)

lemma bindE_fail_left [simp]: "bindE (fail e) f = fail e"
  by (simp add: bindE_def fail_def)

lemma bindE_ok_right [simp]: "bindE m ok = m"
  by (auto simp: bindE_def ok_def fun_eq_iff split: prod.splits sum.splits)

lemma bindE_assoc: "bindE (bindE m f) g = bindE m (\<lambda>x. bindE (f x) g)"
  by (auto simp: bindE_def fun_eq_iff split: prod.splits sum.splits)

lemma wrapE_id [simp]: "wrapE (\<lambda>e. e) m = m"
  by (auto simp: wrapE_def fun_eq_iff split: prod.splits sum.splits)

lemma bindE_Inr_E:
  assumes "bindE m f s = (Inr y, s')"
  obtains x s1 where "m s = (Inr x, s1)" and "f x s1 = (Inr y, s')"
  using assms by (auto simp: bindE_def split: prod.splits sum.splits)

lemma bindE_cases:
  assumes "bindE m f s = (r, s')"
  obtains (err) e where "m s = (Inl e, s')" and "r = Inl e"
  | (ok) x s1 where "m s = (Inr x, s1)" and "f x s1 = (r, s')"
  using assms by (auto simp: bindE_def split: prod.splits sum.splits)

text \<open>
  Go's \<open>defer\<close>: \<open>c\<close> runs after \<open>m\<close> however \<open>m\<close> ends, and the result is that of \<open>m\<close>.
\<close>

definition deferE :: "('s, 'a) act \<Rightarrow> ('s, 'b) act \<Rightarrow> ('s, 'a) act" where
  "deferE m c = bindE (attempt m) (\<lambda>r. bindE (attempt c) (\<lambda>_. lift_res r))"

lemma run_deferE [act_simps]:
  "deferE m c s = (case m s of (r, s1) \<Rightarrow> (case c s1 of (_, s2) \<Rightarrow> (r, s2)))"
  by (simp add: deferE_def bindE_def attempt_def lift_res_def split: prod.splits)

text \<open>A sequence of actions over a list, stopping at the first error.\<close>

primrec forE :: "'a list \<Rightarrow> ('a \<Rightarrow> ('s, 'b) act) \<Rightarrow> ('s, 'b list) act" where
  "forE [] f = ok []"
| "forE (x # xs) f = bindE (f x) (\<lambda>y. bindE (forE xs f) (\<lambda>ys. ok (y # ys)))"

section \<open>Generic lemmas\<close>

lemma sum_case_Inr_iff [simp]:
  "(case r of Inl e \<Rightarrow> Inl e | Inr x \<Rightarrow> f x) = Inr y \<longleftrightarrow> (\<exists>x. r = Inr x \<and> f x = Inr y)"
  by (cases r) auto

lemma isl_iff: "isl r \<longleftrightarrow> (\<exists>e. r = Inl e)"
  by (cases r) auto

text \<open>The first element of a list that satisfies a predicate, and where it is.\<close>

fun find_index :: "('a \<Rightarrow> bool) \<Rightarrow> 'a list \<Rightarrow> nat option" where
  "find_index p [] = None"
| "find_index p (x # xs) = (if p x then Some 0 else map_option Suc (find_index p xs))"

lemma find_index_None: "find_index p xs = None \<longleftrightarrow> (\<forall>x\<in>set xs. \<not> p x)"
  by (induction xs) auto

lemma find_index_Some:
  "find_index p xs = Some i \<longleftrightarrow> i < length xs \<and> p (xs ! i) \<and> (\<forall>j<i. \<not> p (xs ! j))"
proof (induction xs arbitrary: i)
  case Nil
  then show ?case by simp
next
  case (Cons x xs)
  show ?case
  proof (cases i)
    case 0
    then show ?thesis by (cases "find_index p xs") auto
  next
    case (Suc k)
    then show ?thesis
      using Cons.IH [of k] by (auto simp: All_less_Suc2)
  qed
qed

lemma find_SomeD: "find p xs = Some x \<Longrightarrow> x \<in> set xs \<and> p x"
  by (auto simp: find_Some_iff)

lemma suffix_take_drop: "suffix p s \<Longrightarrow> s = take (length s - length p) s @ p"
  by (auto simp: suffix_def)

lemma map_le_Some: "m \<subseteq>\<^sub>m m' \<Longrightarrow> m k = Some x \<Longrightarrow> m' k = Some x"
  by (auto simp: map_le_def dom_def)

lemma list_all2_member: "list_all2 P xs ys \<Longrightarrow> x \<in> set xs \<Longrightarrow> \<exists>y\<in>set ys. P x y"
  by (induction rule: list_all2_induct) auto

end
