(* ===== verification/GoStrings.thy ===== *)
theory GoStrings
  imports Prelude
begin

text \<open>
  The functions of Go's package \<open>strings\<close> that podvirt calls. A Go string is a
  sequence of bytes, and so is a \<open>string\<close> here: one \<open>char\<close> per byte.
\<close>

section \<open>Prefixes, suffixes, pieces\<close>

definition trim_prefix :: "string \<Rightarrow> string \<Rightarrow> string" where
  "trim_prefix s p = (if prefix p s then drop (length p) s else s)"

definition trim_suffix :: "string \<Rightarrow> string \<Rightarrow> string" where
  "trim_suffix s p = (if suffix p s then take (length s - length p) s else s)"

lemma trim_prefix_append [simp]: "trim_prefix (p @ s) p = s"
  by (simp add: trim_prefix_def)

lemma trim_suffix_append [simp]: "trim_suffix (s @ p) p = s"
  by (simp add: trim_suffix_def suffix_def)

text \<open>\<open>strings.Split(s, sep)\<close> for a separator of one byte.\<close>

fun split_on :: "char \<Rightarrow> string \<Rightarrow> string list" where
  "split_on c [] = [[]]"
| "split_on c (x # xs) =
     (if x = c then [] # split_on c xs
      else (case split_on c xs of [] \<Rightarrow> [[x]] | y # ys \<Rightarrow> (x # y) # ys))"

text \<open>\<open>strings.Join(xs, sep)\<close>.\<close>

fun join_with :: "string \<Rightarrow> string list \<Rightarrow> string" where
  "join_with sep [] = []"
| "join_with sep [x] = x"
| "join_with sep (x # y # xs) = x @ sep @ join_with sep (y # xs)"

lemma split_on_nonempty [simp]: "split_on c s \<noteq> []"
  by (induction s) (auto split: list.splits)

lemma split_on_pieces: "p \<in> set (split_on c s) \<Longrightarrow> c \<notin> set p"
  by (induction s arbitrary: p) (auto split: list.splits if_splits)

lemma join_with_Cons:
  "join_with sep (x # xs) = (if xs = [] then x else x @ sep @ join_with sep xs)"
  by (cases xs) auto

lemma join_split [simp]: "join_with [c] (split_on c s) = s"
proof (induction s)
  case Nil
  then show ?case by simp
next
  case (Cons x s)
  show ?case
  proof (cases "split_on c s")
    case Nil
    then show ?thesis by simp
  next
    case (Cons y ys)
    with Cons.IH show ?thesis by (cases ys) auto
  qed
qed

lemma split_on_none: "c \<notin> set s \<Longrightarrow> split_on c s = [s]"
  by (induction s) auto

lemma split_on_append_sep: "c \<notin> set a \<Longrightarrow> split_on c (a @ c # b) = a # split_on c b"
  by (induction a) auto

lemma split_join:
  "xs \<noteq> [] \<Longrightarrow> (\<And>x. x \<in> set xs \<Longrightarrow> c \<notin> set x) \<Longrightarrow> split_on c (join_with [c] xs) = xs"
proof (induction "[c]" xs rule: join_with.induct)
  case 1
  then show ?case by simp
next
  case (2 x)
  then show ?case by (simp add: split_on_none)
next
  case (3 x y xs)
  then show ?case by (simp add: split_on_append_sep)
qed

text \<open>\<open>strings.Cut(s, sep)\<close>: the text before and after the first separator.\<close>

definition cut :: "char \<Rightarrow> string \<Rightarrow> (string \<times> string) option" where
  "cut c s = (if c \<in> set s
              then Some (takeWhile (\<lambda>x. x \<noteq> c) s, tl (dropWhile (\<lambda>x. x \<noteq> c) s)) else None)"

text \<open>The text before and after the last separator (\<open>strings.LastIndex\<close> and two slices).\<close>

definition cut_last :: "char \<Rightarrow> string \<Rightarrow> (string \<times> string) option" where
  "cut_last c s = map_option (\<lambda>(a, b). (rev b, rev a)) (cut c (rev s))"

lemma cut_append: "c \<notin> set a \<Longrightarrow> cut c (a @ c # b) = Some (a, b)"
  by (auto simp: cut_def dropWhile_append takeWhile_append
      intro: takeWhile_eq_all_conv [THEN iffD2] split: if_splits)

lemma cut_None [simp]: "cut c s = None \<longleftrightarrow> c \<notin> set s"
  by (simp add: cut_def)

lemma cut_Some: "cut c s = Some (a, b) \<longleftrightarrow> s = a @ c # b \<and> c \<notin> set a"
proof
  assume h: "cut c s = Some (a, b)"
  then have c: "c \<in> set s" and a: "a = takeWhile (\<lambda>x. x \<noteq> c) s"
    and b: "b = tl (dropWhile (\<lambda>x. x \<noteq> c) s)"
    by (auto simp: cut_def split: if_splits)
  from c have d: "dropWhile (\<lambda>x. x \<noteq> c) s \<noteq> []"
    by (auto simp: dropWhile_eq_Nil_conv)
  then have "hd (dropWhile (\<lambda>x. x \<noteq> c) s) = c"
    using hd_dropWhile by blast
  with d have "dropWhile (\<lambda>x. x \<noteq> c) s = c # b"
    by (metis b list.collapse)
  then have "s = a @ c # b"
    by (metis a takeWhile_dropWhile_id)
  moreover have "c \<notin> set a"
    using a by (auto dest: set_takeWhileD)
  ultimately show "s = a @ c # b \<and> c \<notin> set a" ..
qed (auto simp: cut_append)

lemma cut_last_append: "c \<notin> set b \<Longrightarrow> cut_last c (a @ c # b) = Some (a, b)"
  by (simp add: cut_last_def cut_append)

lemma cut_last_None [simp]: "cut_last c s = None \<longleftrightarrow> c \<notin> set s"
  by (simp add: cut_last_def)

lemma cut_last_Some: "cut_last c s = Some (a, b) \<longleftrightarrow> s = a @ c # b \<and> c \<notin> set b"
  by (auto simp: cut_last_def cut_Some rev_swap)

section \<open>White space\<close>

text \<open>
  The UTF-8 encodings of the runes for which \<open>unicode.IsSpace\<close> holds. None of the
  bytes that start one is a UTF-8 continuation byte, so looking for these byte sequences
  at the front (or at the back) of a string finds exactly the runes that
  \<open>strings.TrimSpace\<close> and \<open>strings.Fields\<close> decode there.
\<close>

definition space_runes :: "string list" where
  "space_runes =
    [[CHR 0x09], [CHR 0x0A], [CHR 0x0B], [CHR 0x0C], [CHR 0x0D], [CHR 0x20],
     [CHR 0xC2, CHR 0x85], [CHR 0xC2, CHR 0xA0], [CHR 0xE1, CHR 0x9A, CHR 0x80],
     [CHR 0xE2, CHR 0x80, CHR 0x80], [CHR 0xE2, CHR 0x80, CHR 0x81],
     [CHR 0xE2, CHR 0x80, CHR 0x82], [CHR 0xE2, CHR 0x80, CHR 0x83],
     [CHR 0xE2, CHR 0x80, CHR 0x84], [CHR 0xE2, CHR 0x80, CHR 0x85],
     [CHR 0xE2, CHR 0x80, CHR 0x86], [CHR 0xE2, CHR 0x80, CHR 0x87],
     [CHR 0xE2, CHR 0x80, CHR 0x88], [CHR 0xE2, CHR 0x80, CHR 0x89],
     [CHR 0xE2, CHR 0x80, CHR 0x8A], [CHR 0xE2, CHR 0x80, CHR 0xA8],
     [CHR 0xE2, CHR 0x80, CHR 0xA9], [CHR 0xE2, CHR 0x80, CHR 0xAF],
     [CHR 0xE2, CHR 0x81, CHR 0x9F], [CHR 0xE3, CHR 0x80, CHR 0x80]]"

text \<open>Strips the words of a list from the front as long as one of them is there.\<close>

definition front_word :: "string list \<Rightarrow> string \<Rightarrow> string option" where
  "front_word ws s = find (\<lambda>w. w \<noteq> [] \<and> prefix w s) ws"

lemma front_word_Some: "front_word ws s = Some w \<Longrightarrow> w \<noteq> [] \<and> prefix w s"
  by (auto simp: front_word_def find_Some_iff)

function strip_front :: "string list \<Rightarrow> string \<Rightarrow> string" where
  "strip_front ws s =
     (case front_word ws s of None \<Rightarrow> s | Some w \<Rightarrow> strip_front ws (drop (length w) s))"
  by pat_completeness auto
termination
proof (relation "measure (\<lambda>(ws, s). length s)")
  fix ws s w
  assume "front_word ws s = Some w"
  then have "w \<noteq> []" and "prefix w s"
    by (auto dest: front_word_Some)
  then have "0 < length w" and "length w \<le> length s"
    by (auto simp: prefix_length_le)
  then have "length s - length w < length s"
    by linarith
  then show "((ws, drop (length w) s), ws, s) \<in> measure (\<lambda>(ws, s). length s)"
    by simp
qed simp

declare strip_front.simps [simp del]

definition trim_space :: "string \<Rightarrow> string" where
  "trim_space s =
     rev (strip_front (map rev space_runes) (rev (strip_front space_runes s)))"

lemma strip_front_id: "front_word ws s = None \<Longrightarrow> strip_front ws s = s"
  by (subst strip_front.simps) simp

lemma front_word_strip [simp]: "front_word ws (strip_front ws s) = None"
proof (induction ws s rule: strip_front.induct)
  case (1 ws s)
  then show ?case
    by (cases "front_word ws s") (simp_all add: strip_front.simps [of ws s])
qed

lemma suffix_strip_front: "suffix (strip_front ws s) s"
proof (induction ws s rule: strip_front.induct)
  case (1 ws s)
  show ?case
  proof (cases "front_word ws s")
    case None
    then show ?thesis by (simp add: strip_front_id)
  next
    case (Some w)
    then have "suffix (strip_front ws (drop (length w) s)) (drop (length w) s)"
      using 1 by simp
    also have "suffix (drop (length w) s) s"
      by (rule suffix_drop)
    finally show ?thesis
      using Some by (simp add: strip_front.simps [of ws s])
  qed
qed

lemma strip_front_idem [simp]: "strip_front ws (strip_front ws s) = strip_front ws s"
  by (simp add: strip_front_id)

lemma front_word_prefix:
  "front_word ws t = None \<Longrightarrow> prefix s t \<Longrightarrow> front_word ws s = None"
  by (auto simp: front_word_def find_None_iff dest: prefix_order.trans)

text \<open>A string no white space starts or ends is left alone; so is a trimmed string.\<close>

lemma trim_space_id:
  assumes "front_word space_runes s = None" and "front_word (map rev space_runes) (rev s) = None"
  shows "trim_space s = s"
  using assms by (simp add: trim_space_def strip_front_id)

lemma trim_space_ends:
  "front_word space_runes (trim_space s) = None"
  "front_word (map rev space_runes) (rev (trim_space s)) = None"
proof -
  let ?t = "strip_front space_runes s"
  have "suffix (strip_front (map rev space_runes) (rev ?t)) (rev ?t)"
    by (rule suffix_strip_front)
  then have "prefix (trim_space s) ?t"
    by (simp add: trim_space_def suffix_to_prefix)
  then show "front_word space_runes (trim_space s) = None"
    by (rule front_word_prefix [rotated]) simp
  show "front_word (map rev space_runes) (rev (trim_space s)) = None"
    by (simp add: trim_space_def)
qed

lemma trim_space_idem [simp]: "trim_space (trim_space s) = trim_space s"
  by (intro trim_space_id trim_space_ends)

text \<open>
  The bytes that start or end a white space rune. A string whose first and last byte are
  none of them is its own trimming; this is what the round trips use.
\<close>

definition space_byte :: "char \<Rightarrow> bool" where
  "space_byte c \<longleftrightarrow> c \<in> hd ` set space_runes \<or> c \<in> last ` set space_runes"

lemma front_word_hd: "c \<notin> hd ` set ws \<Longrightarrow> front_word ws (c # s) = None"
  by (force simp: front_word_def find_None_iff prefix_Cons)

lemma front_word_space_hd: "\<not> space_byte c \<Longrightarrow> front_word space_runes (c # s) = None"
  by (rule front_word_hd) (auto simp: space_byte_def)

lemma front_word_space_last:
  "\<not> space_byte c \<Longrightarrow> front_word (map rev space_runes) (c # s) = None"
  by (rule front_word_hd) (auto simp: space_byte_def image_image hd_rev)

lemma trim_space_no_space:
  assumes "s \<noteq> []" and "\<not> space_byte (hd s)" and "\<not> space_byte (last s)"
  shows "trim_space s = s"
proof (rule trim_space_id)
  from assms show "front_word space_runes s = None"
    by (cases s) (auto intro: front_word_space_hd)
  from assms show "front_word (map rev space_runes) (rev s) = None"
    by (cases s rule: rev_cases) (auto intro: front_word_space_last)
qed

lemma trim_space_Nil [simp]: "trim_space [] = []"
  by (simp add: trim_space_def strip_front.simps front_word_def find_None_iff
      space_runes_def)

text \<open>\<open>strings.Fields(s)\<close>.\<close>

fun span_field :: "string \<Rightarrow> string \<times> string" where
  "span_field [] = ([], [])"
| "span_field (c # cs) =
     (if front_word space_runes (c # cs) \<noteq> None then ([], c # cs)
      else (let (a, b) = span_field cs in (c # a, b)))"

lemma span_field_append: "span_field s = (a, b) \<Longrightarrow> s = a @ b"
  by (induction s arbitrary: a b) (auto split: if_splits prod.splits)

lemma span_field_shorter:
  assumes ne: "strip_front space_runes s \<noteq> []"
    and sp: "(a, b) = span_field (strip_front space_runes s)"
  shows "length b < length s"
proof -
  let ?t = "strip_front space_runes s"
  from ne obtain c cs where cs: "?t = c # cs" by (cases ?t) blast+
  have "front_word space_runes ?t = None" by simp
  with cs sp have "a \<noteq> []" by (auto split: prod.splits)
  moreover have "?t = a @ b" using sp by (metis span_field_append)
  ultimately have "length b < length ?t" by simp
  also have "length ?t \<le> length s"
    using suffix_strip_front suffix_length_le by blast
  finally show ?thesis .
qed

function fields :: "string \<Rightarrow> string list" where
  "fields s =
     (let t = strip_front space_runes s
      in if t = [] then [] else (case span_field t of (a, b) \<Rightarrow> a # fields b))"
  by pat_completeness auto
termination
  by (relation "measure length") (simp_all add: span_field_shorter)

declare fields.simps [simp del]

section \<open>Case mapping\<close>

definition is_ascii :: "char \<Rightarrow> bool" where
  "is_ascii c \<longleftrightarrow> (of_char c :: nat) < 128"

definition ascii_lower :: "char \<Rightarrow> char" where
  "ascii_lower c = (let n = of_char c :: nat in if 65 \<le> n \<and> n \<le> 90 then char_of (n + 32) else c)"

definition ascii_upper :: "char \<Rightarrow> char" where
  "ascii_upper c = (let n = of_char c :: nat in if 97 \<le> n \<and> n \<le> 122 then char_of (n - 32) else c)"

text \<open>
  \<open>strings.ToLower\<close> and \<open>strings.ToUpper\<close> map an ASCII string byte by byte. For a
  string with other bytes they go through the Unicode tables of Go's package
  \<open>unicode\<close>; what they then return is the argument \<open>u\<close>.
\<close>

definition to_lower :: "(string \<Rightarrow> string) \<Rightarrow> string \<Rightarrow> string" where
  "to_lower u s = (if list_all is_ascii s then map ascii_lower s else u s)"

definition to_upper :: "(string \<Rightarrow> string) \<Rightarrow> string \<Rightarrow> string" where
  "to_upper u s = (if list_all is_ascii s then map ascii_upper s else u s)"

text \<open>
  \<open>strings.EqualFold(s, t)\<close> for a \<open>t\<close> in which every letter folds within ASCII only
  (every letter but \<open>k\<close> and \<open>s\<close>): podvirt compares with \<open>.qcow2\<close> and \<open>y\<close>.
\<close>

definition equal_fold :: "string \<Rightarrow> string \<Rightarrow> bool" where
  "equal_fold s t \<longleftrightarrow> map ascii_lower s = map ascii_lower t"

lemma ascii_lower_idem [simp]: "ascii_lower (ascii_lower c) = ascii_lower c"
  by (simp add: ascii_lower_def Let_def)

lemma is_ascii_lower [simp]: "is_ascii c \<Longrightarrow> is_ascii (ascii_lower c)"
  by (simp add: ascii_lower_def is_ascii_def Let_def)

lemma to_lower_idem: "list_all is_ascii s \<Longrightarrow> to_lower u (to_lower u s) = to_lower u s"
  by (simp add: to_lower_def list_all_iff)

lemma equal_fold_refl [simp]: "equal_fold s s"
  by (simp add: equal_fold_def)

lemma equal_fold_sym: "equal_fold s t \<longleftrightarrow> equal_fold t s"
  by (auto simp: equal_fold_def)

end
