(* ===== verification/GoNumbers.thy ===== *)
theory GoNumbers
  imports GoStrings
begin

text \<open>
  Decimal conversion as Go's \<open>strconv\<close> and \<open>fmt\<close> do it on a 64-bit platform, and the
  round trips between printing and parsing. The printer and the parsers meet in one
  interface, the locale \<open>decimal_codec\<close>.
\<close>

section \<open>Digits\<close>

definition is_digit :: "char \<Rightarrow> bool" where
  "is_digit c \<longleftrightarrow> 48 \<le> (of_char c :: nat) \<and> (of_char c :: nat) \<le> 57"

definition digit_val :: "char \<Rightarrow> nat" where
  "digit_val c = of_char c - 48"

definition digit_char :: "nat \<Rightarrow> char" where
  "digit_char d = char_of (d + 48)"

lemma of_char_digit_char: "d < 10 \<Longrightarrow> (of_char (digit_char d) :: nat) = d + 48"
  by (simp add: digit_char_def)

lemma is_digit_char [simp]: "d < 10 \<Longrightarrow> is_digit (digit_char d)"
  by (simp add: is_digit_def of_char_digit_char)

lemma digit_val_char [simp]: "d < 10 \<Longrightarrow> digit_val (digit_char d) = d"
  by (simp add: digit_val_def of_char_digit_char)

lemma digit_val_less: "is_digit c \<Longrightarrow> digit_val c < 10"
  by (auto simp: is_digit_def digit_val_def)

text \<open>A digit is neither white space, nor a sign, nor a letter or separator.\<close>

lemma is_digit_not:
  "\<not> is_digit CHR ''-''" "\<not> is_digit CHR ''+''" "\<not> is_digit CHR '':''" "\<not> is_digit CHR ''/''"
  "\<not> is_digit CHR ''i''" "\<not> is_digit CHR ''T''" "\<not> is_digit CHR ''G''" "\<not> is_digit CHR ''M''"
  "\<not> is_digit CHR ''K''"
  by (simp_all add: is_digit_def)

lemma is_digit_space: "is_digit c \<Longrightarrow> \<not> space_byte c"
  by (auto simp: is_digit_def space_byte_def space_runes_def)

section \<open>Printing\<close>

text \<open>\<open>strconv.FormatUint(n, 10)\<close> and \<open>%d\<close>.\<close>

fun format_uint :: "nat \<Rightarrow> string" where
  "format_uint n =
     (if n < 10 then [digit_char n] else format_uint (n div 10) @ [digit_char (n mod 10)])"

declare format_uint.simps [simp del]

definition format_int :: "int \<Rightarrow> string" where
  "format_int i = (if i < 0 then CHR ''-'' # format_uint (nat (- i)) else format_uint (nat i))"

text \<open>\<open>%x\<close> of a byte slice: two lower-case hexadecimal digits per byte.\<close>

definition hex_char :: "nat \<Rightarrow> char" where
  "hex_char d = (if d < 10 then char_of (d + 48) else char_of (d + 87))"

definition format_hex :: "8 word list \<Rightarrow> string" where
  "format_hex bs = concat (map (\<lambda>b. [hex_char (unat b div 16), hex_char (unat b mod 16)]) bs)"

lemma length_format_hex [simp]: "length (format_hex bs) = 2 * length bs"
  by (induction bs) (auto simp: format_hex_def)

lemma format_uint_nonempty [simp]: "format_uint n \<noteq> []"
  by (subst format_uint.simps) simp

lemma format_uint_digits: "\<forall>c\<in>set (format_uint n). is_digit c"
proof (induction n rule: format_uint.induct)
  case (1 n)
  then show ?case
    by (cases "n < 10") (auto simp: format_uint.simps [of n])
qed

lemma format_uint_hd: "is_digit (hd (format_uint n))"
  using format_uint_digits [of n] by (meson format_uint_nonempty hd_in_set)

lemma format_uint_last: "is_digit (last (format_uint n))"
  using format_uint_digits [of n] by (meson format_uint_nonempty last_in_set)

lemma format_uint_notin: "\<not> is_digit c \<Longrightarrow> c \<notin> set (format_uint n)"
  using format_uint_digits by blast

section \<open>Parsing\<close>

text \<open>
  \<open>strconv.ParseUint(s, 10, 64)\<close>: it reads from the left and stops at the first byte
  that is no digit (a syntax error) or at the first value above \<open>2^64 - 1\<close> (a range
  error). Next to an error it returns the value that callers who drop the error see: 0
  for a syntax error, the largest \<open>uint64\<close> for a range error.
\<close>

datatype num_error = ErrSyntax | ErrRange

fun parse_uint_loop :: "nat \<Rightarrow> string \<Rightarrow> num_error + nat" where
  "parse_uint_loop n [] = Inr n"
| "parse_uint_loop n (c # cs) =
     (if \<not> is_digit c then Inl ErrSyntax
      else if 10 * n + digit_val c \<ge> 2 ^ 64 then Inl ErrRange
      else parse_uint_loop (10 * n + digit_val c) cs)"

definition parse_uint :: "string \<Rightarrow> num_error + u64" where
  "parse_uint s =
     (if s = [] then Inl ErrSyntax
      else case parse_uint_loop 0 s of Inl e \<Rightarrow> Inl e | Inr n \<Rightarrow> Inr (word_of_nat n))"

definition uint_or_limit :: "num_error + u64 \<Rightarrow> u64" where
  "uint_or_limit r = (case r of Inr v \<Rightarrow> v | Inl ErrSyntax \<Rightarrow> 0 | Inl ErrRange \<Rightarrow> - 1)"

text \<open>
  \<open>strconv.Atoi(s)\<close>: an optional sign, then digits, within the range of \<open>int\<close>
  (64 bits). The callers only ask whether there is an error.
\<close>

definition atoi :: "string \<Rightarrow> int option" where
  "atoi s =
     (let neg = (case s of [] \<Rightarrow> False | c # _ \<Rightarrow> c = CHR ''-'');
          digits = (case s of [] \<Rightarrow> [] | c # cs \<Rightarrow> if c = CHR ''-'' \<or> c = CHR ''+'' then cs else s)
      in case parse_uint digits of
           Inl e \<Rightarrow> None
         | Inr v \<Rightarrow>
             (if \<not> neg \<and> unat v \<ge> 2 ^ 63 then None
              else if neg \<and> unat v > 2 ^ 63 then None
              else Some (if neg then - int (unat v) else int (unat v))))"

text \<open>What a digit string denotes, as a fold; the loop computes it as long as it fits.\<close>

definition digits_value :: "string \<Rightarrow> nat" where
  "digits_value s = foldl (\<lambda>n c. 10 * n + digit_val c) 0 s"

lemma foldl_digits_ge: "n \<le> foldl (\<lambda>n c. 10 * n + digit_val c) n s"
proof (induction s arbitrary: n)
  case Nil
  then show ?case by simp
next
  case (Cons c s)
  have "n \<le> 10 * n + digit_val c" by simp
  also have "\<dots> \<le> foldl (\<lambda>n c. 10 * n + digit_val c) (10 * n + digit_val c) s"
    by (rule Cons.IH)
  finally show ?case by simp
qed

lemma parse_uint_loop_Inr:
  "parse_uint_loop n s = Inr m \<longleftrightarrow>
     list_all is_digit s \<and> m = foldl (\<lambda>n c. 10 * n + digit_val c) n s \<and> (s = [] \<or> m < 2 ^ 64)"
proof (induction s arbitrary: n)
  case Nil
  then show ?case by auto
next
  case (Cons c s)
  have ge: "10 * n + digit_val c \<le> foldl (\<lambda>n c. 10 * n + digit_val c) (10 * n + digit_val c) s"
    by (rule foldl_digits_ge)
  show ?case
    using Cons.IH [of "10 * n + digit_val c"] ge by (cases "s = []") auto
qed

lemma parse_uint_Inr:
  "parse_uint s = Inr v \<longleftrightarrow>
     s \<noteq> [] \<and> list_all is_digit s \<and> digits_value s < 2 ^ 64 \<and> v = word_of_nat (digits_value s)"
  by (auto simp: parse_uint_def parse_uint_loop_Inr digits_value_def split: sum.splits)

lemma parse_uint_unat: "parse_uint s = Inr v \<Longrightarrow> unat v = digits_value s"
  by (auto simp: parse_uint_Inr unat_word_of_nat)

lemma digits_value_snoc: "digits_value (s @ [c]) = 10 * digits_value s + digit_val c"
  by (simp add: digits_value_def)

lemma digits_value_format [simp]: "digits_value (format_uint n) = n"
proof (induction n rule: format_uint.induct)
  case (1 n)
  show ?case
  proof (cases "n < 10")
    case True
    then show ?thesis by (simp add: format_uint.simps [of n] digits_value_def)
  next
    case False
    then have "digits_value (format_uint n) = 10 * (n div 10) + n mod 10"
      using 1 by (simp add: format_uint.simps [of n] digits_value_snoc)
    then show ?thesis by simp
  qed
qed

lemma list_all_format [simp]: "list_all is_digit (format_uint n)"
  using format_uint_digits by (simp add: list_all_iff)

lemma parse_format_uint: "n < 2 ^ 64 \<Longrightarrow> parse_uint (format_uint n) = Inr (word_of_nat n)"
  by (simp add: parse_uint_Inr)

lemma parse_uint_Inl_iff:
  "(\<exists>e. parse_uint s = Inl e) \<longleftrightarrow> s = [] \<or> \<not> list_all is_digit s \<or> 2 ^ 64 \<le> digits_value s"
proof -
  have "(\<exists>e. parse_uint s = Inl e) \<longleftrightarrow> \<not> (\<exists>v. parse_uint s = Inr v)"
    by (cases "parse_uint s") auto
  then show ?thesis by (auto simp: parse_uint_Inr not_less)
qed

lemma atoi_format_int:
  assumes "- (2 ^ 63) \<le> i" and "i < 2 ^ 63"
  shows "atoi (format_int i) = Some i"
proof (cases "i < 0")
  case True
  have n: "nat (- i) \<le> 2 ^ 63" using assms by (simp add: nat_le_iff)
  then have u: "unat (word_of_nat (nat (- i)) :: u64) = nat (- i)"
    by (subst unat_word_of_nat) simp_all
  have "parse_uint (format_uint (nat (- i))) = Inr (word_of_nat (nat (- i)))"
    using n by (intro parse_format_uint) simp
  with u n True show ?thesis
    by (simp add: atoi_def format_int_def Let_def)
next
  case False
  then have n: "nat i < 2 ^ 63" using assms by (simp add: nat_less_iff)
  then have u: "unat (word_of_nat (nat i) :: u64) = nat i"
    by (subst unat_word_of_nat) simp_all
  have p: "parse_uint (format_uint (nat i)) = Inr (word_of_nat (nat i))"
    using n by (intro parse_format_uint) simp
  obtain c cs where f: "format_uint (nat i) = c # cs"
    by (cases "format_uint (nat i)") auto
  have "is_digit c" using format_uint_hd [of "nat i"] f by simp
  then have "c \<noteq> CHR ''-''" and "c \<noteq> CHR ''+''" using is_digit_not by auto
  with p u n f False show ?thesis
    by (simp add: atoi_def format_int_def Let_def not_le)
qed

text \<open>The signed parser never accepts what lies outside the range of \<open>int\<close>.\<close>

lemma atoi_range: "atoi s = Some i \<Longrightarrow> - (2 ^ 63) \<le> i \<and> i < 2 ^ 63"
  by (auto simp: atoi_def Let_def not_le not_less unat_less_iff_uint unat_le_iff_uint
      intro: order_trans [OF _ unsigned_greater_eq] le_less_trans [OF le_imp_neg_le [OF unsigned_greater_eq]]
      split: sum.splits if_splits list.splits)

section \<open>Printer and parser as one interface\<close>

text \<open>
  Parsing what was printed gives the value back within the range of the type; the printed
  form has no white space at its ends, so trimming does not touch it.
\<close>

locale decimal_codec =
  fixes print :: "'a \<Rightarrow> string"
    and parse :: "string \<Rightarrow> 'a option"
    and in_range :: "'a \<Rightarrow> bool"
  assumes parse_print: "in_range x \<Longrightarrow> parse (print x) = Some x"
    and print_ends: "print x \<noteq> [] \<and> \<not> space_byte (hd (print x)) \<and> \<not> space_byte (last (print x))"
begin

lemma print_inj: "in_range x \<Longrightarrow> in_range y \<Longrightarrow> print x = print y \<Longrightarrow> x = y"
  using parse_print by (metis option.inject)

lemma trim_print: "trim_space (print x) = print x"
  using print_ends by (intro trim_space_no_space) auto

lemma parse_trim_print: "in_range x \<Longrightarrow> parse (trim_space (print x)) = Some x"
  by (simp add: trim_print parse_print)

end

definition parse_uint_nat :: "string \<Rightarrow> nat option" where
  "parse_uint_nat s = (case parse_uint s of Inl e \<Rightarrow> None | Inr v \<Rightarrow> Some (unat v))"

interpretation udec: decimal_codec format_uint parse_uint_nat "\<lambda>n. n < 2 ^ 64"
proof unfold_locales
  fix n :: nat
  assume "n < 2 ^ 64"
  then show "parse_uint_nat (format_uint n) = Some n"
    by (simp add: parse_uint_nat_def parse_format_uint unat_word_of_nat)
next
  fix n :: nat
  show "format_uint n \<noteq> [] \<and> \<not> space_byte (hd (format_uint n)) \<and> \<not> space_byte (last (format_uint n))"
    using format_uint_hd format_uint_last is_digit_space by auto
qed

interpretation idec: decimal_codec format_int atoi "\<lambda>i. - (2 ^ 63) \<le> i \<and> i < 2 ^ 63"
proof unfold_locales
  fix i :: int
  assume "- (2 ^ 63) \<le> i \<and> i < 2 ^ 63"
  then show "atoi (format_int i) = Some i" using atoi_format_int by blast
next
  fix i :: int
  have "\<not> space_byte CHR ''-''" by (simp add: space_byte_def space_runes_def)
  then show "format_int i \<noteq> [] \<and> \<not> space_byte (hd (format_int i)) \<and> \<not> space_byte (last (format_int i))"
    using format_uint_hd format_uint_last is_digit_space by (auto simp: format_int_def)
qed

end
