(* ===== verification/ConfigTypes.thy ===== *)
theory ConfigTypes
  imports GoNumbers
begin

text \<open>
  The configuration of a virtual machine, after \<open>pkg/config/types.go\<close>: one record per
  struct, in its field order. A pointer to a struct is an \<open>option\<close>; the map of labels is
  an association list (podvirt never reads it); \<open>int\<close> fields are \<open>int\<close> within 64 bits.
\<close>

definition default_cloud_init_user :: string where
  "default_cloud_init_user = ''podvirt''"

definition default_cloud_init_password :: string where
  "default_cloud_init_password = ''podvirt''"

record metadata =
  meta_name :: string
  meta_labels :: "(string \<times> string) list"

record cpu_spec =
  cpu_cores :: u32
  cpu_sockets :: u32
  cpu_threads :: u32

record disk_source =
  src_image :: string
  src_container_image :: string

record disk_spec =
  disk_name :: string
  disk_src :: disk_source
  disk_size :: string
  disk_bus :: string

record port_forward =
  pf_host_port :: int
  pf_vm_port :: int
  pf_protocol :: string

record network_spec =
  net_name :: string
  net_type :: string
  net_port_forwards :: "port_forward list"

record boot_spec =
  boot_kernel :: string
  boot_initrd :: string
  boot_cmdline :: string

record console_spec =
  console_type :: string
  console_port :: int

record cloud_init_spec =
  ci_user :: string
  ci_password :: string
  ci_ssh_keys :: "string list"

record vm_spec =
  spec_cpu :: cpu_spec
  spec_memory :: string
  spec_disks :: "disk_spec list"
  spec_networks :: "network_spec list"
  spec_boot :: "boot_spec option"
  spec_console :: "console_spec option"
  spec_cloud_init :: "cloud_init_spec option"

record virtual_machine =
  vm_api_version :: string
  vm_kind :: string
  vm_metadata :: metadata
  vm_spec :: vm_spec

text \<open>Short names for the parts the operations read and write.\<close>

abbreviation vm_name :: "virtual_machine \<Rightarrow> string" where
  "vm_name vm \<equiv> meta_name (vm_metadata vm)"

abbreviation vm_disks :: "virtual_machine \<Rightarrow> disk_spec list" where
  "vm_disks vm \<equiv> spec_disks (vm_spec vm)"

abbreviation vm_networks :: "virtual_machine \<Rightarrow> network_spec list" where
  "vm_networks vm \<equiv> spec_networks (vm_spec vm)"

abbreviation vm_cloud_init :: "virtual_machine \<Rightarrow> cloud_init_spec option" where
  "vm_cloud_init vm \<equiv> spec_cloud_init (vm_spec vm)"

abbreviation disk_image :: "disk_spec \<Rightarrow> string" where
  "disk_image d \<equiv> src_image (disk_src d)"

abbreviation disk_container_image :: "disk_spec \<Rightarrow> string" where
  "disk_container_image d \<equiv> src_container_image (disk_src d)"

abbreviation set_disks :: "disk_spec list \<Rightarrow> virtual_machine \<Rightarrow> virtual_machine" where
  "set_disks ds vm \<equiv> vm\<lparr>vm_spec := (vm_spec vm)\<lparr>spec_disks := ds\<rparr>\<rparr>"

abbreviation set_networks :: "network_spec list \<Rightarrow> virtual_machine \<Rightarrow> virtual_machine" where
  "set_networks ns vm \<equiv> vm\<lparr>vm_spec := (vm_spec vm)\<lparr>spec_networks := ns\<rparr>\<rparr>"

abbreviation set_cloud_init :: "cloud_init_spec \<Rightarrow> virtual_machine \<Rightarrow> virtual_machine" where
  "set_cloud_init ci vm \<equiv> vm\<lparr>vm_spec := (vm_spec vm)\<lparr>spec_cloud_init := Some ci\<rparr>\<rparr>"

end
