(* ===== verification/GoJson.thy ===== *)
theory GoJson
  imports GoNumbers
begin

text \<open>
  The text that Go's \<open>encoding/json\<close> produces for the values podvirt marshals: structs
  (fields in order, \<open>omitempty\<close> fields left out when empty), maps (keys sorted), slices,
  strings, booleans and integers. A string is escaped as \<open>json.Marshal\<close> does it: quotes,
  backslashes, control characters, the HTML characters, the separators U+2028 and U+2029,
  and every byte that is not part of a valid UTF-8 sequence.
\<close>

section \<open>UTF-8\<close>

definition code :: "char \<Rightarrow> nat" where
  "code c = of_char c"

definition between :: "nat \<Rightarrow> nat \<Rightarrow> char \<Rightarrow> bool" where
  "between lo hi c \<longleftrightarrow> lo \<le> code c \<and> code c \<le> hi"

abbreviation cont :: "char \<Rightarrow> bool" where
  "cont \<equiv> between 0x80 0xBF"

text \<open>
  The length of the rune that starts a string as \<open>utf8.DecodeRuneInString\<close> decodes it;
  0 where it returns \<open>RuneError\<close> with width 1 (or the string is empty).
\<close>

definition rune_len :: "string \<Rightarrow> nat" where
  "rune_len s = (case s of
     [] \<Rightarrow> 0
   | a # t \<Rightarrow>
      if between 0 0x7F a then 1
      else if between 0xC2 0xDF a then
        (case t of b # _ \<Rightarrow> if cont b then 2 else 0 | [] \<Rightarrow> 0)
      else if between 0xE0 0xEF a then
        (case t of b # c # _ \<Rightarrow>
           if between (if code a = 0xE0 then 0xA0 else 0x80) (if code a = 0xED then 0x9F else 0xBF) b \<and> cont c
           then 3 else 0
         | _ \<Rightarrow> 0)
      else if between 0xF0 0xF4 a then
        (case t of b # c # d # _ \<Rightarrow>
           if between (if code a = 0xF0 then 0x90 else 0x80) (if code a = 0xF4 then 0x8F else 0xBF) b
              \<and> cont c \<and> cont d
           then 4 else 0
         | _ \<Rightarrow> 0)
      else 0)"

lemma rune_len_le: "rune_len s \<le> length s"
  by (auto simp: rune_len_def split: list.splits)

section \<open>Strings\<close>

definition backslash :: char where
  "backslash = CHR 0x5C"

definition quote_char :: char where
  "quote_char = CHR 0x22"

definition hex4 :: "nat \<Rightarrow> string" where
  "hex4 n = map (\<lambda>k. hex_char (n div 16 ^ k mod 16)) [3, 2, 1, 0]"

definition u_escape :: "nat \<Rightarrow> string" where
  "u_escape n = backslash # CHR ''u'' # hex4 n"

text \<open>The escape of one ASCII character.\<close>

definition escape_ascii :: "char \<Rightarrow> string" where
  "escape_ascii c =
     (if c = quote_char \<or> c = backslash then [backslash, c]
      else if code c = 8 then [backslash, CHR ''b'']
      else if code c = 12 then [backslash, CHR ''f'']
      else if code c = 10 then [backslash, CHR ''n'']
      else if code c = 13 then [backslash, CHR ''r'']
      else if code c = 9 then [backslash, CHR ''t'']
      else if code c < 32 \<or> c = CHR ''<'' \<or> c = CHR ''>'' \<or> c = CHR ''&'' then u_escape (code c)
      else [c])"

definition separator_escape :: "string \<Rightarrow> string option" where
  "separator_escape r =
     (if r = [CHR 0xE2, CHR 0x80, CHR 0xA8] then Some (u_escape 0x2028)
      else if r = [CHR 0xE2, CHR 0x80, CHR 0xA9] then Some (u_escape 0x2029)
      else None)"

function escape :: "string \<Rightarrow> string" where
  "escape [] = []"
| "escape (c # cs) =
     (let n = rune_len (c # cs) in
      if n = 0 then u_escape 0xFFFD @ escape cs
      else if n = 1 then escape_ascii c @ escape cs
      else (case separator_escape (take n (c # cs)) of
              Some e \<Rightarrow> e | None \<Rightarrow> take n (c # cs)) @ escape (drop n (c # cs)))"
  by pat_completeness auto
termination
  by (relation "measure length") auto

definition quote :: "string \<Rightarrow> string" where
  "quote s = [quote_char] @ escape s @ [quote_char]"

section \<open>Values\<close>

datatype json =
    JBool bool
  | JInt int
  | JStr string
  | JArr "json list"
  | JObj "(string \<times> json) list"

fun render :: "json \<Rightarrow> string"
  and render_list :: "json list \<Rightarrow> string list"
  and render_fields :: "(string \<times> json) list \<Rightarrow> string list" where
  "render (JBool b) = (if b then ''true'' else ''false'')"
| "render (JInt i) = format_int i"
| "render (JStr s) = quote s"
| "render (JArr vs) = ''['' @ join_with '','' (render_list vs) @ '']''"
| "render (JObj fs) = ''{'' @ join_with '','' (render_fields fs) @ ''}''"
| "render_list [] = []"
| "render_list (v # vs) = render v # render_list vs"
| "render_fields [] = []"
| "render_fields ((k, v) # fs) = (quote k @ '':'' @ render v) # render_fields fs"

text \<open>Struct fields: always present, or present unless empty (\<open>omitempty\<close>).\<close>

type_synonym json_fields = "(string \<times> json) list"

definition fld :: "string \<Rightarrow> json \<Rightarrow> json_fields" where
  "fld k v = [(k, v)]"

definition str_omit :: "string \<Rightarrow> string \<Rightarrow> json_fields" where
  "str_omit k s = (if s = [] then [] else [(k, JStr s)])"

definition uint_omit :: "string \<Rightarrow> u32 \<Rightarrow> json_fields" where
  "uint_omit k n = (if n = 0 then [] else [(k, JInt (uint n))])"

definition ptr_omit :: "string \<Rightarrow> ('a \<Rightarrow> json) \<Rightarrow> 'a option \<Rightarrow> json_fields" where
  "ptr_omit k f p = (case p of None \<Rightarrow> [] | Some x \<Rightarrow> [(k, f x)])"

definition arr_omit :: "string \<Rightarrow> ('a \<Rightarrow> json) \<Rightarrow> 'a list \<Rightarrow> json_fields" where
  "arr_omit k f xs = (if xs = [] then [] else [(k, JArr (map f xs))])"

end
