(* ===== verification/VmiTypes.thy ===== *)
theory VmiTypes
  imports ConfigTypes GoJson
begin

text \<open>
  The structs of \<open>pkg/converter/vmi.go\<close>: the KubeVirt \<open>VirtualMachineInstance\<close> that is
  handed to virt-launcher, the cloud-init document, and the result of the conversion. For
  each VMI struct the function \<open>..._json\<close> is what its \<open>json\<close> tags make of it.
\<close>

section \<open>The VMI object\<close>

record vmi_metadata =
  vmim_name :: string
  vmim_namespace :: string
  vmim_uid :: string
  vmim_annotations :: "(string \<times> string) list"

record vmi_cpu =
  vmic_cores :: u32
  vmic_sockets :: u32
  vmic_threads :: u32

record vmi_disk =
  vmid_name :: string
  vmid_bus :: string

record vmi_port =
  vmip_port :: int
  vmip_protocol :: string

record vmi_interface =
  vmii_name :: string
  vmii_binding :: "string option"
  vmii_ports :: "vmi_port list"

record vmi_host_disk =
  hd_path :: string
  hd_type :: string
  hd_capacity :: string

record vmi_container_disk =
  cd_image :: string
  cd_pull_policy :: string

record vmi_volume =
  vmiv_name :: string
  vmiv_host_disk :: "vmi_host_disk option"
  vmiv_container_disk :: "vmi_container_disk option"
  vmiv_cloud_init :: "string option"

record vmi_network =
  vmin_name :: string
  vmin_pod :: "unit option"

record vmi_bootloader =
  vmib_kernel :: string
  vmib_initrd :: string
  vmib_cmdline :: string

record vmi_firmware =
  vmif_bootloader :: "vmi_bootloader option"

record vmi_devices =
  vmidev_disks :: "vmi_disk list"
  vmidev_interfaces :: "vmi_interface list"
  vmidev_graphics :: "bool option"

record vmi_domain =
  vmidom_cpu :: vmi_cpu
  vmidom_requests :: "(string \<times> string) list"
  vmidom_devices :: vmi_devices
  vmidom_firmware :: "vmi_firmware option"

record vmi_spec =
  vmis_domain :: vmi_domain
  vmis_volumes :: "vmi_volume list"
  vmis_networks :: "vmi_network list"

record vmi_object =
  vmi_api_version :: string
  vmi_kind :: string
  vmi_meta :: vmi_metadata
  vmi_spec_of :: vmi_spec

section \<open>JSON\<close>

text \<open>The maps here have at most one key, so sorting their keys leaves them as they are.\<close>

definition str_map_json :: "(string \<times> string) list \<Rightarrow> json" where
  "str_map_json m = JObj (map (\<lambda>(k, v). (k, JStr v)) m)"

definition vmi_metadata_json :: "vmi_metadata \<Rightarrow> json" where
  "vmi_metadata_json m = JObj (fld ''name'' (JStr (vmim_name m))
     @ str_omit ''namespace'' (vmim_namespace m)
     @ fld ''uid'' (JStr (vmim_uid m))
     @ (if vmim_annotations m = [] then [] else fld ''annotations'' (str_map_json (vmim_annotations m))))"

definition vmi_cpu_json :: "vmi_cpu \<Rightarrow> json" where
  "vmi_cpu_json c = JObj (fld ''cores'' (JInt (uint (vmic_cores c)))
     @ uint_omit ''sockets'' (vmic_sockets c) @ uint_omit ''threads'' (vmic_threads c))"

definition vmi_disk_json :: "vmi_disk \<Rightarrow> json" where
  "vmi_disk_json d = JObj (fld ''name'' (JStr (vmid_name d))
     @ fld ''disk'' (JObj (fld ''bus'' (JStr (vmid_bus d)))))"

definition vmi_port_json :: "vmi_port \<Rightarrow> json" where
  "vmi_port_json p = JObj (fld ''port'' (JInt (vmip_port p)) @ str_omit ''protocol'' (vmip_protocol p))"

definition vmi_interface_json :: "vmi_interface \<Rightarrow> json" where
  "vmi_interface_json i = JObj (fld ''name'' (JStr (vmii_name i))
     @ ptr_omit ''binding'' (\<lambda>b. JObj (fld ''name'' (JStr b))) (vmii_binding i)
     @ arr_omit ''ports'' vmi_port_json (vmii_ports i))"

definition vmi_devices_json :: "vmi_devices \<Rightarrow> json" where
  "vmi_devices_json d = JObj (arr_omit ''disks'' vmi_disk_json (vmidev_disks d)
     @ arr_omit ''interfaces'' vmi_interface_json (vmidev_interfaces d)
     @ ptr_omit ''autoattachGraphicsDevice'' JBool (vmidev_graphics d))"

definition vmi_volume_json :: "vmi_volume \<Rightarrow> json" where
  "vmi_volume_json v = JObj (fld ''name'' (JStr (vmiv_name v))
     @ ptr_omit ''hostDisk'' (\<lambda>h. JObj (fld ''path'' (JStr (hd_path h)) @ fld ''type'' (JStr (hd_type h))
         @ str_omit ''capacity'' (hd_capacity h))) (vmiv_host_disk v)
     @ ptr_omit ''containerDisk'' (\<lambda>c. JObj (fld ''image'' (JStr (cd_image c))
         @ str_omit ''imagePullPolicy'' (cd_pull_policy c))) (vmiv_container_disk v)
     @ ptr_omit ''cloudInitNoCloud'' (\<lambda>u. JObj (fld ''userData'' (JStr u))) (vmiv_cloud_init v))"

definition vmi_network_json :: "vmi_network \<Rightarrow> json" where
  "vmi_network_json n = JObj (fld ''name'' (JStr (vmin_name n))
     @ ptr_omit ''pod'' (\<lambda>_. JObj []) (vmin_pod n))"

definition vmi_firmware_json :: "vmi_firmware \<Rightarrow> json" where
  "vmi_firmware_json f = JObj (ptr_omit ''bootloader'' (\<lambda>b. JObj (str_omit ''kernel'' (vmib_kernel b)
     @ str_omit ''initrd'' (vmib_initrd b) @ str_omit ''cmdline'' (vmib_cmdline b))) (vmif_bootloader f))"

definition vmi_domain_json :: "vmi_domain \<Rightarrow> json" where
  "vmi_domain_json d = JObj (fld ''cpu'' (vmi_cpu_json (vmidom_cpu d))
     @ fld ''resources'' (JObj (fld ''requests'' (str_map_json (vmidom_requests d))))
     @ fld ''devices'' (vmi_devices_json (vmidom_devices d))
     @ ptr_omit ''firmware'' vmi_firmware_json (vmidom_firmware d))"

definition vmi_spec_json :: "vmi_spec \<Rightarrow> json" where
  "vmi_spec_json s = JObj (fld ''domain'' (vmi_domain_json (vmis_domain s))
     @ arr_omit ''volumes'' vmi_volume_json (vmis_volumes s)
     @ arr_omit ''networks'' vmi_network_json (vmis_networks s))"

definition vmi_object_json :: "vmi_object \<Rightarrow> json" where
  "vmi_object_json v = JObj (fld ''apiVersion'' (JStr (vmi_api_version v))
     @ fld ''kind'' (JStr (vmi_kind v)) @ fld ''metadata'' (vmi_metadata_json (vmi_meta v))
     @ fld ''spec'' (vmi_spec_json (vmi_spec_of v)))"

section \<open>Cloud-init and the result\<close>

record cloud_user =
  cu_name :: string
  cu_ssh_authorized_keys :: "string list"
  cu_plain_text_passwd :: string
  cu_lock_passwd :: "bool option"
  cu_sudo :: string

record cloud_config =
  cc_users :: "cloud_user list"
  cc_ssh_pwauth :: bool

record vmi_result =
  res_vmi_json :: string
  res_host_mounts :: "(string \<times> string) list"
  res_port_forwards :: "port_forward list"
  res_uid :: string
  res_ssh_user :: string
  res_ssh_keys_configured :: bool

end
