(* ===== verification/PodTypes.thy ===== *)
theory PodTypes
  imports VmiTypes
begin

text \<open>
  The values that podvirt exchanges with Podman and with the outside world, and the events
  that record what it asked for. The records hold the fields that the code sets or reads;
  every other field of the Podman types keeps its zero value there.
\<close>

section \<open>Podman's types\<close>

record mount =
  mnt_type :: string
  mnt_source :: string
  mnt_destination :: string
  mnt_options :: "string list"

record port_mapping =
  pm_host_port :: u16
  pm_container_port :: u16
  pm_protocol :: string

record spec_generator =
  sg_name :: string
  sg_env :: "(string \<times> string) list"
  sg_labels :: "(string \<times> string) list"
  sg_entrypoint :: "string list"
  sg_command :: "string list"
  sg_terminal :: "bool option"
  sg_sysctl :: "(string \<times> string) list"
  sg_image :: string
  sg_mounts :: "mount list"
  sg_devices :: "(string \<times> string) list"
  sg_privileged :: "bool option"
  sg_cap_add :: "string list"
  sg_cgroup_ns :: string
  sg_health_log :: string
  sg_port_mappings :: "port_mapping list"

definition empty_spec_generator :: spec_generator where
  "empty_spec_generator =
     \<lparr>sg_name = [], sg_env = [], sg_labels = [], sg_entrypoint = [], sg_command = [], sg_terminal = None,
      sg_sysctl = [], sg_image = [], sg_mounts = [], sg_devices = [], sg_privileged = None, sg_cap_add = [],
      sg_cgroup_ns = [], sg_health_log = [], sg_port_mappings = []\<rparr>"

text \<open>An entry of \<open>containers.List\<close>; a missing label reads as the empty string.\<close>

record list_container =
  lc_id :: string
  lc_names :: "string list"
  lc_state :: string
  lc_image :: string
  lc_labels :: "(string \<times> string) list"
  lc_ports :: "port_mapping list"

definition label_of :: "list_container \<Rightarrow> string \<Rightarrow> string" where
  "label_of c k = (case map_of (lc_labels c) k of None \<Rightarrow> [] | Some v \<Rightarrow> v)"

text \<open>
  What reading a tar archive yields: its entries in order, each with the result of reading
  its content, and then the end of the archive (\<open>None\<close>) or an error.
\<close>

record tar_stream =
  tar_entries :: "(string \<times> (go_error + string)) list"
  tar_end :: "go_error option"

text \<open>One line of a container's log.\<close>

datatype log_line = OutLine string | ErrLine string

record qemu_img_info =
  img_format :: string
  img_virtual_size :: u64

text \<open>A row of \<open>podvirt list\<close> (\<open>cmd/list.go\<close>).\<close>

record vm_port_mapping_entry =
  vpm_host_port :: u16
  vpm_container_port :: u16
  vpm_protocol :: string

record vm_list_entry =
  vle_name :: string
  vle_state :: string
  vle_container_id :: string
  vle_cpus :: int
  vle_memory_mib :: u64
  vle_port_mappings :: "vm_port_mapping_entry list"

section \<open>Events\<close>

text \<open>
  One event per operation that changes something, talks to Podman or to a process, waits,
  or prints. Reading files and the environment leaves no event.
\<close>

datatype event =
    MkdirAll string
  | WriteFile string string
  | CreateFile string
  | CopyInto string
  | RemoveFile string
  | RemoveTree string
  | RenameFile string string
  | RunCommand string "string list"
  | PodConnect
  | CtrExists string
  | CtrCreate spec_generator
  | CtrStart string
  | CtrStop string u64
  | CtrRemove string bool
  | CtrInspect string
  | CtrList "(string \<times> string) list"
  | CtrWait string
  | CtrLogs string
  | CtrCopy string string
  | ImageExists string
  | ImagePull string
  | ExecCreate string "string list"
  | ExecAttach string
  | ReadStdin
  | Sleep int
  | Stdout string "fmt_arg list"
  | Stderr string "fmt_arg list"
  | JsonOutput string
  | YamlOutput "vm_list_entry list"
  | TableOutput "string list" "string list list"

text \<open>
  The events that change the host or a container: everything but queries, waiting and
  output.
\<close>

fun changes :: "event \<Rightarrow> bool" where
  "changes (MkdirAll _) = True"
| "changes (WriteFile _ _) = True"
| "changes (CreateFile _) = True"
| "changes (CopyInto _) = True"
| "changes (RemoveFile _) = True"
| "changes (RemoveTree _) = True"
| "changes (RenameFile _ _) = True"
| "changes (RunCommand _ _) = True"
| "changes (CtrCreate _) = True"
| "changes (CtrStart _) = True"
| "changes (CtrStop _ _) = True"
| "changes (CtrRemove _ _) = True"
| "changes (ImagePull _) = True"
| "changes (ExecCreate _ _) = True"
| "changes (ExecAttach _) = True"
| "changes _ = False"

text \<open>The events that change a container itself.\<close>

fun container_change :: "event \<Rightarrow> bool" where
  "container_change (CtrCreate _) = True"
| "container_change (CtrStart _) = True"
| "container_change (CtrStop _ _) = True"
| "container_change (CtrRemove _ _) = True"
| "container_change _ = False"

end
