(* ===== verification/Sys.thy ===== *)
theory Sys
  imports PodTypes
begin

text \<open>
  The world around podvirt. Everything that is not podvirt's own code (the operating
  system, the Podman service, \<open>virsh\<close>, the YAML library, Unicode tables) is a field of the
  record \<open>sys\<close>, which the definitions take as an argument. Its operations work on a world
  of an arbitrary type \<open>'w\<close>, so a theorem about all \<open>sys\<close> holds whatever these parts do,
  failures at any point included.

  An operation that changes the world returns its result or error, the time it took and the
  next world. A state of a run, \<open>st\<close>, is the world, the clock (nanoseconds) and the log of
  the events so far, the oldest first.
\<close>

type_synonym ('w, 'a) op = "'w \<Rightarrow> (go_error + 'a) \<times> nat \<times> 'w"

record 'w sys =
  \<comment> \<open>the process\<close>
  sys_env :: "string \<Rightarrow> string option"
  uni_lower :: "string \<Rightarrow> string"
  uni_upper :: "string \<Rightarrow> string"
  map_order :: "(string \<times> string) list \<Rightarrow> (string \<times> string) list"
  qemu_wrapper :: string
  \<comment> \<open>library code\<close>
  yaml_unmarshal_vm :: "string \<Rightarrow> go_error + virtual_machine"
  yaml_marshal_cc :: "cloud_config \<Rightarrow> go_error + string"
  json_unmarshal_info :: "string \<Rightarrow> go_error + qemu_img_info"
  \<comment> \<open>reading the file system\<close>
  os_stat :: "'w \<Rightarrow> string \<Rightarrow> go_error + unit"
  os_open :: "'w \<Rightarrow> string \<Rightarrow> go_error + unit"
  io_read_full :: "'w \<Rightarrow> string \<Rightarrow> nat \<Rightarrow> go_error + string"
  os_read_file :: "'w \<Rightarrow> string \<Rightarrow> go_error + string"
  os_read_dir :: "'w \<Rightarrow> string \<Rightarrow> go_error + string list"
  look_path :: "'w \<Rightarrow> string \<Rightarrow> go_error + string"
  \<comment> \<open>changing the file system\<close>
  os_mkdir_all :: "string \<Rightarrow> ('w, unit) op"
  os_write_file :: "string \<Rightarrow> string \<Rightarrow> ('w, unit) op"
  os_create :: "string \<Rightarrow> ('w, unit) op"
  io_copy :: "string \<Rightarrow> go_error + string \<Rightarrow> ('w, unit) op"
  os_remove :: "string \<Rightarrow> ('w, unit) op"
  os_remove_all :: "string \<Rightarrow> ('w, unit) op"
  os_rename :: "string \<Rightarrow> string \<Rightarrow> ('w, unit) op"
  \<comment> \<open>processes, terminal, time\<close>
  exec_output :: "string \<Rightarrow> string list \<Rightarrow> ('w, string) op"
  stdin_line :: "('w, string \<times> go_error option) op"
  sleep_more :: "int \<Rightarrow> ('w, unit) op"
  \<comment> \<open>Podman\<close>
  pod_connect :: "string \<Rightarrow> ('w, unit) op"
  ctr_exists :: "string \<Rightarrow> ('w, bool) op"
  ctr_create :: "spec_generator \<Rightarrow> ('w, string) op"
  ctr_start :: "string \<Rightarrow> ('w, unit) op"
  ctr_stop :: "string \<Rightarrow> u64 \<Rightarrow> ('w, unit) op"
  ctr_remove :: "string \<Rightarrow> bool \<Rightarrow> ('w, unit) op"
  ctr_inspect_image :: "string \<Rightarrow> ('w, string) op"
  ctr_list :: "(string \<times> string) list \<Rightarrow> ('w, list_container list) op"
  ctr_wait :: "string \<Rightarrow> ('w, int) op"
  ctr_logs :: "string \<Rightarrow> ('w, log_line list \<times> go_error option) op"
  ctr_copy :: "string \<Rightarrow> string \<Rightarrow> ('w, tar_stream) op"
  image_exists :: "string \<Rightarrow> ('w, bool) op"
  image_pull :: "string \<Rightarrow> ('w, unit) op"
  exec_create :: "string \<Rightarrow> string list \<Rightarrow> ('w, string) op"
  exec_attach :: "string \<Rightarrow> ('w, string \<times> string \<times> go_error option) op"

record 'w st =
  ext :: 'w
  clk :: int
  log :: "event list"

section \<open>Primitive actions\<close>

text \<open>An operation of the world, with the event that records it.\<close>

definition call :: "event \<Rightarrow> ('w, 'a) op \<Rightarrow> ('w st, 'a) act" where
  "call e f = (\<lambda>s. case f (ext s) of
     (r, dt, w') \<Rightarrow> (r, s\<lparr>ext := w', clk := clk s + int dt, log := log s @ [e]\<rparr>))"

text \<open>A look at the world that changes nothing.\<close>

definition query :: "('w \<Rightarrow> go_error + 'a) \<Rightarrow> ('w st, 'a) act" where
  "query g = (\<lambda>s. (g (ext s), s))"

lemma run_query_bindE: "bindE (query g) f s = (case g (ext s) of Inl e \<Rightarrow> (Inl e, s) | Inr x \<Rightarrow> f x s)"
  by (simp add: run_bindE query_def split: sum.splits)

definition emit :: "event \<Rightarrow> ('w st, unit) act" where
  "emit e = (\<lambda>s. (Inr (), s\<lparr>log := log s @ [e]\<rparr>))"

definition say :: "string \<Rightarrow> fmt_arg list \<Rightarrow> ('w st, unit) act" where
  "say f args = emit (Stdout f args)"

definition warn :: "string \<Rightarrow> fmt_arg list \<Rightarrow> ('w st, unit) act" where
  "warn f args = emit (Stderr f args)"

definition now :: "('w st, int) act" where
  "now = (\<lambda>s. (Inr (clk s), s))"

text \<open>\<open>time.Sleep(d)\<close> waits at least \<open>d\<close>; the world decides how much longer it takes.\<close>

definition sleep :: "'w sys \<Rightarrow> int \<Rightarrow> ('w st, unit) act" where
  "sleep sys d = (\<lambda>s. case call (Sleep d) (sleep_more sys d) s of
     (_, s') \<Rightarrow> (Inr (), s'\<lparr>clk := clk s' + max 0 d\<rparr>))"

text \<open>\<open>os.Getenv\<close>: the empty string for a variable that is not set.\<close>

definition getenv :: "'w sys \<Rightarrow> string \<Rightarrow> string" where
  "getenv sys k = (case sys_env sys k of None \<Rightarrow> [] | Some v \<Rightarrow> v)"

section \<open>Every action extends the log and moves the clock forward\<close>

text \<open>
  The contract of the whole model: an action appends to the log and never turns the clock
  back. It is closed under the combinators of the monad.
\<close>

definition extends :: "'w st \<Rightarrow> 'w st \<Rightarrow> bool" where
  "extends s s' \<longleftrightarrow> (\<exists>t. log s' = log s @ t) \<and> clk s \<le> clk s'"

lemma extends_refl [simp, intro!]: "extends s s"
  by (auto simp: extends_def)

lemma extends_trans: "extends s s1 \<Longrightarrow> extends s1 s2 \<Longrightarrow> extends s s2"
  by (auto simp: extends_def)

definition forward :: "('w st, 'a) act \<Rightarrow> bool" where
  "forward m \<longleftrightarrow> (\<forall>s. extends s (snd (m s)))"

text \<open>The events an action adds to the log.\<close>

definition new_events :: "('w st, 'a) act \<Rightarrow> 'w st \<Rightarrow> event list" where
  "new_events m s = drop (length (log s)) (log (snd (m s)))"

lemma forward_extends: "forward m \<Longrightarrow> m s = (r, s') \<Longrightarrow> extends s s'"
  by (metis forward_def snd_conv)

lemma forward_clk: "forward m \<Longrightarrow> m s = (r, s') \<Longrightarrow> clk s \<le> clk s'"
  using forward_extends by (auto simp: extends_def)

lemma forward_log: "forward m \<Longrightarrow> m s = (r, s') \<Longrightarrow> log s' = log s @ new_events m s"
  using forward_extends by (fastforce simp: extends_def new_events_def)

named_theorems forward_intros \<open>actions that extend the log and the clock\<close>

lemma forward_ok [forward_intros]: "forward (ok x)"
  by (simp add: forward_def)

lemma forward_fail [forward_intros]: "forward (fail e)"
  by (simp add: forward_def)

lemma forward_lift_res [forward_intros]: "forward (lift_res r)"
  by (simp add: forward_def)

lemma forward_query [forward_intros]: "forward (query g)"
  by (simp add: forward_def query_def)

lemma forward_now [forward_intros]: "forward now"
  by (simp add: forward_def now_def)

lemma forward_call [forward_intros]: "forward (call e f)"
  by (auto simp: forward_def call_def extends_def split: prod.splits)

lemma forward_emit [forward_intros]: "forward (emit e)"
  by (simp add: forward_def emit_def extends_def)

lemma forward_say [forward_intros]: "forward (say f args)"
  by (simp add: say_def forward_emit)

lemma forward_warn [forward_intros]: "forward (warn f args)"
  by (simp add: warn_def forward_emit)

lemma forward_sleep [forward_intros]: "forward (sleep sys d)"
  by (auto simp: forward_def sleep_def call_def extends_def split: prod.splits)

lemma forward_bindE [forward_intros]:
  assumes "forward m" and "\<And>x. forward (f x)"
  shows "forward (bindE m f)"
  unfolding forward_def
proof
  fix s
  obtain r s1 where m: "m s = (r, s1)" by fastforce
  then have e: "extends s s1" using assms(1) by (rule forward_extends [rotated])
  show "extends s (snd (bindE m f s))"
  proof (cases r)
    case (Inl e')
    then show ?thesis using e m by (simp add: run_bindE)
  next
    case (Inr x)
    then have "extends s1 (snd (f x s1))" using assms(2) by (simp add: forward_def)
    then show ?thesis using e m Inr by (auto simp: run_bindE intro: extends_trans)
  qed
qed

lemma forward_wrapE [forward_intros]: "forward m \<Longrightarrow> forward (wrapE w m)"
  by (auto simp: forward_def run_wrapE split: prod.splits sum.splits) (metis snd_conv)+

lemma forward_attempt [forward_intros]: "forward m \<Longrightarrow> forward (attempt m)"
  by (auto simp: forward_def run_attempt split: prod.splits) (metis snd_conv)

lemma forward_deferE [forward_intros]: "forward m \<Longrightarrow> forward c \<Longrightarrow> forward (deferE m c)"
  unfolding deferE_def by (intro forward_intros)

lemma forward_if [forward_intros]: "forward m \<Longrightarrow> forward m' \<Longrightarrow> forward (if b then m else m')"
  by simp

lemma forward_case_sum [forward_intros]:
  "(\<And>e. forward (f e)) \<Longrightarrow> (\<And>x. forward (g x)) \<Longrightarrow> forward (case r of Inl e \<Rightarrow> f e | Inr x \<Rightarrow> g x)"
  by (cases r) auto

lemma forward_case_option [forward_intros]:
  "forward m \<Longrightarrow> (\<And>x. forward (g x)) \<Longrightarrow> forward (case r of None \<Rightarrow> m | Some x \<Rightarrow> g x)"
  by (cases r) auto

lemma forward_case_prod [forward_intros]:
  "(\<And>x y. forward (f x y)) \<Longrightarrow> forward (case p of (x, y) \<Rightarrow> f x y)"
  by (cases p) auto

lemma forward_case_list [forward_intros]:
  "forward m \<Longrightarrow> (\<And>x xs. forward (g x xs)) \<Longrightarrow> forward (case l of [] \<Rightarrow> m | x # xs \<Rightarrow> g x xs)"
  by (cases l) auto

lemma forward_forE [forward_intros]: "(\<And>x. forward (f x)) \<Longrightarrow> forward (forE xs f)"
  by (induction xs) (auto intro!: forward_intros)

section \<open>Which events an action can add\<close>

text \<open>
  \<open>only_events P m\<close>: every event that \<open>m\<close> adds satisfies \<open>P\<close>. Like \<open>forward\<close>, it is
  closed under the combinators, so for a concrete action it is a matter of its primitive
  calls.
\<close>

definition only_events :: "(event \<Rightarrow> bool) \<Rightarrow> ('w st, 'a) act \<Rightarrow> bool" where
  "only_events P m \<longleftrightarrow> (\<forall>s. \<exists>t. log (snd (m s)) = log s @ t \<and> list_all P t)"

named_theorems only_intros \<open>actions all of whose events satisfy a predicate\<close>

lemma only_eventsD: "only_events P m \<Longrightarrow> m s = (r, s') \<Longrightarrow> \<exists>t. log s' = log s @ t \<and> list_all P t"
  by (metis only_events_def snd_conv)

lemma only_events_new: "only_events P m \<Longrightarrow> list_all P (new_events m s)"
  unfolding only_events_def new_events_def by (metis append_eq_conv_conj)

lemma only_mono: "only_events P m \<Longrightarrow> (\<And>e. P e \<Longrightarrow> Q e) \<Longrightarrow> only_events Q m"
  unfolding only_events_def by (metis (no_types, lifting) list_all_iff)

lemma only_ok [only_intros]: "only_events P (ok x)"
  by (simp add: only_events_def)

lemma only_fail [only_intros]: "only_events P (fail e)"
  by (simp add: only_events_def)

lemma only_lift_res [only_intros]: "only_events P (lift_res r)"
  by (simp add: only_events_def)

lemma only_query [only_intros]: "only_events P (query g)"
  by (simp add: only_events_def query_def)

lemma only_now [only_intros]: "only_events P now"
  by (simp add: only_events_def now_def)

lemma only_call [only_intros]: "P e \<Longrightarrow> only_events P (call e f)"
  by (auto simp: only_events_def call_def split: prod.splits)

lemma only_emit [only_intros]: "P e \<Longrightarrow> only_events P (emit e)"
  by (simp add: only_events_def emit_def)

lemma only_say [only_intros]: "P (Stdout f args) \<Longrightarrow> only_events P (say f args)"
  by (simp add: say_def only_emit)

lemma only_warn [only_intros]: "P (Stderr f args) \<Longrightarrow> only_events P (warn f args)"
  by (simp add: warn_def only_emit)

lemma only_sleep [only_intros]: "P (Sleep d) \<Longrightarrow> only_events P (sleep sys d)"
  by (auto simp: only_events_def sleep_def call_def split: prod.splits)

lemma only_bindE [only_intros]:
  assumes "only_events P m" and "\<And>x. only_events P (f x)"
  shows "only_events P (bindE m f)"
  unfolding only_events_def
proof
  fix s
  obtain r s1 where m: "m s = (r, s1)" by fastforce
  then obtain t where t: "log s1 = log s @ t" "list_all P t"
    using assms(1) by (blast dest: only_eventsD)
  show "\<exists>t. log (snd (bindE m f s)) = log s @ t \<and> list_all P t"
  proof (cases r)
    case (Inl e)
    then show ?thesis using m t by (simp add: run_bindE)
  next
    case (Inr x)
    obtain r2 s2 where f: "f x s1 = (r2, s2)" by fastforce
    then obtain t2 where "log s2 = log s1 @ t2" "list_all P t2"
      using assms(2) by (blast dest: only_eventsD)
    then show ?thesis using m f t Inr by (simp add: run_bindE)
  qed
qed

lemma only_wrapE [only_intros]: "only_events P m \<Longrightarrow> only_events P (wrapE w m)"
  by (auto simp: only_events_def run_wrapE split: prod.splits sum.splits) (metis snd_conv)+

lemma only_attempt [only_intros]: "only_events P m \<Longrightarrow> only_events P (attempt m)"
  by (auto simp: only_events_def run_attempt split: prod.splits) (metis snd_conv)

lemma only_deferE [only_intros]: "only_events P m \<Longrightarrow> only_events P c \<Longrightarrow> only_events P (deferE m c)"
  unfolding deferE_def by (intro only_intros)

lemma only_if [only_intros]: "only_events P m \<Longrightarrow> only_events P m' \<Longrightarrow> only_events P (if b then m else m')"
  by simp

lemma only_case_sum [only_intros]:
  "(\<And>e. only_events P (f e)) \<Longrightarrow> (\<And>x. only_events P (g x)) \<Longrightarrow>
     only_events P (case r of Inl e \<Rightarrow> f e | Inr x \<Rightarrow> g x)"
  by (cases r) auto

lemma only_case_option [only_intros]:
  "only_events P m \<Longrightarrow> (\<And>x. only_events P (g x)) \<Longrightarrow> only_events P (case r of None \<Rightarrow> m | Some x \<Rightarrow> g x)"
  by (cases r) auto

lemma only_case_prod [only_intros]:
  "(\<And>x y. only_events P (f x y)) \<Longrightarrow> only_events P (case p of (x, y) \<Rightarrow> f x y)"
  by (cases p) auto

lemma only_case_list [only_intros]:
  "only_events P m \<Longrightarrow> (\<And>x xs. only_events P (g x xs)) \<Longrightarrow>
     only_events P (case l of [] \<Rightarrow> m | x # xs \<Rightarrow> g x xs)"
  by (cases l) auto

lemma only_forE [only_intros]: "(\<And>x. only_events P (f x)) \<Longrightarrow> only_events P (forE xs f)"
  by (induction xs) (auto intro!: only_intros)

end
