(* ===== verification/GoPath.thy ===== *)
theory GoPath
  imports GoStrings
begin

text \<open>
  The functions of Go's package \<open>path/filepath\<close> that podvirt calls, for Unix paths.
  \<open>filepath.Clean\<close> is described by its documented effect on the components of the path:
  empty components and \<open>.\<close> disappear, an inner \<open>..\<close> removes the component before it,
  a leading \<open>..\<close> disappears from a rooted path and stays in a relative one.
\<close>

section \<open>Clean and Join\<close>

abbreviation slash :: char where
  "slash \<equiv> CHR ''/''"

text \<open>One component after the other onto the stack of the kept ones (the last on top).\<close>

definition clean_step :: "bool \<Rightarrow> string \<Rightarrow> string list \<Rightarrow> string list" where
  "clean_step rooted c stack =
     (if c = [] \<or> c = ''.'' then stack
      else if c = ''..'' then
        (case stack of
           [] \<Rightarrow> if rooted then [] else [''..'']
         | d # ds \<Rightarrow> if d = ''..'' then ''..'' # stack else ds)
      else c # stack)"

definition clean_comps :: "bool \<Rightarrow> string list \<Rightarrow> string list" where
  "clean_comps rooted cs = rev (fold (clean_step rooted) cs [])"

definition is_rooted :: "string \<Rightarrow> bool" where
  "is_rooted p \<longleftrightarrow> (case p of [] \<Rightarrow> False | c # _ \<Rightarrow> c = slash)"

definition clean :: "string \<Rightarrow> string" where
  "clean p =
     (let cs = clean_comps (is_rooted p) (split_on slash p);
          out = (if is_rooted p then [slash] else []) @ join_with [slash] cs
      in if out = [] then ''.'' else out)"

text \<open>\<open>filepath.Join\<close>: empty leading elements are skipped, the rest is joined and cleaned.\<close>

definition join_path :: "string list \<Rightarrow> string" where
  "join_path es =
     (case dropWhile (\<lambda>e. e = []) es of [] \<Rightarrow> [] | e # rest \<Rightarrow> clean (join_with [slash] (e # rest)))"

section \<open>Base, Ext, Dir\<close>

definition base :: "string \<Rightarrow> string" where
  "base p =
     (if p = [] then ''.''
      else let q = rev (dropWhile (\<lambda>c. c = slash) (rev p));
               b = rev (takeWhile (\<lambda>c. c \<noteq> slash) (rev q))
           in if b = [] then [slash] else b)"

definition path_ext :: "string \<Rightarrow> string" where
  "path_ext p =
     (let r = takeWhile (\<lambda>c. c \<noteq> slash) (rev p)
      in if CHR ''.'' \<in> set r then CHR ''.'' # rev (takeWhile (\<lambda>c. c \<noteq> CHR ''.'') r) else [])"

definition dir :: "string \<Rightarrow> string" where
  "dir p = clean (rev (dropWhile (\<lambda>c. c \<noteq> slash) (rev p)))"

section \<open>Plain components\<close>

text \<open>A component that \<open>Clean\<close> keeps whatever stands before it.\<close>

definition plain :: "string \<Rightarrow> bool" where
  "plain c \<longleftrightarrow> c \<noteq> [] \<and> c \<noteq> ''.'' \<and> c \<noteq> ''..'' \<and> slash \<notin> set c"

lemma clean_step_plain [simp]: "plain c \<Longrightarrow> clean_step r c stack = c # stack"
  by (simp add: plain_def clean_step_def)

lemma fold_clean_plain:
  "list_all plain cs \<Longrightarrow> fold (clean_step r) cs stack = rev cs @ stack"
  by (induction cs arbitrary: stack) auto

lemma clean_comps_plain [simp]: "list_all plain cs \<Longrightarrow> clean_comps r cs = cs"
  by (simp add: clean_comps_def fold_clean_plain)

lemma plain_no_slash: "plain c \<Longrightarrow> slash \<notin> set c"
  by (simp add: plain_def)

lemma plain_nonempty: "plain c \<Longrightarrow> c \<noteq> []"
  by (simp add: plain_def)

text \<open>The absolute path with given components.\<close>

definition abs_path :: "string list \<Rightarrow> string" where
  "abs_path cs = slash # join_with [slash] cs"

lemma split_abs_path:
  "cs \<noteq> [] \<Longrightarrow> list_all plain cs \<Longrightarrow> split_on slash (abs_path cs) = [] # cs"
  by (auto simp: abs_path_def list_all_iff plain_no_slash intro!: split_join)

lemma is_rooted_abs_path [simp]: "is_rooted (abs_path cs)"
  by (simp add: is_rooted_def abs_path_def)

lemma clean_step_Nil [simp]: "clean_step r [] stack = stack"
  by (simp add: clean_step_def)

lemma clean_abs_path:
  assumes "cs \<noteq> []" and "list_all plain cs"
  shows "clean (abs_path cs) = abs_path cs"
proof -
  have "clean_comps True (split_on slash (abs_path cs)) = cs"
    using assms by (simp add: split_abs_path clean_comps_def fold_clean_plain)
  then have "clean (abs_path cs) = [slash] @ join_with [slash] cs"
    by (simp add: clean_def Let_def)
  then show ?thesis by (simp add: abs_path_def)
qed

lemma join_with_append:
  "xs \<noteq> [] \<Longrightarrow> ys \<noteq> [] \<Longrightarrow> join_with sep (xs @ ys) = join_with sep xs @ sep @ join_with sep ys"
  by (induction xs) (auto simp: join_with_Cons)

lemma abs_path_append:
  "xs \<noteq> [] \<Longrightarrow> ys \<noteq> [] \<Longrightarrow> abs_path (xs @ ys) = join_with [slash] (abs_path xs # ys)"
  by (cases ys) (auto simp: abs_path_def join_with_append)

text \<open>
  Joining plain components to an absolute path with plain components appends them: nothing
  escapes the base.
\<close>

lemma join_path_plain:
  assumes "bs \<noteq> []" and "list_all plain bs" and "cs \<noteq> []" and "list_all plain cs"
  shows "join_path (abs_path bs # cs) = abs_path (bs @ cs)"
proof -
  have "abs_path bs \<noteq> []" by (simp add: abs_path_def)
  then have "join_path (abs_path bs # cs) = clean (join_with [slash] (abs_path bs # cs))"
    by (simp add: join_path_def)
  also have "\<dots> = clean (abs_path (bs @ cs))"
    using assms by (simp add: abs_path_append)
  also have "\<dots> = abs_path (bs @ cs)"
    using assms by (intro clean_abs_path) auto
  finally show ?thesis .
qed

lemma abs_path_inj:
  assumes "cs \<noteq> []" "ds \<noteq> []" "list_all plain cs" "list_all plain ds"
  shows "abs_path cs = abs_path ds \<longleftrightarrow> cs = ds"
  using assms by (metis list.inject split_abs_path)

lemma base_abs_path:
  assumes "list_all plain cs" and "plain c"
  shows "base (abs_path (cs @ [c])) = c"
proof -
  have p: "abs_path (cs @ [c]) = (if cs = [] then [slash] else abs_path cs @ [slash]) @ c"
    by (auto simp: abs_path_def join_with_append)
  obtain d ds where c: "rev c = d # ds" and d: "d \<noteq> slash"
    using assms by (cases "rev c") (auto simp: plain_def)
  have "\<forall>x\<in>set (rev c). x \<noteq> slash" using assms by (auto simp: plain_def)
  then have "takeWhile (\<lambda>x. x \<noteq> slash) (rev c @ slash # q) = rev c" for q
    by (subst takeWhile_append2) auto
  moreover have "dropWhile (\<lambda>x. x = slash) (rev c @ q) = rev c @ q" for q
    using c d by simp
  ultimately show ?thesis
    using assms unfolding p base_def by (auto simp: plain_nonempty Let_def)
qed

lemma dir_abs_path:
  assumes "cs \<noteq> []" and "list_all plain cs" and "plain c"
  shows "dir (abs_path (cs @ [c])) = abs_path cs"
proof -
  have p: "abs_path (cs @ [c]) = abs_path cs @ slash # c"
    using assms by (simp add: abs_path_def join_with_append)
  have "\<forall>x\<in>set (rev c). x \<noteq> slash" using assms by (auto simp: plain_def)
  then have "dropWhile (\<lambda>x. x \<noteq> slash) (rev c @ slash # rev (abs_path cs)) = slash # rev (abs_path cs)"
    by (subst dropWhile_append2) auto
  then have "dir (abs_path (cs @ [c])) = clean (abs_path cs @ [slash])"
    by (simp add: dir_def p)
  moreover have "split_on slash (abs_path cs @ [slash]) = [] # cs @ [[]]"
  proof -
    have "abs_path cs @ [slash] = slash # join_with [slash] (cs @ [[]])"
      using assms by (simp add: abs_path_def join_with_append)
    moreover have "split_on slash (join_with [slash] (cs @ [[]])) = cs @ [[]]"
      using assms by (intro split_join) (auto simp: list_all_iff plain_no_slash)
    ultimately show ?thesis by simp
  qed
  moreover have "is_rooted (abs_path cs @ [slash])"
    by (simp add: is_rooted_def abs_path_def)
  ultimately show ?thesis
    using assms by (simp add: clean_def clean_comps_def fold_clean_plain abs_path_def)
qed

section \<open>Clean is idempotent\<close>

text \<open>
  The stack of kept components of a rooted path holds plain components only; that of a
  relative path holds plain ones above a run of \<open>..\<close>.
\<close>

definition clean_stack :: "bool \<Rightarrow> string list \<Rightarrow> bool" where
  "clean_stack rooted stack \<longleftrightarrow>
     (\<exists>ps n. stack = ps @ replicate n ''..'' \<and> list_all plain ps \<and> (rooted \<longrightarrow> n = 0))"

lemma clean_step_stack:
  assumes "clean_stack r stack" and "slash \<notin> set c"
  shows "clean_stack r (clean_step r c stack)"
proof -
  from assms obtain ps n where st: "stack = ps @ replicate n ''..''"
    and ps: "list_all plain ps" and n: "r \<longrightarrow> n = 0"
    by (auto simp: clean_stack_def)
  consider "c = [] \<or> c = ''.''" | "c = ''..''" "ps = []" | "c = ''..''" "ps \<noteq> []" | "plain c"
    using assms(2) by (auto simp: plain_def)
  then show ?thesis
  proof cases
    case 1
    then show ?thesis using assms by (auto simp: clean_step_def)
  next
    case 2
    then have "clean_step r c stack = (if r then [] else replicate (Suc n) ''..'')"
      using st n by (cases n) (auto simp: clean_step_def)
    then show ?thesis
      by (auto simp: clean_stack_def intro!: exI [of _ "[]"] exI [of _ "Suc n"])
  next
    case 3
    then obtain p ps' where p: "ps = p # ps'" by (cases ps) auto
    then have "clean_step r c stack = ps' @ replicate n ''..''"
      using 3 st ps by (auto simp: clean_step_def plain_def)
    then show ?thesis using ps n p by (auto simp: clean_stack_def)
  next
    case 4
    then have "clean_step r c stack = (c # ps) @ replicate n ''..''" using st by simp
    moreover have "list_all plain (c # ps)" using 4 ps by simp
    ultimately show ?thesis using n unfolding clean_stack_def by blast
  qed
qed

lemma fold_clean_stack:
  "clean_stack r stack \<Longrightarrow> (\<And>c. c \<in> set cs \<Longrightarrow> slash \<notin> set c) \<Longrightarrow>
     clean_stack r (fold (clean_step r) cs stack)"
  by (induction cs arbitrary: stack) (auto intro: clean_step_stack)

lemma fold_dotdot: "fold (clean_step False) (replicate n ''..'') (replicate m ''..'') =
    replicate (n + m) ''..''"
proof (induction n arbitrary: m)
  case 0
  then show ?case by simp
next
  case (Suc n)
  have "clean_step False ''..'' (replicate m ''..'') = replicate (Suc m) ''..''"
    by (cases m) (auto simp: clean_step_def)
  then show ?case using Suc.IH [of "Suc m"] by simp
qed

lemma clean_comps_stack:
  assumes "clean_stack r stack"
  shows "clean_comps r (rev stack) = rev stack"
proof -
  from assms obtain ps n where st: "stack = ps @ replicate n ''..''"
    and ps: "list_all plain ps" and n: "r \<longrightarrow> n = 0"
    by (auto simp: clean_stack_def)
  have "fold (clean_step r) (replicate n ''..'') [] = replicate n ''..''"
    using fold_dotdot [of n 0] n by (cases r) auto
  then show ?thesis
    using ps by (simp add: clean_comps_def st fold_clean_plain list_all_iff)
qed

lemma clean_stack_comps: "clean_stack r (rev (clean_comps r (split_on slash p)))"
proof -
  have "clean_stack r []" by (auto simp: clean_stack_def)
  then show ?thesis
    by (auto simp: clean_comps_def intro!: fold_clean_stack dest: split_on_pieces)
qed

lemma clean_stack_no_slash:
  assumes "clean_stack r stack" and "c \<in> set stack"
  shows "slash \<notin> set c \<and> c \<noteq> []"
proof -
  from assms obtain ps n where st: "stack = ps @ replicate n ''..''" and ps: "list_all plain ps"
    unfolding clean_stack_def by blast
  from st assms(2) consider "c \<in> set ps" | "c = ''..''"
    by (cases n) auto
  then show ?thesis
    by cases (use ps in \<open>simp_all add: list_all_iff plain_def\<close>)
qed

lemma clean_slash [simp]: "clean [slash] = [slash]"
  by (simp add: clean_def is_rooted_def clean_comps_def Let_def)

lemma clean_dot [simp]: "clean ''.'' = ''.''"
  by (simp add: clean_def is_rooted_def clean_comps_def clean_step_def Let_def)

lemma clean_idem: "clean (clean p) = clean p"
proof -
  let ?r = "is_rooted p"
  define cs where "cs = clean_comps ?r (split_on slash p)"
  have cs: "clean_comps ?r cs = cs"
    using clean_comps_stack [OF clean_stack_comps [of ?r p]] by (simp add: cs_def)
  have el: "slash \<notin> set c \<and> c \<noteq> []" if "c \<in> set cs" for c
    using clean_stack_no_slash [OF clean_stack_comps [of ?r p], of c] that by (simp add: cs_def)
  show ?thesis
  proof (cases "cs = []")
    case True
    then have "clean p = (if ?r then [slash] else ''.'')"
      by (simp add: clean_def cs_def Let_def)
    then show ?thesis by simp
  next
    case False
    have sp: "split_on slash (join_with [slash] cs) = cs"
      using False el by (intro split_join) auto
    obtain d ds where d: "cs = d # ds" using False by (cases cs) auto
    then have "hd d \<noteq> slash" and "d \<noteq> []" using el [of d] by (auto simp: neq_Nil_conv)
    then have hd: "join_with [slash] cs \<noteq> [] \<and> hd (join_with [slash] cs) \<noteq> slash"
      by (simp add: d join_with_Cons)
    then have out: "clean p = (if ?r then [slash] else []) @ join_with [slash] cs"
      by (simp add: clean_def cs_def Let_def)
    have "is_rooted (clean p) = ?r"
      using hd by (auto simp: out is_rooted_def split: list.splits)
    moreover have "clean_comps ?r (split_on slash (clean p)) = cs"
      using sp cs by (auto simp: out clean_comps_def)
    ultimately show ?thesis
      using out hd by (simp add: clean_def Let_def)
  qed
qed

end
