(* ===== verification/UtilPkg.thy ===== *)
theory UtilPkg
  imports Sys GoPath
begin

text \<open>\<open>pkg/util\<close>: constants, the qcow2 test, and the checks made before Podman is used.\<close>

section \<open>Constants (\<open>constants.go\<close>)\<close>

definition default_launcher_image :: string where
  "default_launcher_image = ''quay.io/kubevirt/virt-launcher:v1.9.1''"

definition container_prefix :: string where
  "container_prefix = ''podvirt-''"

section \<open>Disk images (\<open>disk.go\<close>)\<close>

definition qcow2_magic :: string where
  "qcow2_magic = [CHR ''Q'', CHR ''F'', CHR ''I'', CHR 0xFB]"

definition has_qcow2_magic :: "'w sys \<Rightarrow> 'w \<Rightarrow> string \<Rightarrow> go_error + bool" where
  "has_qcow2_magic sys w path =
     (case os_open sys w path of
        Inl e \<Rightarrow> Inl e
      | Inr _ \<Rightarrow>
          (case io_read_full sys w path 4 of
             Inl e \<Rightarrow> Inl e
           | Inr magic \<Rightarrow> Inr (magic = qcow2_magic)))"

definition is_qcow2_image :: "'w sys \<Rightarrow> 'w \<Rightarrow> string \<Rightarrow> bool" where
  "is_qcow2_image sys w path =
     (case has_qcow2_magic sys w path of
        Inr b \<Rightarrow> b
      | Inl e \<Rightarrow> equal_fold (path_ext path) ''.qcow2'')"

section \<open>Checks (\<open>preflight.go\<close>)\<close>

definition socket_missing_msg :: string where
  "socket_missing_msg =
    ''Podman socket not found at %q\<newline>'' @
    ''\<newline>'' @
    ''podvirt uses the Podman REST API, which requires the Podman socket to be running.\<newline>'' @
    ''\<newline>'' @
    ''To enable it for your user (rootless, recommended):\<newline>'' @
    ''    systemctl --user enable --now podman.socket\<newline>'' @
    ''\<newline>'' @
    ''To verify it is running:\<newline>'' @
    ''    systemctl --user status podman.socket\<newline>'' @
    ''\<newline>'' @
    ''The socket will then be available at:\<newline>'' @
    ''    %s''"

definition kvm_missing_msg :: string where
  "kvm_missing_msg =
    ''/dev/kvm not found\<newline>'' @
    ''\<newline>'' @
    ''KVM kernel module is required to run virtual machines.\<newline>'' @
    ''\<newline>'' @
    ''To load it:\<newline>'' @
    ''    sudo modprobe kvm_intel   # Intel CPUs\<newline>'' @
    ''    sudo modprobe kvm_amd     # AMD CPUs\<newline>'' @
    ''\<newline>'' @
    ''To make it persistent:\<newline>'' @
    ''    echo 'kvm_intel' | sudo tee /etc/modules-load.d/kvm.conf''"

definition kvm_access_msg :: string where
  "kvm_access_msg =
    ''/dev/kvm exists but is not accessible: %w\<newline>'' @
    ''\<newline>'' @
    ''Add your user to the kvm group:\<newline>'' @
    ''    sudo usermod -aG kvm %s\<newline>'' @
    ''    # Log out and back in for the change to take effect''"

definition podman_socket_path :: "'w sys \<Rightarrow> string" where
  "podman_socket_path sys =
     (let xdg = getenv sys ''XDG_RUNTIME_DIR''
      in if xdg \<noteq> [] then xdg @ ''/podman/podman.sock'' else ''/run/podman/podman.sock'')"

definition check_podman_socket :: "'w sys \<Rightarrow> 'w \<Rightarrow> go_error + unit" where
  "check_podman_socket sys w =
     (let socket_path = podman_socket_path sys
      in case os_stat sys w socket_path of
           Inl NotExist \<Rightarrow> Inl (Errorf socket_missing_msg [FStr socket_path, FStr socket_path])
         | _ \<Rightarrow> Inr ())"

definition check_kvm :: "'w sys \<Rightarrow> 'w \<Rightarrow> go_error + unit" where
  "check_kvm sys w =
     (case os_stat sys w ''/dev/kvm'' of
        Inl NotExist \<Rightarrow> Inl (Errorf kvm_missing_msg [])
      | _ \<Rightarrow>
          (case os_open sys w ''/dev/kvm'' of
             Inl e \<Rightarrow> Inl (Errorf kvm_access_msg [FErr e, FStr (getenv sys ''USER'')])
           | Inr _ \<Rightarrow> Inr ()))"

definition podman_binary_path :: "'w sys \<Rightarrow> 'w \<Rightarrow> go_error + string" where
  "podman_binary_path sys w =
     (case look_path sys w ''podman'' of
        Inr p \<Rightarrow> Inr p
      | Inl _ \<Rightarrow>
          (case find (\<lambda>c. \<not> isl (os_stat sys w c)) [''/var/run/host/usr/bin/podman'', ''/run/host/usr/bin/podman''] of
             Some c \<Rightarrow> Inr c
           | None \<Rightarrow> Inl (Errorf ''podman binary not found in PATH or at /var/run/host/usr/bin/podman'' [])))"

text \<open>Whether \<open>os.IsNotExist\<close> holds for the error of \<open>os.Stat\<close>.\<close>

definition stat_missing :: "'w sys \<Rightarrow> 'w \<Rightarrow> string \<Rightarrow> bool" where
  "stat_missing sys w p \<longleftrightarrow> os_stat sys w p = Inl NotExist"

text \<open>
  \<open>os.UserCacheDir\<close> and \<open>os.UserHomeDir\<close> of Go's standard library on Unix: the cache is
  \<open>$XDG_CACHE_HOME\<close>, which must be absolute, or \<open>$HOME/.cache\<close>.
\<close>

definition user_home_dir :: "'w sys \<Rightarrow> go_error + string" where
  "user_home_dir sys =
     (let home = getenv sys ''HOME''
      in if home \<noteq> [] then Inr home else Inl (ExtError ''$HOME is not defined''))"

definition user_cache_dir :: "'w sys \<Rightarrow> go_error + string" where
  "user_cache_dir sys =
     (let xdg = getenv sys ''XDG_CACHE_HOME''
      in if xdg = [] then
           (let home = getenv sys ''HOME''
            in if home = [] then Inl (ExtError ''neither $XDG_CACHE_HOME nor $HOME are defined'')
               else Inr (home @ ''/.cache''))
         else if is_rooted xdg then Inr xdg
         else Inl (ExtError ''path in $XDG_CACHE_HOME is relative''))"

section \<open>When is an image qcow2\<close>

lemma is_qcow2_image_readable:
  "os_open sys w path = Inr () \<Longrightarrow> io_read_full sys w path 4 = Inr magic \<Longrightarrow>
     is_qcow2_image sys w path \<longleftrightarrow> magic = qcow2_magic"
  by (simp add: is_qcow2_image_def has_qcow2_magic_def)

lemma is_qcow2_image_unreadable:
  "isl (os_open sys w path) \<or> isl (io_read_full sys w path 4) \<Longrightarrow>
     is_qcow2_image sys w path \<longleftrightarrow> equal_fold (path_ext path) ''.qcow2''"
  by (auto simp: is_qcow2_image_def has_qcow2_magic_def isl_iff split: sum.splits)

end
