(* ===== verification/GoMd5.thy ===== *)
theory GoMd5
  imports GoNumbers
begin

unbundle bit_operations_syntax

text \<open>
  The hash of Go's package \<open>crypto/md5\<close> (RFC 1321), from which \<open>vmUID\<close> makes the UID of a
  VM. Words are \<open>32 word\<close>s, so additions wrap around as the RFC asks.
\<close>

definition bytes_of :: "string \<Rightarrow> 8 word list" where
  "bytes_of s = map (\<lambda>c. word_of_nat (of_char c)) s"

definition md5_shifts :: "nat list" where
  "md5_shifts =
    [7, 12, 17, 22, 7, 12, 17, 22, 7, 12, 17, 22, 7, 12, 17, 22,
     5, 9, 14, 20, 5, 9, 14, 20, 5, 9, 14, 20, 5, 9, 14, 20,
     4, 11, 16, 23, 4, 11, 16, 23, 4, 11, 16, 23, 4, 11, 16, 23,
     6, 10, 15, 21, 6, 10, 15, 21, 6, 10, 15, 21, 6, 10, 15, 21]"

definition md5_consts :: "u32 list" where
  "md5_consts =
    [
     0xD76AA478, 0xE8C7B756, 0x242070DB, 0xC1BDCEEE,
     0xF57C0FAF, 0x4787C62A, 0xA8304613, 0xFD469501,
     0x698098D8, 0x8B44F7AF, 0xFFFF5BB1, 0x895CD7BE,
     0x6B901122, 0xFD987193, 0xA679438E, 0x49B40821,
     0xF61E2562, 0xC040B340, 0x265E5A51, 0xE9B6C7AA,
     0xD62F105D, 0x02441453, 0xD8A1E681, 0xE7D3FBC8,
     0x21E1CDE6, 0xC33707D6, 0xF4D50D87, 0x455A14ED,
     0xA9E3E905, 0xFCEFA3F8, 0x676F02D9, 0x8D2A4C8A,
     0xFFFA3942, 0x8771F681, 0x6D9D6122, 0xFDE5380C,
     0xA4BEEA44, 0x4BDECFA9, 0xF6BB4B60, 0xBEBFBC70,
     0x289B7EC6, 0xEAA127FA, 0xD4EF3085, 0x04881D05,
     0xD9D4D039, 0xE6DB99E5, 0x1FA27CF8, 0xC4AC5665,
     0xF4292244, 0x432AFF97, 0xAB9423A7, 0xFC93A039,
     0x655B59C3, 0x8F0CCC92, 0xFFEFF47D, 0x85845DD1,
     0x6FA87E4F, 0xFE2CE6E0, 0xA3014314, 0x4E0811A1,
     0xF7537E82, 0xBD3AF235, 0x2AD7D2BB, 0xEB86D391
    ]"

type_synonym md5_state = "u32 \<times> u32 \<times> u32 \<times> u32"

definition md5_init :: md5_state where
  "md5_init = (0x67452301, 0xEFCDAB89, 0x98BADCFE, 0x10325476)"

definition md5_mix :: "nat \<Rightarrow> u32 \<Rightarrow> u32 \<Rightarrow> u32 \<Rightarrow> u32" where
  "md5_mix i b c d =
     (if i < 16 then (b AND c) OR (NOT b AND d)
      else if i < 32 then (d AND b) OR (NOT d AND c)
      else if i < 48 then b XOR c XOR d
      else c XOR (b OR NOT d))"

definition md5_index :: "nat \<Rightarrow> nat" where
  "md5_index i =
     (if i < 16 then i else if i < 32 then (5 * i + 1) mod 16
      else if i < 48 then (3 * i + 5) mod 16 else (7 * i) mod 16)"

text \<open>One of the 64 steps on a block of 16 words; \<open>sh\<close> and \<open>k\<close> are its shift and constant.\<close>

definition md5_step :: "u32 list \<Rightarrow> nat \<times> nat \<times> u32 \<Rightarrow> md5_state \<Rightarrow> md5_state" where
  "md5_step m = (\<lambda>(i, sh, k) (a, b, c, d).
     (d, b + word_rotl sh (md5_mix i b c d + a + k + m ! md5_index i), b, c))"

definition md5_steps :: "(nat \<times> nat \<times> u32) list" where
  "md5_steps = zip [0..<64] (zip md5_shifts md5_consts)"

definition md5_block :: "u32 list \<Rightarrow> md5_state \<Rightarrow> md5_state" where
  "md5_block m = (\<lambda>(a0, b0, c0, d0).
     (case fold (md5_step m) md5_steps (a0, b0, c0, d0) of
        (a, b, c, d) \<Rightarrow> (a0 + a, b0 + b, c0 + c, d0 + d)))"

text \<open>The low \<open>k\<close> bytes of a word, the least significant first.\<close>

definition le_bytes :: "nat \<Rightarrow> 'a::len word \<Rightarrow> 8 word list" where
  "le_bytes k w = map (\<lambda>j. ucast (drop_bit (8 * j) w)) [0..<k]"

definition md5_pad :: "8 word list \<Rightarrow> 8 word list" where
  "md5_pad bs = bs @ [0x80] @ replicate ((119 - length bs mod 64) mod 64) 0
     @ le_bytes 8 (word_of_nat (8 * length bs) :: u64)"

fun le_words :: "8 word list \<Rightarrow> u32 list" where
  "le_words (b0 # b1 # b2 # b3 # bs) =
     (ucast b0 + push_bit 8 (ucast b1) + push_bit 16 (ucast b2) + push_bit 24 (ucast b3)) # le_words bs"
| "le_words _ = []"

definition md5_sum :: "8 word list \<Rightarrow> 8 word list" where
  "md5_sum bs =
     (let p = md5_pad bs
      in case fold (\<lambda>i. md5_block (le_words (take 64 (drop (64 * i) p)))) [0..<length p div 64] md5_init of
           (a, b, c, d) \<Rightarrow> concat (map (\<lambda>w. le_bytes 4 w) [a, b, c, d]))"

lemma length_le_bytes [simp]: "length (le_bytes k n) = k"
  by (simp add: le_bytes_def)

lemma length_md5_sum [simp]: "length (md5_sum bs) = 16"
  by (simp add: md5_sum_def Let_def split: prod.splits)

text \<open>The padded message fills whole blocks.\<close>

lemma md5_pad_blocks: "length (md5_pad bs) mod 64 = 0"
proof -
  define m where "m = length bs mod 64"
  have m: "m < 64" by (simp add: m_def)
  define q where "q = length bs div 64"
  have q: "length bs = 64 * q + m" by (simp add: m_def q_def)
  have r: "(119 - m) mod 64 = (if m < 56 then 55 - m else 119 - m)"
    using m by (auto simp: mod_if)
  have "length (md5_pad bs) = 64 * q + m + 1 + (119 - m) mod 64 + 8"
    by (simp add: md5_pad_def m_def q_def)
  also have "\<dots> = 64 * (if m < 56 then q + 1 else q + 2)"
    using m by (simp add: r)
  finally show ?thesis by simp
qed

end
