(* ===== verification/Converter.thy ===== *)
theory Converter
  imports UtilPkg GoMd5 "HOL-Library.AList"
begin

text \<open>
  \<open>pkg/converter/vmi.go\<close>: from a configuration to the VMI object that virt-launcher gets,
  with the host files to mount and the ports to publish.
\<close>

definition virt_launcher_disk_base :: string where
  "virt_launcher_disk_base = ''/var/run/kubevirt-private/vmi-disks''"

section \<open>UID\<close>

definition vm_uid_bytes :: "string \<Rightarrow> 8 word list" where
  "vm_uid_bytes name =
     (let h = md5_sum (bytes_of (''podvirt:'' @ name));
          h = h[6 := (h ! 6 AND 0x0f) OR 0x30]
      in h[8 := (h ! 8 AND 0x3f) OR 0x80])"

definition vm_uid :: "string \<Rightarrow> string" where
  "vm_uid name =
     (let h = vm_uid_bytes name
      in format_hex (take 4 h) @ ''-'' @ format_hex (take 2 (drop 4 h)) @ ''-''
         @ format_hex (take 2 (drop 6 h)) @ ''-'' @ format_hex (take 2 (drop 8 h)) @ ''-''
         @ format_hex (drop 10 h))"

section \<open>Cloud-init\<close>

definition effective_cloud_init_user :: "cloud_init_spec option \<Rightarrow> string" where
  "effective_cloud_init_user c =
     (case c of Some ci \<Rightarrow> if ci_user ci \<noteq> [] then ci_user ci else default_cloud_init_user
      | None \<Rightarrow> default_cloud_init_user)"

definition effective_cloud_init_password :: "cloud_init_spec option \<Rightarrow> string" where
  "effective_cloud_init_password c =
     (case c of Some ci \<Rightarrow> if ci_password ci \<noteq> [] then ci_password ci else default_cloud_init_password
      | None \<Rightarrow> default_cloud_init_password)"

definition cloud_config_of :: "cloud_init_spec \<Rightarrow> cloud_config" where
  "cloud_config_of ci =
     (let password = effective_cloud_init_password (Some ci);
          cu = \<lparr>cu_name = effective_cloud_init_user (Some ci), cu_ssh_authorized_keys = [],
                cu_plain_text_passwd = [], cu_lock_passwd = None, cu_sudo = []\<rparr>;
          cu = (if password \<noteq> [] then cu\<lparr>cu_plain_text_passwd := password, cu_lock_passwd := Some False,
                    cu_sudo := ''ALL=(ALL) ALL''\<rparr> else cu);
          cu = (if length (ci_ssh_keys ci) > 0 then cu\<lparr>cu_ssh_authorized_keys := ci_ssh_keys ci\<rparr> else cu)
      in \<lparr>cc_users = [cu], cc_ssh_pwauth = (password \<noteq> [])\<rparr>)"

definition build_user_data :: "(cloud_config \<Rightarrow> go_error + string) \<Rightarrow> cloud_init_spec \<Rightarrow> go_error + string" where
  "build_user_data marshal ci =
     (case marshal (cloud_config_of ci) of
        Inl e \<Rightarrow> Inl (Errorf ''marshalling cloud-init config: %w'' [FErr e])
      | Inr out \<Rightarrow> Inr (''#cloud-config\<newline>'' @ out))"

section \<open>Disks and volumes\<close>

definition container_disk_filename :: "'w sys \<Rightarrow> 'w \<Rightarrow> string \<Rightarrow> string" where
  "container_disk_filename sys w host_path =
     (let b = base host_path
      in if \<not> is_qcow2_image sys w host_path \<or> equal_fold (path_ext b) ''.qcow2'' then b
         else let e = path_ext b in if e = [] then b @ ''.qcow2'' else trim_suffix b e @ ''.qcow2'')"

text \<open>The path inside the container at which the image of a disk is mounted.\<close>

definition container_path :: "'w sys \<Rightarrow> 'w \<Rightarrow> disk_spec \<Rightarrow> string" where
  "container_path sys w d =
     join_path [virt_launcher_disk_base, disk_name d, container_disk_filename sys w (disk_image d)]"

definition empty_volume :: "string \<Rightarrow> vmi_volume" where
  "empty_volume n = \<lparr>vmiv_name = n, vmiv_host_disk = None, vmiv_container_disk = None, vmiv_cloud_init = None\<rparr>"

text \<open>The loop over the disks, with the three accumulators of the code.\<close>

fun add_disks ::
  "'w sys \<Rightarrow> 'w \<Rightarrow> disk_spec list \<Rightarrow> vmi_disk list \<times> vmi_volume list \<times> (string \<times> string) list \<Rightarrow>
     go_error + (vmi_disk list \<times> vmi_volume list \<times> (string \<times> string) list)" where
  "add_disks sys w [] acc = Inr acc"
| "add_disks sys w (d # ds) (disks, volumes, mounts) =
     (let bus = (if disk_bus d = [] then ''virtio'' else disk_bus d);
          disks = disks @ [\<lparr>vmid_name = disk_name d, vmid_bus = bus\<rparr>]
      in if disk_image d \<noteq> [] then
           (let cpath = container_path sys w d
            in add_disks sys w ds
                 (disks,
                  volumes @ [(empty_volume (disk_name d))\<lparr>vmiv_host_disk :=
                     Some \<lparr>hd_path = cpath, hd_type = ''DiskOrCreate'', hd_capacity = []\<rparr>\<rparr>],
                  AList.update (disk_image d) cpath mounts))
         else Inl (Errorf ''disk %q has no source'' [FStr (disk_name d)]))"

section \<open>Networks\<close>

definition vmi_port_of :: "'w sys \<Rightarrow> port_forward \<Rightarrow> vmi_port" where
  "vmi_port_of sys pf =
     (let proto = (if pf_protocol pf = [] then ''TCP'' else pf_protocol pf)
      in \<lparr>vmip_port = pf_vm_port pf, vmip_protocol = to_upper (uni_upper sys) proto\<rparr>)"

definition vmi_interface_of :: "'w sys \<Rightarrow> network_spec \<Rightarrow> vmi_interface" where
  "vmi_interface_of sys n =
     \<lparr>vmii_name = net_name n, vmii_binding = Some ''passt'', vmii_ports = map (vmi_port_of sys) (net_port_forwards n)\<rparr>"

definition vmi_network_of :: "network_spec \<Rightarrow> vmi_network" where
  "vmi_network_of n = \<lparr>vmin_name = net_name n, vmin_pod = Some ()\<rparr>"

section \<open>Firmware\<close>

definition boot_firmware :: "boot_spec option \<Rightarrow> vmi_firmware option" where
  "boot_firmware b =
     (case b of
        None \<Rightarrow> None
      | Some boot \<Rightarrow>
          if boot_kernel boot = [] \<and> boot_initrd boot = [] \<and> boot_cmdline boot = [] then None
          else Some \<lparr>vmif_bootloader = Some \<lparr>vmib_kernel = boot_kernel boot, vmib_initrd = boot_initrd boot,
                 vmib_cmdline = boot_cmdline boot\<rparr>\<rparr>)"

section \<open>The whole object\<close>

definition build_vmi ::
  "'w sys \<Rightarrow> 'w \<Rightarrow> virtual_machine \<Rightarrow>
     go_error + (vmi_object \<times> (string \<times> string) list \<times> port_forward list)" where
  "build_vmi sys w vm =
     (let sp = vm_spec vm;
          cpu = \<lparr>vmic_cores = cpu_cores (spec_cpu sp),
                 vmic_sockets = (if cpu_sockets (spec_cpu sp) > 0 then cpu_sockets (spec_cpu sp) else 0),
                 vmic_threads = (if cpu_threads (spec_cpu sp) > 0 then cpu_threads (spec_cpu sp) else 0)\<rparr>
      in case add_disks sys w (spec_disks sp) ([], [], []) of
           Inl e \<Rightarrow> Inl e
         | Inr (disks, volumes, mounts) \<Rightarrow>
           (case (case spec_cloud_init sp of
                    None \<Rightarrow> Inr (disks, volumes)
                  | Some ci \<Rightarrow>
                      (case build_user_data (yaml_marshal_cc sys) ci of
                         Inl e \<Rightarrow> Inl (Errorf ''building cloud-init user data: %w'' [FErr e])
                       | Inr user_data \<Rightarrow>
                           Inr (disks @ [\<lparr>vmid_name = ''cloudinitdisk'', vmid_bus = ''virtio''\<rparr>],
                                volumes @ [(empty_volume ''cloudinitdisk'')\<lparr>vmiv_cloud_init := Some user_data\<rparr>]))) of
              Inl e \<Rightarrow> Inl e
            | Inr (disks, volumes) \<Rightarrow>
                Inr (\<lparr>vmi_api_version = ''kubevirt.io/v1'',
                      vmi_kind = ''VirtualMachineInstance'',
                      vmi_meta = \<lparr>vmim_name = vm_name vm, vmim_namespace = ''default'', vmim_uid = vm_uid (vm_name vm),
                        vmim_annotations = [(''kubevirt.io/placePCIDevicesOnRootComplex'', ''true'')]\<rparr>,
                      vmi_spec_of = \<lparr>
                        vmis_domain = \<lparr>vmidom_cpu = cpu, vmidom_requests = [(''memory'', spec_memory sp)],
                          vmidom_devices = \<lparr>vmidev_disks = disks,
                             vmidev_interfaces = map (vmi_interface_of sys) (spec_networks sp),
                             vmidev_graphics = Some False\<rparr>,
                          vmidom_firmware = boot_firmware (spec_boot sp)\<rparr>,
                        vmis_volumes = volumes,
                        vmis_networks = map vmi_network_of (spec_networks sp)\<rparr>\<rparr>,
                     mounts,
                     concat (map net_port_forwards (spec_networks sp)))))"

definition to_vmi :: "'w sys \<Rightarrow> 'w \<Rightarrow> virtual_machine \<Rightarrow> go_error + vmi_result" where
  "to_vmi sys w vm =
     (case build_vmi sys w vm of
        Inl e \<Rightarrow> Inl e
      | Inr (vmi, mounts, port_forwards) \<Rightarrow>
          Inr \<lparr>res_vmi_json = render (vmi_object_json vmi),
               res_host_mounts = mounts,
               res_port_forwards = port_forwards,
               res_uid = vm_uid (vm_name vm),
               res_ssh_user = (case vm_cloud_init vm of None \<Rightarrow> [] | Some ci \<Rightarrow> effective_cloud_init_user (Some ci)),
               res_ssh_keys_configured =
                 (case vm_cloud_init vm of None \<Rightarrow> False | Some ci \<Rightarrow> length (ci_ssh_keys ci) > 0)\<rparr>)"

end
