(* ===== verification/PodmanPkg.thy ===== *)
theory PodmanPkg
  imports Converter
begin

text \<open>
  \<open>pkg/podman\<close>: the client, images, one-shot helper containers, the host files that a
  virt-launcher container needs, and the life cycle of VM containers. The connection
  context of the client carries no other state, so the operations take \<open>sys\<close> only.
\<close>

section \<open>Client and images (\<open>client.go\<close>, \<open>image.go\<close>)\<close>

definition podman_new :: "'w sys \<Rightarrow> ('w st, unit) act" where
  "podman_new sys =
     bindE (query (check_podman_socket sys)) (\<lambda>_.
     let socket_path = podman_socket_path sys
     in wrapE (\<lambda>e. Errorf ''connecting to Podman socket %q: %w'' [FStr socket_path, FErr e])
          (call PodConnect (pod_connect sys (''unix://'' @ socket_path))))"

definition image_exists_op :: "'w sys \<Rightarrow> string \<Rightarrow> ('w st, bool) act" where
  "image_exists_op sys img =
     wrapE (\<lambda>e. Errorf ''checking image %q: %w'' [FStr img, FErr e])
       (call (ImageExists img) (image_exists sys img))"

definition pull_image :: "'w sys \<Rightarrow> string \<Rightarrow> ('w st, unit) act" where
  "pull_image sys img =
     wrapE (\<lambda>e. Errorf ''pulling image %q: %w'' [FStr img, FErr e])
       (call (ImagePull img) (image_pull sys img))"

definition ensure_image :: "'w sys \<Rightarrow> string \<Rightarrow> ('w st, unit) act" where
  "ensure_image sys img =
     bindE (image_exists_op sys img) (\<lambda>exists.
     if exists then ok ()
     else bindE (say ''Pulling image %s ...\<newline>'' [FStr img]) (\<lambda>_. pull_image sys img))"

section \<open>One-shot containers (\<open>oneshot.go\<close>)\<close>

text \<open>
  The result of \<open>collectContainerLogs\<close>: what went to each stream, and the error of the
  log reader. That the goroutine, the two channels and the \<open>select\<close> loop of the code always
  end with this result is proved in \<open>LogPipe\<close>.
\<close>

definition out_text :: "log_line list \<Rightarrow> string" where
  "out_text ls = concat (map (\<lambda>l. case l of OutLine s \<Rightarrow> s | ErrLine _ \<Rightarrow> []) ls)"

definition err_text :: "log_line list \<Rightarrow> string" where
  "err_text ls = concat (map (\<lambda>l. case l of OutLine _ \<Rightarrow> [] | ErrLine s \<Rightarrow> s) ls)"

definition collect_container_logs ::
  "'w sys \<Rightarrow> string \<Rightarrow> ('w st, string \<times> string \<times> go_error option) act" where
  "collect_container_logs sys container_id =
     bindE (attempt (call (CtrLogs container_id) (ctr_logs sys container_id))) (\<lambda>r.
     case r of
       Inl e \<Rightarrow> ok ([], [], Some e)
     | Inr (ls, err) \<Rightarrow> ok (out_text ls, err_text ls, err))"

definition one_shot_spec :: "string \<Rightarrow> mount list \<Rightarrow> string list \<Rightarrow> string list \<Rightarrow> spec_generator" where
  "one_shot_spec img mounts entrypoint command =
     empty_spec_generator\<lparr>sg_entrypoint := entrypoint, sg_command := command, sg_terminal := Some False,
       sg_image := img, sg_mounts := mounts, sg_health_log := ''local''\<rparr>"

definition run_one_shot_container ::
  "'w sys \<Rightarrow> string \<Rightarrow> mount list \<Rightarrow> string list \<Rightarrow> string list \<Rightarrow>
     ('w st, string \<times> string \<times> go_error option) act" where
  "run_one_shot_container sys img mounts entrypoint command =
     (let s = one_shot_spec img mounts entrypoint command
      in bindE (attempt (call (CtrCreate s) (ctr_create sys s))) (\<lambda>r.
         case r of
           Inl e \<Rightarrow> ok ([], [], Some (Errorf ''creating helper container: %w'' [FErr e]))
         | Inr cid \<Rightarrow>
             deferE
               (bindE (attempt (call (CtrStart cid) (ctr_start sys cid))) (\<lambda>started.
                case started of
                  Inl e \<Rightarrow> ok ([], [], Some (Errorf ''starting helper container: %w'' [FErr e]))
                | Inr _ \<Rightarrow>
                    bindE (attempt (call (CtrWait cid) (ctr_wait sys cid))) (\<lambda>waited.
                    bindE (collect_container_logs sys cid) (\<lambda>(out, err, log_err).
                    case log_err of
                      Some e \<Rightarrow> ok (out, err, Some (Errorf ''reading helper container logs: %w'' [FErr e]))
                    | None \<Rightarrow>
                        (case waited of
                           Inl e \<Rightarrow> ok (out, err, Some (Errorf ''waiting for helper container: %w'' [FErr e]))
                         | Inr exit_code \<Rightarrow>
                             if exit_code \<noteq> 0
                             then ok (out, err, Some (Errorf ''helper container exited with status %d'' [FInt exit_code]))
                             else ok (out, err, None))))))
               (call (CtrRemove cid True) (ctr_remove sys cid True))))"

section \<open>Host files for the launcher (\<open>container.go\<close>)\<close>

definition qemu_conf :: string where
  "qemu_conf =
    ''# podvirt-managed qemu.conf\<newline>'' @
    ''# Base settings preserved from quay.io/kubevirt/virt-launcher:v1.9.1\<newline>'' @
    ''stdio_handler = \"logd\"\<newline>'' @ ''vnc_listen = \"0.0.0.0\"\<newline>'' @ ''vnc_tls = 0\<newline>'' @
    ''vnc_sasl = 0\<newline>'' @ ''namespaces = [ ]\<newline>'' @ ''cgroup_controllers = [ ]\<newline>'' @
    ''\<newline>'' @ ''user = \"root\"\<newline>'' @ ''group = \"root\"\<newline>'' @
    ''dynamic_ownership = 0\<newline>'' @ ''remember_owner = 0\<newline>''"

definition write_qemu_support :: "'w sys \<Rightarrow> ('w st, string \<times> string) act" where
  "write_qemu_support sys =
     bindE (wrapE (\<lambda>e. Errorf ''finding user cache dir: %w'' [FErr e]) (lift_res (user_cache_dir sys))) (\<lambda>cache_dir.
     let support_dir = join_path [cache_dir, ''podvirt'', ''qemu-support''];
         caps_dir = join_path [cache_dir, ''podvirt'', ''qemu-caps''];
         wrapper_path = join_path [support_dir, ''qemu-kvm-wrapper''];
         conf_path = join_path [support_dir, ''qemu.conf'']
     in bindE (wrapE (\<lambda>e. Errorf ''creating QEMU support dir: %w'' [FErr e])
              (call (MkdirAll support_dir) (os_mkdir_all sys support_dir))) (\<lambda>_.
        bindE (wrapE (\<lambda>e. Errorf ''creating QEMU capabilities cache dir: %w'' [FErr e])
              (call (MkdirAll caps_dir) (os_mkdir_all sys caps_dir))) (\<lambda>_.
        bindE (attempt (query (\<lambda>w. os_read_file sys w wrapper_path))) (\<lambda>existing.
        bindE (if existing \<noteq> Inr (qemu_wrapper sys)
               then wrapE (\<lambda>e. Errorf ''writing QEMU wrapper: %w'' [FErr e])
                 (call (WriteFile wrapper_path (qemu_wrapper sys)) (os_write_file sys wrapper_path (qemu_wrapper sys)))
               else ok ()) (\<lambda>_.
        bindE (wrapE (\<lambda>e. Errorf ''writing qemu.conf: %w'' [FErr e])
              (call (WriteFile conf_path qemu_conf) (os_write_file sys conf_path qemu_conf))) (\<lambda>_.
        ok (support_dir, caps_dir)))))))"

definition libvirt_logs_dir :: "'w sys \<Rightarrow> ('w st, string) act" where
  "libvirt_logs_dir sys =
     bindE (lift_res (user_cache_dir sys)) (\<lambda>cache_dir.
     let d = join_path [cache_dir, ''podvirt'', ''libvirt-logs'']
     in bindE (call (MkdirAll d) (os_mkdir_all sys d)) (\<lambda>_. ok d))"

text \<open>The loop over the archive: the first entry named \<open>qemu-kvm\<close> is written out.\<close>

definition write_qemu_binary ::
  "'w sys \<Rightarrow> string \<Rightarrow> string \<Rightarrow> string \<Rightarrow> go_error + string \<Rightarrow> ('w st, unit) act" where
  "write_qemu_binary sys real_path stamp_path launcher_image content =
     bindE (wrapE (\<lambda>e. Errorf ''creating qemu-kvm-real: %w'' [FErr e])
           (call (CreateFile real_path) (os_create sys real_path))) (\<lambda>_.
     bindE (attempt (call (CopyInto real_path) (io_copy sys real_path content))) (\<lambda>copied.
     case copied of
       Inl e \<Rightarrow>
         bindE (attempt (call (RemoveFile real_path) (os_remove sys real_path))) (\<lambda>_.
         fail (Errorf ''writing qemu-kvm-real: %w'' [FErr e]))
     | Inr _ \<Rightarrow>
         wrapE (\<lambda>e. Errorf ''writing qemu-kvm-real image stamp: %w'' [FErr e])
           (call (WriteFile stamp_path launcher_image) (os_write_file sys stamp_path launcher_image))))"

fun extract_qemu ::
  "'w sys \<Rightarrow> string \<Rightarrow> string \<Rightarrow> string \<Rightarrow> (string \<times> (go_error + string)) list \<Rightarrow> go_error option \<Rightarrow>
     ('w st, unit) act" where
  "extract_qemu sys real_path stamp_path launcher_image [] tend =
     (case tend of
        Some e \<Rightarrow> fail (Errorf ''reading QEMU binary archive: %w'' [FErr e])
      | None \<Rightarrow> fail (Errorf ''qemu-kvm not found in image %s'' [FStr launcher_image]))"
| "extract_qemu sys real_path stamp_path launcher_image ((name, content) # es) tend =
     (if base name = ''qemu-kvm''
      then write_qemu_binary sys real_path stamp_path launcher_image content
      else extract_qemu sys real_path stamp_path launcher_image es tend)"

definition clear_caps_cache :: "'w sys \<Rightarrow> ('w st, unit) act" where
  "clear_caps_cache sys =
     (case user_cache_dir sys of
        Inl _ \<Rightarrow> ok ()
      | Inr caps_dir \<Rightarrow>
          (let caps_cache_dir = join_path [caps_dir, ''podvirt'', ''qemu-caps'']
           in bindE (attempt (query (\<lambda>w. os_read_dir sys w caps_cache_dir))) (\<lambda>r.
              case r of
                Inl _ \<Rightarrow> ok ()
              | Inr names \<Rightarrow>
                  bindE (forE (filter (\<lambda>n. path_ext n = ''.xml'') names) (\<lambda>n.
                    let p = join_path [caps_cache_dir, n]
                    in attempt (call (RemoveFile p) (os_remove sys p)))) (\<lambda>_. ok ()))))"

definition temp_container_spec :: "string \<Rightarrow> spec_generator" where
  "temp_container_spec launcher_image =
     empty_spec_generator\<lparr>sg_command := [''true''], sg_image := launcher_image, sg_health_log := ''local''\<rparr>"

definition ensure_qemu_binary :: "'w sys \<Rightarrow> string \<Rightarrow> string \<Rightarrow> ('w st, unit) act" where
  "ensure_qemu_binary sys launcher_image support_dir =
     (let real_path = join_path [support_dir, ''qemu-kvm-real''];
          stamp_path = join_path [support_dir, ''qemu-kvm-real.image''];
          s = temp_container_spec launcher_image
      in bindE (attempt (query (\<lambda>w. os_read_file sys w stamp_path))) (\<lambda>stamp.
         bindE (attempt (query (\<lambda>w. os_stat sys w real_path))) (\<lambda>real.
         if stamp = Inr launcher_image \<and> real = Inr () then ok ()
         else
           bindE (attempt (call (RemoveFile real_path) (os_remove sys real_path))) (\<lambda>_.
           bindE (clear_caps_cache sys) (\<lambda>_.
           bindE (wrapE (\<lambda>e. Errorf ''creating temporary container to extract QEMU binary: %w'' [FErr e])
                 (call (CtrCreate s) (ctr_create sys s))) (\<lambda>cid.
           deferE
             (bindE (wrapE (\<lambda>e. Errorf ''copying QEMU binary from image: %w'' [FErr e])
                    (call (CtrCopy cid ''/usr/libexec/qemu-kvm'') (ctr_copy sys cid ''/usr/libexec/qemu-kvm''))) (\<lambda>ts.
              extract_qemu sys real_path stamp_path launcher_image (tar_entries ts) (tar_end ts)))
             (call (CtrRemove cid True) (ctr_remove sys cid True))))))))"

definition restore_runtime_support :: "'w sys \<Rightarrow> string \<Rightarrow> bool \<Rightarrow> ('w st, string \<times> string \<times> string) act" where
  "restore_runtime_support sys launcher_image include_logs =
     bindE (write_qemu_support sys) (\<lambda>(support_dir, caps_dir).
     bindE (libvirt_logs_dir sys) (\<lambda>_.
     bindE (if include_logs
            then bindE (attempt (libvirt_logs_dir sys)) (\<lambda>r. case r of
                   Inr d \<Rightarrow> ok d
                 | Inl _ \<Rightarrow> (case user_cache_dir sys of
                      Inl _ \<Rightarrow> ok [] | Inr c \<Rightarrow> ok (join_path [c, ''podvirt'', ''libvirt-logs''])))
            else ok []) (\<lambda>logs_dir.
     bindE (ensure_qemu_binary sys launcher_image support_dir) (\<lambda>_.
     ok (support_dir, caps_dir, logs_dir)))))"

section \<open>VM containers (\<open>container.go\<close>)\<close>

definition container_name :: "string \<Rightarrow> string" where
  "container_name vmname = container_prefix @ vmname"

definition bind_mount :: "string \<Rightarrow> string \<Rightarrow> string list \<Rightarrow> mount" where
  "bind_mount src dst opts = \<lparr>mnt_type = ''bind'', mnt_source = src, mnt_destination = dst, mnt_options = opts\<rparr>"

text \<open>
  \<open>host_mounts\<close> is the map in the order in which the \<open>range\<close> loop happens to visit it.
\<close>

definition build_mounts :: "(string \<times> string) list \<Rightarrow> string \<Rightarrow> string \<Rightarrow> string \<Rightarrow> mount list" where
  "build_mounts host_mounts qemu_support_dir caps_dir logs_dir =
     (let mounts =
        [\<lparr>mnt_type = ''tmpfs'', mnt_source = [], mnt_destination = ''/var/run/libvirt'',
          mnt_options = [''rw'', ''size=67108864'']\<rparr>,
         bind_mount qemu_support_dir ''/usr/local/lib/podvirt'' [''bind'', ''ro'', ''z''],
         bind_mount (join_path [qemu_support_dir, ''qemu.conf'']) ''/etc/libvirt/qemu.conf'' [''bind'', ''z''],
         bind_mount (join_path [qemu_support_dir, ''qemu-kvm-wrapper'']) ''/usr/libexec/qemu-kvm'' [''bind'', ''z''],
         bind_mount (join_path [qemu_support_dir, ''qemu-kvm-real'']) ''/usr/libexec/qemu-kvm-real'' [''bind'', ''ro'', ''z''],
         bind_mount caps_dir ''/var/cache/libvirt/qemu/capabilities'' [''bind'', ''z''],
         bind_mount logs_dir ''/var/log/libvirt/qemu'' [''bind'', ''z'']];
       mounts = (if logs_dir = [] then take (length mounts - 1) mounts else mounts)
      in mounts @ map (\<lambda>(host_path, container_path). bind_mount host_path container_path [''bind'', ''z'']) host_mounts)"

definition port_mapping_of :: "'w sys \<Rightarrow> port_forward \<Rightarrow> port_mapping" where
  "port_mapping_of sys pf =
     (let proto = (if pf_protocol pf = [] then ''tcp'' else pf_protocol pf)
      in \<lparr>pm_host_port = word_of_int (pf_host_port pf), pm_container_port = word_of_int (pf_vm_port pf),
          pm_protocol = to_lower (uni_lower sys) proto\<rparr>)"

definition build_port_mappings :: "'w sys \<Rightarrow> vmi_result \<Rightarrow> port_mapping list" where
  "build_port_mappings sys result = map (port_mapping_of sys) (res_port_forwards result)"

definition format_bool :: "bool \<Rightarrow> string" where
  "format_bool b = (if b then ''true'' else ''false'')"

definition vm_container_spec ::
  "'w sys \<Rightarrow> string \<Rightarrow> string \<Rightarrow> vmi_result \<Rightarrow> string \<times> string \<times> string \<Rightarrow> spec_generator" where
  "vm_container_spec sys vmname launcher_image result = (\<lambda>(qemu_support_dir, caps_dir, logs_dir).
     \<lparr>sg_name = container_name vmname,
      sg_env = [(''STANDALONE_VMI'', res_vmi_json result), (''PODVIRT_DEBUG'', getenv sys ''PODVIRT_DEBUG'')],
      sg_labels = [(''app'', ''podvirt''), (''podvirt/vm'', vmname), (''podvirt/ssh-user'', res_ssh_user result),
        (''podvirt/ssh-keys'', format_bool (res_ssh_keys_configured result))],
      sg_entrypoint = [],
      sg_command = [''--uid'', res_uid result, ''--name'', vmname, ''--namespace'', ''default''],
      sg_terminal = None,
      sg_sysctl = [(''net.ipv4.ip_unprivileged_port_start'', ''0''), (''net.ipv4.ping_group_range'', ''107 107'')],
      sg_image = launcher_image,
      sg_mounts = build_mounts (map_order sys (res_host_mounts result)) qemu_support_dir caps_dir logs_dir,
      sg_devices = [(''/dev/kvm'', ''c''), (''/dev/net/tun'', ''c'')],
      sg_privileged = Some True,
      sg_cap_add = [''NET_ADMIN'', ''SYS_ADMIN''],
      sg_cgroup_ns = ''host'',
      sg_health_log = ''local'',
      sg_port_mappings = build_port_mappings sys result\<rparr>)"

definition create_vm :: "'w sys \<Rightarrow> string \<Rightarrow> string \<Rightarrow> vmi_result \<Rightarrow> ('w st, string) act" where
  "create_vm sys vmname launcher_image result =
     bindE (wrapE (\<lambda>e. Errorf ''setting up runtime support for VM %q: %w'' [FStr vmname, FErr e])
           (restore_runtime_support sys launcher_image (getenv sys ''PODVIRT_DEBUG'' = ''1''))) (\<lambda>dirs.
     let s = vm_container_spec sys vmname launcher_image result dirs
     in wrapE (\<lambda>e. Errorf ''creating container for VM %q: %w'' [FStr vmname, FErr e])
          (call (CtrCreate s) (ctr_create sys s)))"

definition start_vm :: "'w sys \<Rightarrow> string \<Rightarrow> ('w st, unit) act" where
  "start_vm sys vmname =
     bindE (wrapE (\<lambda>e. Errorf ''inspecting VM %q before start: %w'' [FStr vmname, FErr e])
           (call (CtrInspect (container_name vmname)) (ctr_inspect_image sys (container_name vmname)))) (\<lambda>launcher_image.
     if launcher_image = [] then fail (Errorf ''inspecting VM %q before start: container image is empty'' [FStr vmname])
     else
       bindE (wrapE (\<lambda>e. Errorf ''restoring runtime support for VM %q: %w'' [FStr vmname, FErr e])
             (restore_runtime_support sys launcher_image False)) (\<lambda>_.
       wrapE (\<lambda>e. Errorf ''starting VM %q: %w'' [FStr vmname, FErr e])
         (call (CtrStart (container_name vmname)) (ctr_start sys (container_name vmname)))))"

definition stop_vm :: "'w sys \<Rightarrow> string \<Rightarrow> u64 \<Rightarrow> ('w st, unit) act" where
  "stop_vm sys vmname timeout_secs =
     wrapE (\<lambda>e. Errorf ''stopping VM %q: %w'' [FStr vmname, FErr e])
       (call (CtrStop (container_name vmname) timeout_secs) (ctr_stop sys (container_name vmname) timeout_secs))"

definition remove_vm :: "'w sys \<Rightarrow> string \<Rightarrow> bool \<Rightarrow> ('w st, unit) act" where
  "remove_vm sys vmname force =
     wrapE (\<lambda>e. Errorf ''removing VM %q: %w'' [FStr vmname, FErr e])
       (call (CtrRemove (container_name vmname) force) (ctr_remove sys (container_name vmname) force))"

record vm_info =
  vi_name :: string
  vi_container_id :: string
  vi_state :: string
  vi_image :: string
  vi_ssh_user :: string
  vi_ssh_keys_configured :: bool
  vi_port_mappings :: "port_mapping list"

definition vm_info_of :: "string \<Rightarrow> list_container \<Rightarrow> vm_info" where
  "vm_info_of name ct =
     \<lparr>vi_name = name, vi_container_id = lc_id ct, vi_state = lc_state ct, vi_image = lc_image ct,
      vi_ssh_user = label_of ct ''podvirt/ssh-user'',
      vi_ssh_keys_configured = (label_of ct ''podvirt/ssh-keys'' = ''true''),
      vi_port_mappings = lc_ports ct\<rparr>"

definition inspect_vm :: "'w sys \<Rightarrow> string \<Rightarrow> ('w st, vm_info) act" where
  "inspect_vm sys vmname =
     (let filters = [(''name'', container_name vmname)]
      in bindE (wrapE (\<lambda>e. Errorf ''inspecting VM %q: %w'' [FStr vmname, FErr e])
               (call (CtrList filters) (ctr_list sys filters))) (\<lambda>cs.
         case cs of
           [] \<Rightarrow> fail (Errorf ''VM %q not found'' [FStr vmname])
         | ct # _ \<Rightarrow> ok (vm_info_of vmname ct)))"

definition vm_name_from_container :: "string list \<Rightarrow> string" where
  "vm_name_from_container names =
     (case find (\<lambda>n. prefix container_prefix n) (map (\<lambda>n. trim_prefix n ''/'') names) of
        Some n \<Rightarrow> trim_prefix n container_prefix
      | None \<Rightarrow> join_with '','' names)"

definition list_vms :: "'w sys \<Rightarrow> ('w st, vm_info list) act" where
  "list_vms sys =
     (let filters = [(''label'', ''app=podvirt'')]
      in bindE (wrapE (\<lambda>e. Errorf ''listing VMs: %w'' [FErr e]) (call (CtrList filters) (ctr_list sys filters))) (\<lambda>cs.
         ok (map (\<lambda>c. vm_info_of (vm_name_from_container (lc_names c)) c) cs)))"

definition exists_vm :: "'w sys \<Rightarrow> string \<Rightarrow> ('w st, bool) act" where
  "exists_vm sys vmname =
     wrapE (\<lambda>e. Errorf ''checking VM %q: %w'' [FStr vmname, FErr e])
       (call (CtrExists (container_name vmname)) (ctr_exists sys (container_name vmname)))"

section \<open>Frames\<close>

text \<open>
  Every operation extends the log and the clock, and only \<open>create_vm\<close> creates a container
  that has a name; the helper containers are created without one.
\<close>

fun named_create :: "event \<Rightarrow> bool" where
  "named_create (CtrCreate s) = (sg_name s \<noteq> [])"
| "named_create _ = False"

lemma helper_spec_names [simp]:
  "sg_name (one_shot_spec img mounts entrypoint command) = []"
  "sg_name (temp_container_spec img) = []"
  by (simp_all add: one_shot_spec_def temp_container_spec_def empty_spec_generator_def)

lemma forward_podman_new [forward_intros]: "forward (podman_new sys)"
  unfolding podman_new_def Let_def by (intro forward_intros)

lemma forward_ensure_image [forward_intros]: "forward (ensure_image sys img)"
  unfolding ensure_image_def image_exists_op_def pull_image_def by (intro forward_intros)

lemma forward_collect_container_logs [forward_intros]: "forward (collect_container_logs sys cid)"
  unfolding collect_container_logs_def by (intro forward_intros)

lemma forward_run_one_shot_container [forward_intros]:
  "forward (run_one_shot_container sys img mounts entrypoint command)"
  unfolding run_one_shot_container_def Let_def by (intro forward_intros)

lemma forward_write_qemu_support [forward_intros]: "forward (write_qemu_support sys)"
  unfolding write_qemu_support_def Let_def by (intro forward_intros)

lemma forward_libvirt_logs_dir [forward_intros]: "forward (libvirt_logs_dir sys)"
  unfolding libvirt_logs_dir_def Let_def by (intro forward_intros)

lemma forward_write_qemu_binary [forward_intros]: "forward (write_qemu_binary sys rp sp img c)"
  unfolding write_qemu_binary_def by (intro forward_intros)

lemma forward_extract_qemu [forward_intros]: "forward (extract_qemu sys rp sp img es tend)"
  by (induction sys rp sp img es tend rule: extract_qemu.induct)
    (auto intro!: forward_intros split: option.splits)

lemma forward_clear_caps_cache [forward_intros]: "forward (clear_caps_cache sys)"
  unfolding clear_caps_cache_def Let_def by (intro forward_intros)

lemma forward_ensure_qemu_binary [forward_intros]: "forward (ensure_qemu_binary sys img d)"
  unfolding ensure_qemu_binary_def Let_def by (intro forward_intros)

lemma forward_restore_runtime_support [forward_intros]: "forward (restore_runtime_support sys img b)"
  unfolding restore_runtime_support_def by (intro forward_intros)

lemma forward_vm_operations [forward_intros]:
  "forward (create_vm sys vmname img result)" "forward (start_vm sys vmname)"
  "forward (stop_vm sys vmname t)" "forward (remove_vm sys vmname b)"
  "forward (inspect_vm sys vmname)" "forward (list_vms sys)" "forward (exists_vm sys vmname)"
  unfolding create_vm_def start_vm_def stop_vm_def remove_vm_def inspect_vm_def list_vms_def
    exists_vm_def Let_def
  by (intro forward_intros)+

lemma unnamed_run_one_shot_container [only_intros]:
  "only_events (\<lambda>e. \<not> named_create e) (run_one_shot_container sys img mounts entrypoint command)"
  unfolding run_one_shot_container_def collect_container_logs_def Let_def
  by (intro only_intros) simp_all

lemma unnamed_ensure_image [only_intros]: "only_events (\<lambda>e. \<not> named_create e) (ensure_image sys img)"
  unfolding ensure_image_def image_exists_op_def pull_image_def by (intro only_intros) simp_all

lemma unnamed_podman_new [only_intros]: "only_events (\<lambda>e. \<not> named_create e) (podman_new sys)"
  unfolding podman_new_def Let_def by (intro only_intros) simp_all

lemma unnamed_extract_qemu [only_intros]:
  "only_events (\<lambda>e. \<not> named_create e) (extract_qemu sys rp sp img es tend)"
  by (induction sys rp sp img es tend rule: extract_qemu.induct)
    (auto simp: write_qemu_binary_def intro!: only_intros split: option.splits)

lemma unnamed_ensure_qemu_binary [only_intros]:
  "only_events (\<lambda>e. \<not> named_create e) (ensure_qemu_binary sys img d)"
  unfolding ensure_qemu_binary_def clear_caps_cache_def Let_def by (intro only_intros) simp_all

lemma unnamed_restore_runtime_support [only_intros]:
  "only_events (\<lambda>e. \<not> named_create e) (restore_runtime_support sys img b)"
  unfolding restore_runtime_support_def write_qemu_support_def libvirt_logs_dir_def Let_def
  by (intro only_intros) simp_all

lemma unnamed_exists_vm [only_intros]: "only_events (\<lambda>e. \<not> named_create e) (exists_vm sys vmname)"
  unfolding exists_vm_def by (intro only_intros) simp_all

end
