(* ===== verification/LogPipe.thy ===== *)
theory LogPipe
  imports PodmanPkg
begin

text \<open>
  The concurrent heart of \<open>collectContainerLogs\<close> (\<open>pkg/podman/oneshot.go\<close>): a goroutine in
  which the log reader sends every line to one of two buffered channels, puts its error
  into \<open>done\<close> and closes the channels; and the main loop, a \<open>select\<close> that takes a line from
  whichever channel has one, and sets a channel variable to \<open>nil\<close> when it is found closed.
  Which of the two sides moves, and which ready case \<open>select\<close> takes, is not determined, so
  the steps are a relation.
\<close>

section \<open>States and steps\<close>

datatype phase = Sending | ReportErr | CloseOut | CloseErr | Finished

record pipe =
  pending :: "log_line list"
  phase_of :: phase
  out_ch :: "string list"
  err_ch :: "string list"
  out_closed :: bool
  err_closed :: bool
  done_ch :: "go_error option option"
  out_nil :: bool
  err_nil :: bool
  out_acc :: string
  err_acc :: string

definition chan_cap :: nat where
  "chan_cap = 128"

definition pipe_init :: "log_line list \<Rightarrow> pipe" where
  "pipe_init ls = \<lparr>pending = ls, phase_of = Sending, out_ch = [], err_ch = [], out_closed = False,
     err_closed = False, done_ch = None, out_nil = False, err_nil = False, out_acc = [], err_acc = []\<rparr>"

text \<open>\<open>e\<close> is the error that the log reader returns in the end.\<close>

inductive pipe_step :: "go_error option \<Rightarrow> pipe \<Rightarrow> pipe \<Rightarrow> bool" for e where
  send_out: "phase_of p = Sending \<Longrightarrow> pending p = OutLine l # ls \<Longrightarrow> length (out_ch p) < chan_cap \<Longrightarrow>
     pipe_step e p (p\<lparr>pending := ls, out_ch := out_ch p @ [l]\<rparr>)"
| send_err: "phase_of p = Sending \<Longrightarrow> pending p = ErrLine l # ls \<Longrightarrow> length (err_ch p) < chan_cap \<Longrightarrow>
     pipe_step e p (p\<lparr>pending := ls, err_ch := err_ch p @ [l]\<rparr>)"
| logs_return: "phase_of p = Sending \<Longrightarrow> pending p = [] \<Longrightarrow> pipe_step e p (p\<lparr>phase_of := ReportErr\<rparr>)"
| send_done: "phase_of p = ReportErr \<Longrightarrow> done_ch p = None \<Longrightarrow>
     pipe_step e p (p\<lparr>phase_of := CloseOut, done_ch := Some e\<rparr>)"
| close_out: "phase_of p = CloseOut \<Longrightarrow> pipe_step e p (p\<lparr>phase_of := CloseErr, out_closed := True\<rparr>)"
| close_err: "phase_of p = CloseErr \<Longrightarrow> pipe_step e p (p\<lparr>phase_of := Finished, err_closed := True\<rparr>)"
| recv_out: "\<not> out_nil p \<Longrightarrow> out_ch p = l # ls \<Longrightarrow>
     pipe_step e p (p\<lparr>out_ch := ls, out_acc := out_acc p @ l\<rparr>)"
| recv_err: "\<not> err_nil p \<Longrightarrow> err_ch p = l # ls \<Longrightarrow>
     pipe_step e p (p\<lparr>err_ch := ls, err_acc := err_acc p @ l\<rparr>)"
| nil_out: "\<not> out_nil p \<Longrightarrow> out_ch p = [] \<Longrightarrow> out_closed p \<Longrightarrow> pipe_step e p (p\<lparr>out_nil := True\<rparr>)"
| nil_err: "\<not> err_nil p \<Longrightarrow> err_ch p = [] \<Longrightarrow> err_closed p \<Longrightarrow> pipe_step e p (p\<lparr>err_nil := True\<rparr>)"

inductive_cases pipe_stepE: "pipe_step e p p'"

inductive pipe_reach :: "go_error option \<Rightarrow> log_line list \<Rightarrow> pipe \<Rightarrow> bool" for e ls where
  start: "pipe_reach e ls (pipe_init ls)"
| step: "pipe_reach e ls p \<Longrightarrow> pipe_step e p p' \<Longrightarrow> pipe_reach e ls p'"

text \<open>
  The main loop has ended when both channel variables are \<open>nil\<close>; the receive from \<open>done\<close>
  that follows then needs a value in it.
\<close>

definition loop_over :: "pipe \<Rightarrow> bool" where
  "loop_over p \<longleftrightarrow> out_nil p \<and> err_nil p"

text \<open>What \<open>collectContainerLogs\<close> returns from such a state.\<close>

definition pipe_result :: "pipe \<Rightarrow> (string \<times> string \<times> go_error option) option" where
  "pipe_result p = (if loop_over p then map_option (\<lambda>e. (out_acc p, err_acc p, e)) (done_ch p) else None)"

section \<open>The invariant\<close>

text \<open>
  Nothing is lost, duplicated or reordered within a stream; a channel is closed only after
  the error is in \<open>done\<close> and nothing is left to send; a variable is \<open>nil\<close> only when its
  channel is closed and drained.
\<close>

definition pipe_inv :: "go_error option \<Rightarrow> log_line list \<Rightarrow> pipe \<Rightarrow> bool" where
  "pipe_inv e ls p \<longleftrightarrow>
     out_acc p @ concat (out_ch p) @ out_text (pending p) = out_text ls
     \<and> err_acc p @ concat (err_ch p) @ err_text (pending p) = err_text ls
     \<and> length (out_ch p) \<le> chan_cap \<and> length (err_ch p) \<le> chan_cap
     \<and> (phase_of p \<noteq> Sending \<longrightarrow> pending p = [])
     \<and> done_ch p = (if phase_of p \<in> {Sending, ReportErr} then None else Some e)
     \<and> out_closed p = (phase_of p \<in> {CloseErr, Finished})
     \<and> err_closed p = (phase_of p = Finished)
     \<and> (out_nil p \<longrightarrow> out_closed p \<and> out_ch p = [])
     \<and> (err_nil p \<longrightarrow> err_closed p \<and> err_ch p = [])"

lemma text_simps [simp]:
  "out_text [] = []" "err_text [] = []"
  "out_text (OutLine l # ls) = l @ out_text ls" "out_text (ErrLine l # ls) = out_text ls"
  "err_text (OutLine l # ls) = err_text ls" "err_text (ErrLine l # ls) = l @ err_text ls"
  by (simp_all add: out_text_def err_text_def)

lemma pipe_inv_init: "pipe_inv e ls (pipe_init ls)"
  by (simp add: pipe_inv_def pipe_init_def)

lemma pipe_inv_step: "pipe_step e p p' \<Longrightarrow> pipe_inv e ls p \<Longrightarrow> pipe_inv e ls p'"
  by (erule pipe_step.cases) (auto simp: pipe_inv_def)

lemma pipe_reach_inv: "pipe_reach e ls p \<Longrightarrow> pipe_inv e ls p"
  by (induction rule: pipe_reach.induct) (auto intro: pipe_inv_init pipe_inv_step)

section \<open>Result, progress, termination\<close>

lemma pipe_inv_result:
  "pipe_inv e ls p \<Longrightarrow> loop_over p \<Longrightarrow> pipe_result p = Some (out_text ls, err_text ls, e)"
  by (auto simp: pipe_inv_def loop_over_def pipe_result_def split: if_splits)

text \<open>No deadlock: until the loop is over some step is possible, full channels included.\<close>

lemma pipe_progress:
  assumes "pipe_inv e ls p" and "\<not> loop_over p"
  shows "\<exists>p'. pipe_step e p p'"
proof (cases "out_ch p \<noteq> [] \<or> err_ch p \<noteq> []")
  case True
  then show ?thesis
  proof
    assume "out_ch p \<noteq> []"
    then obtain l r where "out_ch p = l # r" by (cases "out_ch p") auto
    moreover have "\<not> out_nil p" using assms(1) \<open>out_ch p \<noteq> []\<close> by (auto simp: pipe_inv_def)
    ultimately show ?thesis by (blast intro: pipe_step.recv_out)
  next
    assume "err_ch p \<noteq> []"
    then obtain l r where "err_ch p = l # r" by (cases "err_ch p") auto
    moreover have "\<not> err_nil p" using assms(1) \<open>err_ch p \<noteq> []\<close> by (auto simp: pipe_inv_def)
    ultimately show ?thesis by (blast intro: pipe_step.recv_err)
  qed
next
  case False
  then have empty: "out_ch p = []" "err_ch p = []" by auto
  show ?thesis
  proof (cases "phase_of p")
    case Sending
    show ?thesis
    proof (cases "pending p")
      case Nil
      then show ?thesis using Sending by (blast intro: pipe_step.logs_return)
    next
      case (Cons x xs)
      have "length (out_ch p) < chan_cap" "length (err_ch p) < chan_cap"
        using empty by (simp_all add: chan_cap_def)
      then show ?thesis
        using Sending Cons by (cases x) (blast intro: pipe_step.send_out pipe_step.send_err)+
    qed
  next
    case ReportErr
    then have "done_ch p = None" using assms(1) by (simp add: pipe_inv_def)
    then show ?thesis using ReportErr by (blast intro: pipe_step.send_done)
  next
    case CloseOut
    then show ?thesis by (blast intro: pipe_step.close_out)
  next
    case CloseErr
    then show ?thesis by (blast intro: pipe_step.close_err)
  next
    case Finished
    then have "out_closed p" "err_closed p" using assms(1) by (simp_all add: pipe_inv_def)
    then show ?thesis
      using assms(2) empty by (auto simp: loop_over_def intro: pipe_step.nil_out pipe_step.nil_err)
  qed
qed

text \<open>Every step makes this number smaller, so every run ends.\<close>

fun phase_left :: "phase \<Rightarrow> nat" where
  "phase_left Sending = 4"
| "phase_left ReportErr = 3"
| "phase_left CloseOut = 2"
| "phase_left CloseErr = 1"
| "phase_left Finished = 0"

definition pipe_left :: "pipe \<Rightarrow> nat" where
  "pipe_left p = 2 * length (pending p) + phase_left (phase_of p) + length (out_ch p) + length (err_ch p)
     + (if out_nil p then 0 else 1) + (if err_nil p then 0 else 1)"

lemma pipe_step_left: "pipe_step e p p' \<Longrightarrow> pipe_left p' < pipe_left p"
  by (erule pipe_step.cases) (auto simp: pipe_left_def)

lemma pipe_left_init: "pipe_left (pipe_init ls) = 2 * length ls + 6"
  by (simp add: pipe_left_def pipe_init_def)

section \<open>Properties\<close>

text \<open>
  C16: In every interleaving, when the main loop of the log collection is over, both channels
  were drained and the function returns at once with exactly the two streams, each in order,
  and the error of the reader: the same as the sequential reading in \<open>collect_container_logs\<close>.
  As long as the loop is not over some step can be taken, so the two sides never block each
  other, full channels included.
\<close>

theorem log_pipe_correct:
  assumes "pipe_reach e ls p"
  shows "if loop_over p
     then pipe_result p = Some (out_text ls, err_text ls, e)
       \<and> (\<forall>sys cid s dt w. ctr_logs sys cid (ext s) = (Inr (ls, e), dt, w) \<longrightarrow>
            fst (collect_container_logs sys cid s) = Inr (the (pipe_result p)))
     else \<exists>p'. pipe_step e p p'"
proof -
  have inv: "pipe_inv e ls p" using assms by (rule pipe_reach_inv)
  have c: "fst (collect_container_logs sys cid s) = Inr (out_text ls, err_text ls, e)"
    if "ctr_logs sys cid (ext s) = (Inr (ls, e), dt, w)" for sys cid s dt w
    using that by (simp add: collect_container_logs_def run_bindE run_attempt call_def)
  show ?thesis using pipe_inv_result [OF inv] pipe_progress [OF inv] c by auto
qed

theorem log_pipe_correct_witness:
  "\<exists>p'. pipe_step None (pipe_init [OutLine ''a'']) p'"
proof -
  have "\<not> loop_over (pipe_init [OutLine ''a''])" by (simp add: loop_over_def pipe_init_def)
  then show ?thesis using log_pipe_correct [OF pipe_reach.start [of None "[OutLine ''a'']"]] by simp
qed

text \<open>
  C22: The collection ends: whatever the interleaving, a run on \<open>n\<close> lines has at most \<open>2 n + 6\<close>
  steps.
\<close>

theorem log_pipe_terminates:
  assumes "(pipe_step e ^^ n) (pipe_init ls) p"
  shows "n + pipe_left p \<le> 2 * length ls + 6"
proof -
  have "n + pipe_left p \<le> pipe_left q" if "(pipe_step e ^^ n) q p" for n q
    using that
  proof (induction n arbitrary: q)
    case (Suc n)
    then obtain q' where "pipe_step e q q'" "(pipe_step e ^^ n) q' p" by (metis relpowp_Suc_D2)
    then show ?case using Suc.IH [of q'] pipe_step_left [of e q q'] by simp
  qed simp
  from this [OF assms] show ?thesis by (simp add: pipe_left_init)
qed

theorem log_pipe_terminates_witness:
  "\<exists>p. (pipe_step None ^^ 1) (pipe_init []) p \<and> 1 + pipe_left p \<le> 6"
proof -
  have "pipe_step None (pipe_init []) ((pipe_init [])\<lparr>phase_of := ReportErr\<rparr>)"
    by (rule pipe_step.logs_return) (simp_all add: pipe_init_def)
  then have "(pipe_step None ^^ 1) (pipe_init []) ((pipe_init [])\<lparr>phase_of := ReportErr\<rparr>)" by (simp only: relpowp_1)
  then show ?thesis using log_pipe_terminates by fastforce
qed

end
