(* ===== verification/LibvirtPkg.thy ===== *)
theory LibvirtPkg
  imports PodmanPkg
begin

text \<open>
  \<open>pkg/libvirt\<close>: \<open>virsh\<close> commands run inside the launcher container through Podman's exec
  API, and the parsers for what they print. A client is the name of its container.
\<close>

section \<open>Running virsh (\<open>client.go\<close>)\<close>

definition second :: int where
  "second = 1000000000"

definition virsh_timeout :: int where
  "virsh_timeout = 30 * second"

definition new_client :: "string \<Rightarrow> string" where
  "new_client vmname = container_prefix @ vmname"

text \<open>
  The context's deadline is counted from the start of the call; \<open>timeoutCtx.Err()\<close> is
  \<open>DeadlineExceeded\<close> from that moment on.
\<close>

definition virsh :: "'w sys \<Rightarrow> string \<Rightarrow> string list \<Rightarrow> ('w st, string) act" where
  "virsh sys client args =
     bindE now (\<lambda>start.
     bindE (wrapE (\<lambda>e. Errorf ''connecting to Podman: %w'' [FErr e])
           (call PodConnect (pod_connect sys (''unix://'' @ podman_socket_path sys)))) (\<lambda>_.
     let cmd_name = join_with '' '' args; cmd = ''virsh'' # args
     in bindE (wrapE (\<lambda>e. Errorf ''virsh %s: creating exec: %w'' [FStr cmd_name, FErr e])
              (call (ExecCreate client cmd) (exec_create sys client cmd))) (\<lambda>session_id.
        bindE (attempt (call (ExecAttach session_id) (exec_attach sys session_id))) (\<lambda>r.
        bindE now (\<lambda>t.
        let (out, err, failed) = (case r of Inl e \<Rightarrow> ([], [], Some e) | Inr x \<Rightarrow> x)
        in case failed of
             Some e \<Rightarrow>
               if start + virsh_timeout \<le> t
               then fail (Errorf ''virsh %s timed out after %s'' [FStr cmd_name, FInt virsh_timeout])
               else fail (Errorf ''virsh %s: %w\<newline>%s'' [FStr cmd_name, FErr e, FStr err])
           | None \<Rightarrow>
               if length err > 0 \<and> length out = 0
               then fail (Errorf ''virsh %s: %s'' [FStr cmd_name, FStr (trim_space err)])
               else ok (trim_space out))))))"

section \<open>Parsing (\<open>domain.go\<close>)\<close>

datatype domain_state = StateRunning | StatePaused | StateShutOff | StateShutting | StateCrashed | StateUnknown

fun state_string :: "domain_state \<Rightarrow> string" where
  "state_string StateRunning = ''running''"
| "state_string StatePaused = ''paused''"
| "state_string StateShutOff = ''shut off''"
| "state_string StateShutting = ''in shutdown''"
| "state_string StateCrashed = ''crashed''"
| "state_string StateUnknown = ''unknown''"

record domain_info =
  di_name :: string
  di_state :: domain_state
  di_cpus :: int
  di_max_mem_kib :: u64
  di_used_mem_kib :: u64

definition domain_name :: "string \<Rightarrow> string" where
  "domain_name vmname = ''default_'' @ vmname"

definition parse_domain_state :: "'w sys \<Rightarrow> string \<Rightarrow> domain_state" where
  "parse_domain_state sys raw =
     (let s = to_lower (uni_lower sys) (trim_space raw)
      in if s = ''running'' then StateRunning
         else if s = ''paused'' then StatePaused
         else if s = ''shut off'' then StateShutOff
         else if s = ''in shutdown'' then StateShutting
         else if s = ''crashed'' then StateCrashed
         else StateUnknown)"

definition parse_kib :: "string \<Rightarrow> u64" where
  "parse_kib s = (case GoStrings.fields s of [] \<Rightarrow> 0 | f # _ \<Rightarrow> uint_or_limit (parse_uint f))"

definition domain_info_line :: "'w sys \<Rightarrow> string \<Rightarrow> domain_info \<Rightarrow> domain_info" where
  "domain_info_line sys line info =
     (case cut CHR '':'' line of
        None \<Rightarrow> info
      | Some (k, v) \<Rightarrow>
          (let key = trim_space k; val = trim_space v
           in if key = ''State'' then info\<lparr>di_state := parse_domain_state sys val\<rparr>
              else if key = ''CPU(s)'' then (case atoi val of Some n \<Rightarrow> info\<lparr>di_cpus := n\<rparr> | None \<Rightarrow> info)
              else if key = ''Max memory'' then info\<lparr>di_max_mem_kib := parse_kib val\<rparr>
              else if key = ''Used memory'' then info\<lparr>di_used_mem_kib := parse_kib val\<rparr>
              else info))"

definition newline :: char where
  "newline = CHR 0x0A"

definition parse_domain_info :: "'w sys \<Rightarrow> string \<Rightarrow> string \<Rightarrow> domain_info" where
  "parse_domain_info sys vmname raw =
     fold (domain_info_line sys) (split_on newline raw)
       \<lparr>di_name = vmname, di_state = StateUnknown, di_cpus = 0, di_max_mem_kib = 0, di_used_mem_kib = 0\<rparr>"

section \<open>Domain operations (\<open>domain.go\<close>)\<close>

text \<open>\<open>GetState\<close> returns a state next to the error, too: \<open>StateUnknown\<close>.\<close>

definition get_state :: "'w sys \<Rightarrow> string \<Rightarrow> string \<Rightarrow> ('w st, domain_state \<times> go_error option) act" where
  "get_state sys client vmname =
     bindE (attempt (virsh sys client [''domstate'', domain_name vmname])) (\<lambda>r.
     case r of
       Inl e \<Rightarrow> ok (StateUnknown, Some (Errorf ''getting state for VM %q: %w'' [FStr vmname, FErr e]))
     | Inr out \<Rightarrow> ok (parse_domain_state sys out, None))"

definition get_info :: "'w sys \<Rightarrow> string \<Rightarrow> string \<Rightarrow> ('w st, domain_info) act" where
  "get_info sys client vmname =
     bindE (wrapE (\<lambda>e. Errorf ''getting info for VM %q: %w'' [FStr vmname, FErr e])
           (virsh sys client [''dominfo'', domain_name vmname])) (\<lambda>out.
     ok (parse_domain_info sys vmname out))"

definition shutdown :: "'w sys \<Rightarrow> string \<Rightarrow> string \<Rightarrow> ('w st, unit) act" where
  "shutdown sys client vmname =
     bindE (wrapE (\<lambda>e. Errorf ''shutting down VM %q: %w'' [FStr vmname, FErr e])
           (virsh sys client [''shutdown'', domain_name vmname])) (\<lambda>_. ok ())"

definition destroy :: "'w sys \<Rightarrow> string \<Rightarrow> string \<Rightarrow> ('w st, unit) act" where
  "destroy sys client vmname =
     bindE (wrapE (\<lambda>e. Errorf ''destroying VM %q: %w'' [FStr vmname, FErr e])
           (virsh sys client [''destroy'', domain_name vmname])) (\<lambda>_. ok ())"

definition list_domains :: "'w sys \<Rightarrow> string \<Rightarrow> ('w st, string list) act" where
  "list_domains sys client =
     bindE (wrapE (\<lambda>e. Errorf ''listing domains: %w'' [FErr e])
           (virsh sys client [''list'', ''--all'', ''--name''])) (\<lambda>out.
     ok (filter (\<lambda>n. n \<noteq> []) (map trim_space (split_on newline out))))"

section \<open>Frames\<close>

lemma forward_virsh [forward_intros]: "forward (virsh sys client args)"
  unfolding virsh_def Let_def by (intro forward_intros)

lemma forward_get_state [forward_intros]: "forward (get_state sys client vmname)"
  unfolding get_state_def by (intro forward_intros)

lemma forward_get_info [forward_intros]: "forward (get_info sys client vmname)"
  unfolding get_info_def by (intro forward_intros)

lemma forward_shutdown [forward_intros]: "forward (shutdown sys client vmname)"
  unfolding shutdown_def by (intro forward_intros)

lemma forward_destroy [forward_intros]: "forward (destroy sys client vmname)"
  unfolding destroy_def by (intro forward_intros)

text \<open>The events of one \<open>virsh\<close> command: connect, create the exec session, attach to it.\<close>

definition virsh_event :: "string \<Rightarrow> string list \<Rightarrow> event \<Rightarrow> bool" where
  "virsh_event client args e \<longleftrightarrow>
     (case e of PodConnect \<Rightarrow> True | ExecCreate c cmd \<Rightarrow> c = client \<and> cmd = ''virsh'' # args
      | ExecAttach _ \<Rightarrow> True | _ \<Rightarrow> False)"

lemma virsh_event_simps [simp]:
  "virsh_event client args PodConnect"
  "virsh_event client args (ExecCreate client (''virsh'' # args))"
  "virsh_event client args (ExecAttach sid)"
  by (simp_all add: virsh_event_def)

lemma only_virsh: "only_events (virsh_event client args) (virsh sys client args)"
  unfolding virsh_def Let_def by (intro only_intros virsh_event_simps)

text \<open>\<open>GetState\<close> never fails as an action: the error is part of its value.\<close>

lemma get_state_Inr:
  assumes "get_state sys client vmname s = (r, s')"
  obtains st e where "r = Inr (st, e)" and "e \<noteq> None \<Longrightarrow> st = StateUnknown"
  using assms
  by (auto simp: get_state_def run_bindE run_attempt split: prod.splits sum.splits)

end
