(* ===== verification/Sample.thy ===== *)
theory Sample
  imports Sys
begin

text \<open>
  A concrete world for the witnesses. Its state is the word that \<open>virsh domstate\<close> prints;
  \<open>shutdown\<close> and \<open>destroy\<close> set it to \<open>shut off\<close>. Every file exists, every file is a qcow2
  image, every operation succeeds and takes one nanosecond, and the user answers \<open>y\<close>.
\<close>

definition always :: "'a \<Rightarrow> ('w, 'a) op" where
  "always x w = (Inr x, 1, w)"

definition sample_container :: list_container where
  "sample_container = \<lparr>lc_id = ''0123456789abcdef'', lc_names = [''/podvirt-vm1''], lc_state = ''running'',
     lc_image = ''launcher'', lc_labels = [(''podvirt/ssh-user'', ''fedora''), (''podvirt/ssh-keys'', ''true'')],
     lc_ports = [\<lparr>pm_host_port = 2222, pm_container_port = 22, pm_protocol = ''tcp''\<rparr>]\<rparr>"

definition sample_sys :: "string sys" where
  "sample_sys =
     \<lparr>sys_env = (\<lambda>k. if k = ''HOME'' then Some ''/home/u'' else None),
      uni_lower = (\<lambda>s. s), uni_upper = (\<lambda>s. s), map_order = (\<lambda>xs. xs), qemu_wrapper = ''wrapper'',
      yaml_unmarshal_vm = (\<lambda>_. Inl (ExtError ''yaml'')),
      yaml_marshal_cc = (\<lambda>_. Inr ''users: []''),
      json_unmarshal_info = (\<lambda>_. Inr \<lparr>img_format = ''qcow2'', img_virtual_size = 1073741824\<rparr>),
      os_stat = (\<lambda>_ _. Inr ()), os_open = (\<lambda>_ _. Inr ()),
      io_read_full = (\<lambda>_ _ _. Inr [CHR ''Q'', CHR ''F'', CHR ''I'', CHR 0xFB]),
      os_read_file = (\<lambda>_ _. Inl NotExist), os_read_dir = (\<lambda>_ _. Inr []),
      look_path = (\<lambda>_ n. Inr (''/usr/bin/'' @ n)),
      os_mkdir_all = (\<lambda>_. always ()), os_write_file = (\<lambda>_ _. always ()), os_create = (\<lambda>_. always ()),
      io_copy = (\<lambda>_ _. always ()), os_remove = (\<lambda>_. always ()), os_remove_all = (\<lambda>_. always ()),
      os_rename = (\<lambda>_ _. always ()),
      exec_output = (\<lambda>_ _. always ''0123456789abcdef''),
      stdin_line = always (''y\<newline>'', None), sleep_more = (\<lambda>_. always ()),
      pod_connect = (\<lambda>_. always ()), ctr_exists = (\<lambda>_. always True),
      ctr_create = (\<lambda>_. always ''0123456789abcdef''), ctr_start = (\<lambda>_. always ()),
      ctr_stop = (\<lambda>_ _. always ()), ctr_remove = (\<lambda>_ _. always ()),
      ctr_inspect_image = (\<lambda>_. always ''launcher''),
      ctr_list = (\<lambda>_. always [sample_container]), ctr_wait = (\<lambda>_. always 0),
      ctr_logs = (\<lambda>_. always ([OutLine ''{}''], None)),
      ctr_copy = (\<lambda>_ _. always \<lparr>tar_entries = [(''qemu-kvm'', Inr ''elf'')], tar_end = None\<rparr>),
      image_exists = (\<lambda>_. always True), image_pull = (\<lambda>_. always ()),
      exec_create = (\<lambda>_ cmd w. (Inr ''session'', 1,
         if ''destroy'' \<in> set cmd \<or> ''shutdown'' \<in> set cmd then ''shut off'' else w)),
      exec_attach = (\<lambda>_ w. (Inr (w, [], None), 1, w))\<rparr>"

definition sample_disk :: "string \<Rightarrow> string \<Rightarrow> disk_spec" where
  "sample_disk name img =
     \<lparr>disk_name = name, disk_src = \<lparr>src_image = img, src_container_image = []\<rparr>, disk_size = [], disk_bus = []\<rparr>"

definition sample_vm :: "disk_spec list \<Rightarrow> virtual_machine" where
  "sample_vm ds =
     \<lparr>vm_api_version = ''podvirt.io/v1alpha1'', vm_kind = ''VirtualMachine'',
      vm_metadata = \<lparr>meta_name = ''vm1'', meta_labels = []\<rparr>,
      vm_spec = \<lparr>spec_cpu = \<lparr>cpu_cores = 2, cpu_sockets = 0, cpu_threads = 0\<rparr>, spec_memory = ''1Gi'',
        spec_disks = ds,
        spec_networks = [\<lparr>net_name = ''default'', net_type = ''masquerade'', net_port_forwards = []\<rparr>],
        spec_boot = None, spec_console = None, spec_cloud_init = None\<rparr>\<rparr>"

definition sample_st :: "string \<Rightarrow> string st" where
  "sample_st w = \<lparr>ext = w, clk = 0, log = []\<rparr>"

text \<open>The facts with which the simplifier runs an action on this world.\<close>

lemmas sample_run =
  sample_sys_def sample_st_def always_def run_bindE run_wrapE run_attempt run_deferE call_def query_def
  emit_def say_def warn_def now_def getenv_def Let_def

end
