(* ===== verification/CmdHelpers.thy ===== *)
theory CmdHelpers
  imports LibvirtPkg Sample
begin

text \<open>
  \<open>cmd/helpers.go\<close> and what the commands share: the client with its pre-flight checks, the
  confirmation prompt, and two contracts as locales. \<open>vm_command\<close> is that of a command on
  an existing VM (\<open>start\<close>, \<open>stop\<close>, \<open>delete\<close>, \<open>status\<close>, \<open>console\<close>); \<open>poll_loop\<close> is that of
  a loop that polls until a deadline (\<open>start --wait\<close> and \<open>stop --graceful\<close>).
\<close>

section \<open>Client and confirmation\<close>

definition new_podman_client :: "'w sys \<Rightarrow> ('w st, unit) act" where
  "new_podman_client sys =
     bindE (wrapE (\<lambda>e. Errorf ''pre-flight check failed:\<newline>%w'' [FErr e]) (query (check_kvm sys))) (\<lambda>_.
     podman_new sys)"

definition confirm_action :: "'w sys \<Rightarrow> string \<Rightarrow> fmt_arg list \<Rightarrow> ('w st, bool) act" where
  "confirm_action sys prompt args =
     bindE (say prompt args) (\<lambda>_.
     bindE (attempt (call ReadStdin (stdin_line sys))) (\<lambda>r.
     let (resp, err) = (case r of Inl e \<Rightarrow> ([], Some e) | Inr x \<Rightarrow> x)
     in case err of
          Some e \<Rightarrow>
            if e \<noteq> EOF then fail (Errorf ''reading confirmation: %w'' [FErr e])
            else ok (equal_fold (trim_space resp) ''y'')
        | None \<Rightarrow> ok (equal_fold (trim_space resp) ''y'')))"

text \<open>The slice \<open>id[:12]\<close> panics for an identifier of fewer than 12 bytes.\<close>

definition slice12 :: "string \<Rightarrow> ('s, string) act" where
  "slice12 cid = (if length cid < 12 then fail (GoPanic ''slice bounds out of range'') else ok (take 12 cid))"

text \<open>\<open>time.Duration(n) * time.Second\<close> for an \<open>int\<close>, in 64-bit arithmetic.\<close>

definition seconds :: "int \<Rightarrow> int" where
  "seconds n = sint (word_of_int (n * second) :: u64)"

definition poll_interval :: int where
  "poll_interval = 2 * second"

lemma seconds_exact:
  assumes "\<bar>n\<bar> \<le> 9000000000"
  shows "seconds n = n * second"
proof -
  have "- (2 ^ 63) \<le> n * second \<and> n * second < 2 ^ 63" using assms by (simp add: second_def abs_le_iff)
  then show ?thesis
    unfolding seconds_def sint_sbintrunc' by (intro signed_take_bit_int_eq_self) simp_all
qed

lemmas guard_run = new_podman_client_def podman_new_def check_kvm_def check_podman_socket_def exists_vm_def

section \<open>Frames\<close>

lemma forward_new_podman_client [forward_intros]: "forward (new_podman_client sys)"
  unfolding new_podman_client_def by (intro forward_intros)

lemma forward_confirm_action [forward_intros]: "forward (confirm_action sys prompt args)"
  unfolding confirm_action_def Let_def by (intro forward_intros)

lemma forward_slice12 [forward_intros]: "forward (slice12 cid)"
  unfolding slice12_def by (intro forward_intros)

lemma unnamed_new_podman_client [only_intros]: "only_events (\<lambda>e. \<not> named_create e) (new_podman_client sys)"
  unfolding new_podman_client_def podman_new_def Let_def by (intro only_intros) simp_all

lemma quiet_slice12 [only_intros]: "only_events P (slice12 cid)"
  unfolding slice12_def by (intro only_intros)

text \<open>The checks before a command leave only these events.\<close>

definition guard_event :: "string \<Rightarrow> event \<Rightarrow> bool" where
  "guard_event vmname e \<longleftrightarrow> e = PodConnect \<or> e = CtrExists (container_name vmname)"

lemma guard_event_quiet: "guard_event vmname e \<Longrightarrow> \<not> changes e"
  by (auto simp: guard_event_def)

lemma guard_trace:
  assumes "list_all (guard_event vmname) t" and "\<And>e. guard_event vmname e \<Longrightarrow> P e"
  shows "list_all P t"
  using assms by (rule list.pred_mono_strong)

definition vm_guard :: "'w sys \<Rightarrow> string \<Rightarrow> ('w st, bool) act" where
  "vm_guard sys vmname = bindE (new_podman_client sys) (\<lambda>_. exists_vm sys vmname)"

lemma forward_vm_guard [forward_intros]: "forward (vm_guard sys vmname)"
  unfolding vm_guard_def by (intro forward_intros)

lemma only_vm_guard: "only_events (guard_event vmname) (vm_guard sys vmname)"
  unfolding vm_guard_def new_podman_client_def podman_new_def exists_vm_def Let_def
  by (intro only_intros) (simp_all add: guard_event_def)

section \<open>Commands on an existing VM\<close>

locale vm_command =
  fixes sys :: "'w sys" and vmname :: string and not_found :: go_error
    and body :: "('w st, unit) act" and run :: "('w st, unit) act"
  assumes run_eq: "run = bindE (new_podman_client sys) (\<lambda>_.
      bindE (exists_vm sys vmname) (\<lambda>exists. if \<not> exists then fail not_found else body))"
begin

lemma run_guard: "run = bindE (vm_guard sys vmname) (\<lambda>exists. if \<not> exists then fail not_found else body)"
  by (simp add: run_eq vm_guard_def bindE_assoc)

lemma run_absent: "vm_guard sys vmname s = (Inr False, s') \<Longrightarrow> run s = (Inl not_found, s')"
  by (simp add: run_guard run_bindE)

lemma run_error: "vm_guard sys vmname s = (Inl e, s') \<Longrightarrow> run s = (Inl e, s')"
  by (simp add: run_guard run_bindE)

lemma run_present: "vm_guard sys vmname s = (Inr True, s') \<Longrightarrow> run s = body s'"
  by (simp add: run_guard run_bindE)

text \<open>Without a VM the command fails and changes nothing.\<close>

lemma untouched:
  assumes "fst (vm_guard sys vmname s) \<noteq> Inr True"
  shows "isl (fst (run s)) \<and> (\<exists>t. log (snd (run s)) = log s @ t \<and> list_all (\<lambda>e. \<not> changes e) t)"
proof -
  obtain r s' where g: "vm_guard sys vmname s = (r, s')" by fastforce
  obtain t where t: "log s' = log s @ t" "list_all (guard_event vmname) t"
    using only_eventsD [OF only_vm_guard g] by blast
  then have "list_all (\<lambda>e. \<not> changes e) t"
    by (metis guard_event_quiet list.pred_mono_strong)
  moreover have "run s = (case r of Inl e \<Rightarrow> Inl e | Inr _ \<Rightarrow> Inl not_found, s')"
    using assms g run_absent run_error by (cases r) auto
  ultimately show ?thesis using t by (cases r) auto
qed

text \<open>A command that succeeds has seen the VM.\<close>

lemma success_present:
  assumes "run s = (Inr u, s')"
  obtains s1 where "vm_guard sys vmname s = (Inr True, s1)" and "body s1 = (Inr u, s')"
  using assms unfolding run_guard by (auto elim!: bindE_Inr_E split: if_splits)

end

section \<open>Polling until a deadline\<close>

definition is_sleep :: "event \<Rightarrow> bool" where
  "is_sleep e \<longleftrightarrow> (\<exists>d. e = Sleep d)"

lemma is_sleep_simps [simp]:
  "is_sleep (Sleep d)" "\<not> is_sleep (Stdout f args)" "\<not> is_sleep (Stderr f args)"
  "\<not> is_sleep PodConnect" "\<not> is_sleep (ExecCreate c cmd)" "\<not> is_sleep (ExecAttach sid)"
  "\<not> is_sleep (CtrExists n)" "\<not> is_sleep (CtrStop n t)" "\<not> is_sleep (CtrStart n)"
  by (simp_all add: is_sleep_def)

text \<open>An action that sleeps at most \<open>n\<close> times, whatever the world does.\<close>

definition max_sleeps :: "nat \<Rightarrow> ('w st, 'a) act \<Rightarrow> bool" where
  "max_sleeps n m \<longleftrightarrow>
     (\<forall>s. \<exists>t. log (snd (m s)) = log s @ t \<and> length (filter is_sleep t) \<le> n)"

lemma max_sleeps_only: "only_events (\<lambda>e. \<not> is_sleep e) m \<Longrightarrow> max_sleeps n m"
  unfolding max_sleeps_def only_events_def list_all_iff
  by (metis (mono_tags, lifting) filter_False list.size(3) zero_le)

lemma max_sleeps_bindE:
  assumes "max_sleeps n m" and "\<And>x. max_sleeps k (f x)"
  shows "max_sleeps (n + k) (bindE m f)"
  unfolding max_sleeps_def
proof
  fix s
  obtain r s1 where m: "m s = (r, s1)" by fastforce
  then obtain t1 where t1: "log s1 = log s @ t1" "length (filter is_sleep t1) \<le> n"
    using assms(1) unfolding max_sleeps_def by (metis snd_conv)
  show "\<exists>t. log (snd (bindE m f s)) = log s @ t \<and> length (filter is_sleep t) \<le> n + k"
  proof (cases r)
    case (Inl e)
    then show ?thesis using m t1 by (auto simp: run_bindE)
  next
    case (Inr x)
    obtain t2 where "log (snd (f x s1)) = log s1 @ t2" "length (filter is_sleep t2) \<le> k"
      using assms(2) unfolding max_sleeps_def by blast
    then show ?thesis using m t1 Inr by (intro exI [of _ "t1 @ t2"]) (simp add: run_bindE)
  qed
qed

lemma sleep_clk: "clk s + d \<le> clk (snd (sleep sys d s))"
  by (auto simp: sleep_def call_def split: prod.splits)

lemma sleep_log: "log (snd (sleep sys d s)) = log s @ [Sleep d]"
  by (auto simp: sleep_def call_def split: prod.splits)

text \<open>
  The two loops of the code differ in what they ask and in what they take for an answer,
  \<open>verdict\<close>. The law is the loop's own recursion. The result is \<open>None\<close> when the deadline
  has passed.
\<close>

locale poll_loop =
  fixes sys :: "'w sys" and probe :: "('w st, 'a) act" and verdict :: "'a \<Rightarrow> 'b option"
    and loop :: "int \<Rightarrow> ('w st, 'b option) act"
  assumes loop_eq: "loop d s =
      (if clk s < d then
         (case probe s of
            (Inl e, s1) \<Rightarrow> (Inl e, s1)
          | (Inr x, s1) \<Rightarrow>
              (case verdict x of
                 Some y \<Rightarrow> (Inr (Some y), s1)
               | None \<Rightarrow> loop d (snd (sleep sys poll_interval s1))))
       else (Inr None, s))"
    and probe_forward: "forward probe"
    and probe_total: "\<not> isl (fst (probe s))"
    and probe_no_sleep: "only_events (\<lambda>e. \<not> is_sleep e) probe"
begin

text \<open>One turn of the loop, as a case rule for the proofs.\<close>

lemma loop_turn:
  obtains (over) "d \<le> clk s" and "loop d s = (Inr None, s)"
  | (found) x y s1 where "clk s < d" and "probe s = (Inr x, s1)" and "verdict x = Some y"
      and "loop d s = (Inr (Some y), s1)"
  | (again) x s1 s2 where "clk s < d" and "probe s = (Inr x, s1)" and "verdict x = None"
      and "s2 = snd (sleep sys poll_interval s1)" and "loop d s = loop d s2"
      and "clk s + poll_interval \<le> clk s2" and "extends s s2"
proof (cases "clk s < d")
  case False
  then show ?thesis using over by (simp add: loop_eq [of d s])
next
  case True
  obtain x s1 where p: "probe s = (Inr x, s1)"
    using probe_total [of s] by (metis isl_iff prod.exhaust_sel sum.exhaust)
  have e1: "extends s s1" using forward_extends [OF probe_forward p] .
  show ?thesis
  proof (cases "verdict x")
    case (Some y)
    then show ?thesis using found True p by (simp add: loop_eq [of d s])
  next
    case None
    let ?s2 = "snd (sleep sys poll_interval s1)"
    have "clk s1 + poll_interval \<le> clk ?s2" by (rule sleep_clk)
    moreover have "0 \<le> poll_interval" by (simp add: poll_interval_def second_def)
    ultimately have "clk s + poll_interval \<le> clk ?s2" "extends s1 ?s2"
      using e1 by (auto simp: extends_def sleep_log)
    then show ?thesis
      using again [of x s1 ?s2] True p None e1
      by (auto simp: loop_eq [of d s] intro: extends_trans)
  qed
qed

lemma loop_induct [case_names turn]:
  fixes P :: "'w st \<Rightarrow> bool" and s :: "'w st"
  assumes "\<And>s. (\<And>s2. clk s < d \<Longrightarrow> clk s + poll_interval \<le> clk s2 \<Longrightarrow> P s2) \<Longrightarrow> P s"
  shows "P s"
proof (induction "nat (d - clk s)" arbitrary: s rule: less_induct)
  case less
  show ?case
  proof (rule assms)
    fix s2 :: "'w st" assume "clk s < d" and "clk s + poll_interval \<le> clk s2"
    then have "nat (d - clk s2) < nat (d - clk s)" by (simp add: poll_interval_def second_def)
    then show "P s2" by (rule less)
  qed
qed

lemma loop_total: "\<exists>r s'. loop d s = (Inr r, s')"
proof (induction s rule: loop_induct [where d = d])
  case (turn s)
  show ?case by (cases rule: loop_turn [of d s]) (auto simp: turn)
qed

lemma loop_forward: "forward (loop d)"
  unfolding forward_def
proof
  fix s :: "'w st" show "extends s (snd (loop d s))"
  proof (induction s rule: loop_induct [where d = d])
    case (turn s)
    show ?case
    proof (cases rule: loop_turn [of d s])
      case over then show ?thesis by simp
    next
      case found then show ?thesis using forward_extends [OF probe_forward] by simp
    next
      case (again x s1 s2) then show ?thesis using turn [of s2] by (auto intro: extends_trans)
    qed
  qed
qed

text \<open>Giving up means that the deadline has passed.\<close>

lemma loop_timeout: "loop d s = (Inr None, s') \<Longrightarrow> d \<le> clk s'"
proof (induction s rule: loop_induct [where d = d])
  case (turn s)
  show ?case using turn.prems by (cases rule: loop_turn [of d s]) (auto dest: turn.IH)
qed

text \<open>An answer is that of the last probe, which was made before the deadline.\<close>

lemma loop_verdict:
  "loop d s = (Inr (Some y), s') \<Longrightarrow>
     \<exists>s0 x. extends s s0 \<and> clk s0 < d \<and> probe s0 = (Inr x, s') \<and> verdict x = Some y"
proof (induction s rule: loop_induct [where d = d])
  case (turn s)
  show ?case
  proof (cases rule: loop_turn [of d s])
    case over then show ?thesis using turn.prems by simp
  next
    case found then show ?thesis using turn.prems by auto
  next
    case (again x s1 s2)
    then show ?thesis using turn.IH [of s2] turn.prems by (metis extends_trans)
  qed
qed

lemma loop_only:
  assumes "only_events P probe" and "P (Sleep poll_interval)"
  shows "only_events P (loop d)"
  unfolding only_events_def
proof
  fix s show "\<exists>t. log (snd (loop d s)) = log s @ t \<and> list_all P t"
  proof (induction s rule: loop_induct [where d = d])
    case (turn s)
    show ?case
    proof (cases rule: loop_turn [of d s])
      case over then show ?thesis by simp
    next
      case found then show ?thesis using only_eventsD [OF assms(1)] by simp
    next
      case (again x s1 s2)
      then obtain t where "log s1 = log s @ t" "list_all P t"
        using only_eventsD [OF assms(1)] by blast
      moreover have "log s2 = log s1 @ [Sleep poll_interval]"
        using again by (simp add: sleep_log)
      ultimately show ?thesis using turn [of s2] again assms(2) by fastforce
    qed
  qed
qed

text \<open>The number of rounds is bounded by the time that was left at the start.\<close>

lemma loop_sleeps:
  "log (snd (loop d s)) = log s @ t \<Longrightarrow>
     int (length (filter is_sleep t)) * poll_interval < max 0 (d - clk s) + poll_interval"
proof (induction s arbitrary: t rule: loop_induct [where d = d])
  case (turn s)
  have pos: "0 < poll_interval" by (simp add: poll_interval_def second_def)
  show ?case
  proof (cases rule: loop_turn [of d s])
    case over then show ?thesis using turn.prems pos by simp
  next
    case (found x y s1)
    then have "list_all (\<lambda>e. \<not> is_sleep e) t"
      using only_eventsD [OF probe_no_sleep found(2)] turn.prems by auto
    then have "filter is_sleep t = []" by (auto simp: list_all_iff)
    then show ?thesis using pos by simp
  next
    case (again x s1 s2)
    obtain t1 where t1: "log s1 = log s @ t1" "list_all (\<lambda>e. \<not> is_sleep e) t1"
      using only_eventsD [OF probe_no_sleep again(2)] by blast
    obtain t2 where t2: "log (snd (loop d s2)) = log s2 @ t2"
      using forward_log [OF loop_forward, of d s2] by (metis prod.collapse)
    have "t = t1 @ [Sleep poll_interval] @ t2"
      using turn.prems again t1 t2 by (simp add: sleep_log)
    moreover have "filter is_sleep t1 = []" using t1 by (auto simp: list_all_iff)
    ultimately have n: "length (filter is_sleep t) = Suc (length (filter is_sleep t2))"
      by (auto simp: is_sleep_def)
    have ih: "int (length (filter is_sleep t2)) * poll_interval < max 0 (d - clk s2) + poll_interval"
      using turn.IH [of s2 t2] again t2 by simp
    show ?thesis
    proof (cases "clk s2 < d")
      case True
      then show ?thesis using ih n again pos by (simp add: algebra_simps)
    next
      case False
      then have "length (filter is_sleep t2) = 0" using ih pos
        by (simp add: mult_less_cancel_right1)
      then show ?thesis using n again pos by simp
    qed
  qed
qed

text \<open>The loop as the commands start it: \<open>c\<close> nanoseconds from now.\<close>

lemma timed_loop: "max_sleeps (nat ((max 0 c + poll_interval - 1) div poll_interval)) (bindE now (\<lambda>t. loop (t + c)))"
  unfolding max_sleeps_def
proof
  fix s :: "'w st"
  obtain t where t: "log (snd (loop (clk s + c) s)) = log s @ t"
    using forward_log [OF loop_forward] by (metis prod.collapse)
  have "int (length (filter is_sleep t)) * poll_interval < max 0 c + poll_interval"
    using loop_sleeps [OF t] by simp
  then have "int (length (filter is_sleep t)) \<le> (max 0 c + poll_interval - 1) div poll_interval"
    by (simp add: poll_interval_def second_def)
  then have "length (filter is_sleep t) \<le> nat ((max 0 c + poll_interval - 1) div poll_interval)"
    by linarith
  then show "\<exists>t. log (snd (bindE now (\<lambda>t. loop (t + c)) s)) = log s @ t
      \<and> length (filter is_sleep t) \<le> nat ((max 0 c + poll_interval - 1) div poll_interval)"
    using t by (auto simp: run_bindE now_def)
qed

end

end
