(* ===== verification/CmdStart.thy ===== *)
theory CmdStart
  imports CmdHelpers
begin

text \<open>
  \<open>cmd/start.go\<close>: starting a VM's container and, with \<open>--wait\<close>, polling the domain until it
  runs or the time is over.
\<close>

text \<open>The loop's \<open>return nil\<close> is the result \<open>Some ()\<close>; \<open>None\<close> is the deadline.\<close>

function start_wait_loop :: "'w sys \<Rightarrow> string \<Rightarrow> string \<Rightarrow> int \<Rightarrow> ('w st, unit option) act" where
  "start_wait_loop sys lv vmname deadline s =
     (if clk s < deadline then
        (case get_state sys lv vmname s of
           (Inl e, s1) \<Rightarrow> (Inl e, s1)
         | (Inr (state, err), s1) \<Rightarrow>
             if err = None \<and> state = StateRunning then (Inr (Some ()), s1)
             else start_wait_loop sys lv vmname deadline (snd (sleep sys poll_interval s1)))
      else (Inr None, s))"
  by pat_completeness auto

lemma poll_step:
  assumes "(r, s1) = get_state sys lv vmname s"
  shows "clk s < clk (snd (sleep sys poll_interval s1))"
proof -
  have "clk s \<le> clk s1" using forward_clk [OF forward_get_state assms [symmetric]] .
  moreover have "clk s1 + poll_interval \<le> clk (snd (sleep sys poll_interval s1))" by (rule sleep_clk)
  ultimately show ?thesis by (simp add: poll_interval_def second_def)
qed

termination start_wait_loop
  by (relation "measure (\<lambda>(sys, lv, vmname, deadline, s). nat (deadline - clk s))")
    (auto intro: poll_step)

declare start_wait_loop.simps [simp del]

text \<open>The part of the command that runs once the VM is known to exist.\<close>

definition start_body :: "'w sys \<Rightarrow> string \<Rightarrow> bool \<Rightarrow> int \<Rightarrow> ('w st, unit) act" where
  "start_body sys vmname wait wait_timeout =
     bindE (say ''Starting VM %q...\<newline>'' [FStr vmname]) (\<lambda>_.
     bindE (start_vm sys vmname) (\<lambda>_.
     if \<not> wait
     then say ''VM %q started. Check status with: podvirt status %s\<newline>'' [FStr vmname, FStr vmname]
     else
       bindE (say ''Waiting for VM %q to reach running state (timeout: %ds)...\<newline>''
               [FStr vmname, FInt wait_timeout]) (\<lambda>_.
       bindE now (\<lambda>t.
       bindE (start_wait_loop sys (new_client vmname) vmname (t + seconds wait_timeout)) (\<lambda>running.
       case running of
         Some _ \<Rightarrow> say ''VM %q is running.\<newline>'' [FStr vmname]
       | None \<Rightarrow> fail (Errorf ''VM %q did not reach running state within %ds''
           [FStr vmname, FInt wait_timeout]))))))"

definition run_start :: "'w sys \<Rightarrow> string \<Rightarrow> bool \<Rightarrow> int \<Rightarrow> ('w st, unit) act" where
  "run_start sys vmname wait wait_timeout =
     bindE (new_podman_client sys) (\<lambda>_.
     bindE (exists_vm sys vmname) (\<lambda>exists.
     if \<not> exists then fail (Errorf ''VM %q not found (create it first with 'podvirt create')'' [FStr vmname])
     else start_body sys vmname wait wait_timeout))"

section \<open>The loop as a polling loop\<close>

definition running_verdict :: "domain_state \<times> go_error option \<Rightarrow> unit option" where
  "running_verdict r = (if snd r = None \<and> fst r = StateRunning then Some () else None)"

lemma get_state_total: "\<not> isl (fst (get_state sys lv vmname s))"
  by (auto simp: get_state_def run_bindE run_attempt split: prod.splits sum.splits)

lemma get_state_no_sleep: "only_events (\<lambda>e. \<not> is_sleep e) (get_state sys lv vmname)"
  unfolding get_state_def virsh_def Let_def by (intro only_intros) (simp_all add: is_sleep_def)

interpretation start_poll:
  poll_loop sys "get_state sys lv vmname" running_verdict "start_wait_loop sys lv vmname"
  for sys lv vmname
proof unfold_locales
  fix d s
  show "start_wait_loop sys lv vmname d s =
      (if clk s < d then
         (case get_state sys lv vmname s of
            (Inl e, s1) \<Rightarrow> (Inl e, s1)
          | (Inr x, s1) \<Rightarrow>
              (case running_verdict x of
                 Some y \<Rightarrow> (Inr (Some y), s1)
               | None \<Rightarrow> start_wait_loop sys lv vmname d (snd (sleep sys poll_interval s1))))
       else (Inr None, s))"
    by (subst start_wait_loop.simps)
      (auto simp: running_verdict_def split: prod.splits sum.splits)
qed (intro forward_get_state get_state_total get_state_no_sleep)+

lemma forward_start_wait_loop [forward_intros]: "forward (start_wait_loop sys lv vmname d)"
  by (rule start_poll.loop_forward)

lemma forward_run_start [forward_intros]: "forward (run_start sys vmname wait t)"
  unfolding run_start_def start_body_def by (intro forward_intros)

section \<open>The command\<close>

interpretation start: vm_command sys vmname
  "Errorf ''VM %q not found (create it first with 'podvirt create')'' [FStr vmname]"
  "start_body sys vmname wait t" "run_start sys vmname wait t"
  for sys vmname wait t
  by unfold_locales (simp add: run_start_def)

text \<open>A successful \<open>start --wait\<close> has seen the domain running before the deadline.\<close>

lemma start_body_running:
  assumes "start_body sys vmname True wt s = (Inr u, s')"
  shows "\<exists>sb s0 s1. start_vm sys vmname (snd (say ''Starting VM %q...\<newline>'' [FStr vmname] s)) = (Inr (), sb)
           \<and> extends sb s0 \<and> get_state sys (new_client vmname) vmname s0 = (Inr (StateRunning, None), s1)
           \<and> log s' = log s1 @ [Stdout ''VM %q is running.\<newline>'' [FStr vmname]] \<and> ext s' = ext s1"
proof -
  obtain sa sb sc v sd where
    a: "say ''Starting VM %q...\<newline>'' [FStr vmname] s = (Inr (), sa)" and
    b: "start_vm sys vmname sa = (Inr (), sb)" and
    c: "say ''Waiting for VM %q to reach running state (timeout: %ds)...\<newline>'' [FStr vmname, FInt wt] sb
        = (Inr (), sc)" and
    d: "start_wait_loop sys (new_client vmname) vmname (clk sc + seconds wt) sc = (Inr v, sd)" and
    e: "(case v of Some _ \<Rightarrow> say ''VM %q is running.\<newline>'' [FStr vmname]
       | None \<Rightarrow> fail (Errorf ''VM %q did not reach running state within %ds'' [FStr vmname, FInt wt])) sd
        = (Inr u, s')"
    using assms by (auto simp: start_body_def now_def elim!: bindE_Inr_E)
  obtain y where v: "v = Some y" using e by (cases v) auto
  obtain s0 x where s0: "extends sc s0" "get_state sys (new_client vmname) vmname s0 = (Inr x, sd)"
      "running_verdict x = Some y"
    using start_poll.loop_verdict [OF d [unfolded v]] by blast
  have "x = (StateRunning, None)" using s0(3) by (cases x) (auto simp: running_verdict_def split: if_splits)
  moreover have "log s' = log sd @ [Stdout ''VM %q is running.\<newline>'' [FStr vmname]]" "ext s' = ext sd"
    using e v by (auto simp: say_def emit_def)
  moreover have "start_vm sys vmname (snd (say ''Starting VM %q...\<newline>'' [FStr vmname] s)) = (Inr (), sb)"
    using a b by simp
  moreover have "extends sb s0" using forward_extends [OF forward_say c] s0(1) by (rule extends_trans)
  ultimately show ?thesis using s0(2) by blast
qed

section \<open>Properties\<close>

text \<open>
  C21: The wait of \<open>start --wait\<close> always ends without an error of its own. It ends with success
  exactly on a probe, made before the deadline, that finds the domain running, and it gives up
  only when the deadline has passed.
\<close>

theorem start_wait_outcome:
  "\<exists>r s'. start_wait_loop sys lv vmname deadline s = (Inr r, s') \<and> extends s s'
     \<and> (case r of None \<Rightarrow> deadline \<le> clk s'
        | Some _ \<Rightarrow> \<exists>s0. extends s s0 \<and> clk s0 < deadline
            \<and> get_state sys lv vmname s0 = (Inr (StateRunning, None), s'))"
proof -
  obtain r s' where r: "start_wait_loop sys lv vmname deadline s = (Inr r, s')"
    using start_poll.loop_total by blast
  have "extends s s'" using forward_extends [OF start_poll.loop_forward r] .
  moreover have "case r of None \<Rightarrow> deadline \<le> clk s'
        | Some _ \<Rightarrow> \<exists>s0. extends s s0 \<and> clk s0 < deadline
            \<and> get_state sys lv vmname s0 = (Inr (StateRunning, None), s')"
  proof (cases r)
    case None
    then show ?thesis using start_poll.loop_timeout r by simp
  next
    case (Some y)
    obtain s0 x where "extends s s0" "clk s0 < deadline" "get_state sys lv vmname s0 = (Inr x, s')"
      "running_verdict x = Some y"
      using start_poll.loop_verdict r Some by blast
    moreover from this(4) have "x = (StateRunning, None)"
      by (cases x) (auto simp: running_verdict_def split: if_splits)
    ultimately show ?thesis using Some by auto
  qed
  ultimately show ?thesis using r by blast
qed

text \<open>
  C23: A successful \<open>podvirt start --wait\<close> has started the VM's container, found by the checks before,
  and after that has seen the domain running; nothing but the final message follows.
\<close>

theorem start_success_running:
  assumes "run_start sys vmname True wt s = (Inr u, s')"
  shows "\<exists>sg sb s0 s1. vm_guard sys vmname s = (Inr True, sg)
           \<and> start_vm sys vmname (snd (say ''Starting VM %q...\<newline>'' [FStr vmname] sg)) = (Inr (), sb)
           \<and> extends sb s0 \<and> get_state sys (new_client vmname) vmname s0 = (Inr (StateRunning, None), s1)
           \<and> log s' = log s1 @ [Stdout ''VM %q is running.\<newline>'' [FStr vmname]] \<and> ext s' = ext s1"
proof -
  obtain s1 where g: "vm_guard sys vmname s = (Inr True, s1)"
    and b: "start_body sys vmname True wt s1 = (Inr u, s')"
    using assms by (rule start.success_present)
  then show ?thesis using start_body_running [OF b] by blast
qed

lemma sample_probe:
  "get_state sample_sys lv vmname s = (Inr (parse_domain_state sample_sys (trim_space (ext s)), None),
    s\<lparr>clk := clk s + 3, log := log s @ [PodConnect, ExecCreate lv [''virsh'', ''domstate'', domain_name vmname], ExecAttach ''session'']\<rparr>)"
  by (simp add: get_state_def virsh_def domain_name_def sample_run)

lemma sample_running: "parse_domain_state sample_sys (trim_space ''running'') = StateRunning"
proof -
  have t: "trim_space ''running'' = ''running''" by code_simp
  show ?thesis unfolding t parse_domain_state_def Let_def t by (simp add: to_lower_def is_ascii_def ascii_lower_def)
qed

lemma sample_wait:
  "ext s = ''running'' \<Longrightarrow> clk s < d \<Longrightarrow> \<exists>s'. start_wait_loop sample_sys lv vmname d s = (Inr (Some ()), s')"
  by (subst start_wait_loop.simps) (simp add: sample_probe sample_running)

lemma sample_start_vm: "\<exists>s1. start_vm sample_sys vmname s = (Inr (), s1) \<and> ext s1 = ext s"
  by (simp add: sample_run start_vm_def restore_runtime_support_def write_qemu_support_def libvirt_logs_dir_def
      ensure_qemu_binary_def clear_caps_cache_def user_cache_dir_def write_qemu_binary_def base_def)

theorem start_success_running_witness:
  "\<exists>s' (s0 :: string st) s1. run_start sample_sys ''vm1'' True 10 (sample_st ''running'') = (Inr (), s')
     \<and> get_state sample_sys (new_client ''vm1'') ''vm1'' s0 = (Inr (StateRunning, None), s1)"
proof -
  let ?s = "snd (vm_guard sample_sys ''vm1'' (sample_st ''running''))"
  have g: "vm_guard sample_sys ''vm1'' (sample_st ''running'') = (Inr True, ?s)" "ext ?s = ''running''"
    by (simp_all add: vm_guard_def guard_run sample_run)
  let ?s1 = "?s\<lparr>log := log ?s @ [Stdout ''Starting VM %q...\<newline>'' [FStr ''vm1'']]\<rparr>"
  obtain s2 where v: "start_vm sample_sys ''vm1'' ?s1 = (Inr (), s2)" "ext s2 = ''running''"
    using sample_start_vm [of "''vm1''" ?s1] g by auto
  let ?s3 = "s2\<lparr>log := log s2 @ [Stdout ''Waiting for VM %q to reach running state (timeout: %ds)...\<newline>''
      [FStr ''vm1'', FInt 10]]\<rparr>"
  have "clk ?s3 < clk ?s3 + seconds 10" by (simp add: seconds_exact second_def)
  then obtain s4 where w: "start_wait_loop sample_sys (new_client ''vm1'') ''vm1'' (clk ?s3 + seconds 10) ?s3 = (Inr (Some ()), s4)"
    using sample_wait [of ?s3 "clk ?s3 + seconds 10" "new_client ''vm1''" "''vm1''"] v by auto
  have "\<exists>s'. start_body sample_sys ''vm1'' True 10 ?s = (Inr (), s')"
    using v w by (simp add: start_body_def run_bindE say_def emit_def now_def)
  then obtain s' where r: "run_start sample_sys ''vm1'' True 10 (sample_st ''running'') = (Inr (), s')"
    using start.run_present [OF g(1)] by auto
  show ?thesis using start_success_running [OF r] r by blast
qed

end
