(* ===== verification/CmdStop.thy ===== *)
theory CmdStop
  imports CmdStart
begin

text \<open>
  \<open>cmd/stop.go\<close>: a graceful shutdown with a deadline, the forced one, and the stop of the
  container.
\<close>

text \<open>The loop ends by \<open>break\<close> with the result \<open>Some ()\<close> and at the deadline with \<open>None\<close>.\<close>

function stop_poll_loop :: "'w sys \<Rightarrow> string \<Rightarrow> string \<Rightarrow> int \<Rightarrow> ('w st, unit option) act" where
  "stop_poll_loop sys lv vmname deadline s =
     (if clk s < deadline then
        (case get_state sys lv vmname s of
           (Inl e, s1) \<Rightarrow> (Inl e, s1)
         | (Inr (state, err), s1) \<Rightarrow>
             if err \<noteq> None \<or> state = StateShutOff then (Inr (Some ()), s1)
             else stop_poll_loop sys lv vmname deadline (snd (sleep sys poll_interval s1)))
      else (Inr None, s))"
  by pat_completeness auto

termination stop_poll_loop
  by (relation "measure (\<lambda>(sys, lv, vmname, deadline, s). nat (deadline - clk s))")
    (auto intro: poll_step)

declare stop_poll_loop.simps [simp del]

text \<open>The first half of the command: the value of \<open>force\<close> after it.\<close>

definition stop_gracefully :: "'w sys \<Rightarrow> string \<Rightarrow> bool \<Rightarrow> bool \<Rightarrow> int \<Rightarrow> ('w st, bool) act" where
  "stop_gracefully sys vmname force graceful timeout =
     (let lv = new_client vmname
      in if graceful \<and> \<not> force
         then
           bindE (say ''Sending shutdown signal to VM %q...\<newline>'' [FStr vmname]) (\<lambda>_.
           bindE (attempt (shutdown sys lv vmname)) (\<lambda>r.
           case r of
             Inl e \<Rightarrow>
               bindE (say ''Graceful shutdown unavailable (%v), falling back to force stop.\<newline>'' [FErr e]) (\<lambda>_.
               ok True)
           | Inr _ \<Rightarrow>
               bindE (bindE now (\<lambda>t. stop_poll_loop sys lv vmname (t + seconds timeout))) (\<lambda>_.
               bindE (get_state sys lv vmname) (\<lambda>(state, _).
               if state \<noteq> StateShutOff
               then bindE (say ''VM did not shut down within %ds, forcing stop.\<newline>'' [FInt timeout]) (\<lambda>_. ok True)
               else ok force))))
         else ok True)"

text \<open>The second half: the time that Podman is given to stop the container.\<close>

definition stop_forced :: "'w sys \<Rightarrow> string \<Rightarrow> bool \<Rightarrow> u64 \<Rightarrow> ('w st, u64) act" where
  "stop_forced sys vmname force stop_timeout =
     (if force
      then
        bindE (say ''Force-stopping VM %q...\<newline>'' [FStr vmname]) (\<lambda>_.
        bindE (attempt (destroy sys (new_client vmname) vmname)) (\<lambda>r.
        case r of
          Inl e \<Rightarrow>
            bindE (warn ''Warning: force-stopping libvirt domain for %q failed: %v\<newline>'' [FStr vmname, FErr e]) (\<lambda>_.
            ok stop_timeout)
        | Inr _ \<Rightarrow> ok 0))
      else ok stop_timeout)"

definition stop_body :: "'w sys \<Rightarrow> string \<Rightarrow> bool \<Rightarrow> bool \<Rightarrow> int \<Rightarrow> ('w st, unit) act" where
  "stop_body sys vmname force graceful timeout =
     bindE (stop_gracefully sys vmname force graceful timeout) (\<lambda>force.
     bindE (stop_forced sys vmname force (word_of_int timeout)) (\<lambda>stop_timeout.
     bindE (stop_vm sys vmname stop_timeout) (\<lambda>_.
     say ''VM %q stopped.\<newline>'' [FStr vmname])))"

definition run_stop :: "'w sys \<Rightarrow> string \<Rightarrow> bool \<Rightarrow> bool \<Rightarrow> int \<Rightarrow> ('w st, unit) act" where
  "run_stop sys vmname force graceful timeout =
     bindE (new_podman_client sys) (\<lambda>_.
     bindE (exists_vm sys vmname) (\<lambda>exists.
     if \<not> exists then fail (Errorf ''VM %q not found'' [FStr vmname])
     else stop_body sys vmname force graceful timeout))"

section \<open>The contracts\<close>

definition off_verdict :: "domain_state \<times> go_error option \<Rightarrow> unit option" where
  "off_verdict r = (if snd r \<noteq> None \<or> fst r = StateShutOff then Some () else None)"

interpretation stop_poll:
  poll_loop sys "get_state sys lv vmname" off_verdict "stop_poll_loop sys lv vmname"
  for sys lv vmname
proof unfold_locales
  fix d s
  show "stop_poll_loop sys lv vmname d s =
      (if clk s < d then
         (case get_state sys lv vmname s of
            (Inl e, s1) \<Rightarrow> (Inl e, s1)
          | (Inr x, s1) \<Rightarrow>
              (case off_verdict x of
                 Some y \<Rightarrow> (Inr (Some y), s1)
               | None \<Rightarrow> stop_poll_loop sys lv vmname d (snd (sleep sys poll_interval s1))))
       else (Inr None, s))"
    by (subst stop_poll_loop.simps) (auto simp: off_verdict_def split: prod.splits sum.splits)
qed (intro forward_get_state get_state_total get_state_no_sleep)+

interpretation stop: vm_command sys vmname "Errorf ''VM %q not found'' [FStr vmname]"
  "stop_body sys vmname force graceful t" "run_stop sys vmname force graceful t"
  for sys vmname force graceful t
  by unfold_locales (simp add: run_stop_def)

lemma forward_stop_poll_loop [forward_intros]: "forward (stop_poll_loop sys lv vmname d)"
  by (rule stop_poll.loop_forward)

lemma forward_stop_parts [forward_intros]:
  "forward (stop_gracefully sys vmname force graceful t)"
  "forward (stop_forced sys vmname force st)"
  unfolding stop_gracefully_def stop_forced_def Let_def by (intro forward_intros)+

lemma forward_run_stop [forward_intros]: "forward (run_stop sys vmname force graceful t)"
  unfolding run_stop_def stop_body_def by (intro forward_intros)

section \<open>What the halves decide\<close>

lemma stop_gracefully_not: "\<not> (graceful \<and> \<not> force) \<Longrightarrow> stop_gracefully sys vmname force graceful t = ok True"
  by (auto simp: stop_gracefully_def Let_def)

text \<open>Force is left off only when the domain was seen shut off at the end.\<close>

lemma stop_gracefully_False:
  assumes "stop_gracefully sys vmname force graceful t s = (Inr False, s')"
  shows "graceful \<and> \<not> force \<and> (\<exists>s0 e. extends s s0
    \<and> get_state sys (new_client vmname) vmname s0 = (Inr (StateShutOff, e), s'))"
proof -
  let ?lv = "new_client vmname"
  have g: "graceful \<and> \<not> force" using assms stop_gracefully_not by (metis Inr_inject Pair_inject run_ok)
  then obtain s1 s2 s3 sn r x t0 e where a: "say ''Sending shutdown signal to VM %q...\<newline>'' [FStr vmname] s = (Inr (), s1)"
    and b: "attempt (shutdown sys ?lv vmname) s1 = (Inr (Inr r), s2)"
    and n: "now s2 = (Inr t0, sn)"
    and c: "stop_poll_loop sys ?lv vmname (t0 + seconds t) sn = (Inr x, s3)"
    and d: "get_state sys ?lv vmname s3 = (Inr (StateShutOff, e), s')"
    using assms unfolding stop_gracefully_def Let_def
    by (auto elim!: bindE_Inr_E split: if_splits sum.splits prod.splits)
  have "extends s s1" "extends s1 s2" "extends s2 sn" "extends sn s3"
    using forward_extends [OF forward_say a] forward_extends [OF forward_attempt [OF forward_shutdown] b]
      forward_extends [OF forward_now n] forward_extends [OF forward_stop_poll_loop c] by simp_all
  then show ?thesis using g d by (blast intro: extends_trans)
qed

lemma stop_forced_cases:
  assumes "stop_forced sys vmname force tmo s = (Inr v, s')"
  obtains (unforced) "\<not> force" and "v = tmo" and "s' = s"
  | (destroyed) s0 where "extends s s0" and "force" and "v = 0" and "destroy sys (new_client vmname) vmname s0 = (Inr (), s')"
  | (failed) s0 e s1 where "extends s s0" and "force" and "v = tmo" and "destroy sys (new_client vmname) vmname s0 = (Inl e, s1)"
      and "log s' = log s1 @ [Stderr ''Warning: force-stopping libvirt domain for %q failed: %v\<newline>'' [FStr vmname, FErr e]]"
proof (cases force)
  case False
  then show ?thesis using assms unforced by (simp add: stop_forced_def)
next
  case True
  then obtain s1 s2 r where a: "say ''Force-stopping VM %q...\<newline>'' [FStr vmname] s = (Inr (), s1)"
    and b: "attempt (destroy sys (new_client vmname) vmname) s1 = (Inr r, s2)"
    and c: "(case r of
          Inl e \<Rightarrow> bindE (warn ''Warning: force-stopping libvirt domain for %q failed: %v\<newline>'' [FStr vmname, FErr e]) (\<lambda>_. ok tmo)
        | Inr _ \<Rightarrow> ok 0) s2 = (Inr v, s')"
    using assms unfolding stop_forced_def by (auto elim!: bindE_Inr_E)
  have e: "extends s s1" using forward_extends [OF forward_say a] .
  have b': "destroy sys (new_client vmname) vmname s1 = (r, s2)" using b by (simp add: run_attempt split: prod.splits)
  show ?thesis
  proof (cases r)
    case (Inl e')
    then show ?thesis using failed [OF e True] b' c by (auto simp: run_bindE warn_def emit_def)
  next
    case (Inr x)
    then show ?thesis using destroyed [OF e True] b' c by auto
  qed
qed

lemma virsh_no_container_change [only_intros]:
  "only_events (\<lambda>e. \<not> container_change e) (virsh sys lv args)"
  unfolding virsh_def Let_def by (intro only_intros) simp_all

lemma domain_no_container_change [only_intros]:
  "only_events (\<lambda>e. \<not> container_change e) (get_state sys lv vmname)"
  "only_events (\<lambda>e. \<not> container_change e) (get_info sys lv vmname)"
  "only_events (\<lambda>e. \<not> container_change e) (shutdown sys lv vmname)"
  "only_events (\<lambda>e. \<not> container_change e) (destroy sys lv vmname)"
  unfolding get_state_def get_info_def shutdown_def destroy_def by (intro only_intros)+

lemma poll_no_container_change [only_intros]:
  "only_events (\<lambda>e. \<not> container_change e) (stop_poll_loop sys lv vmname d)"
  "only_events (\<lambda>e. \<not> container_change e) (start_wait_loop sys lv vmname d)"
  by (rule stop_poll.loop_only start_poll.loop_only, rule domain_no_container_change, simp)+

lemma stop_parts_no_container_change [only_intros]:
  "only_events (\<lambda>e. \<not> container_change e) (stop_gracefully sys vmname force graceful t)"
  "only_events (\<lambda>e. \<not> container_change e) (stop_forced sys vmname force tmo)"
  unfolding stop_gracefully_def stop_forced_def Let_def by (intro only_intros conjI; simp)+

section \<open>The number of polls\<close>

text \<open>The rounds of a loop that may last \<open>n\<close> seconds.\<close>

definition max_rounds :: "int \<Rightarrow> nat" where
  "max_rounds n = nat ((max 0 (seconds n) + poll_interval - 1) div poll_interval)"

lemma no_sleep_operations [only_intros]:
  "only_events (\<lambda>e. \<not> is_sleep e) (new_podman_client sys)"
  "only_events (\<lambda>e. \<not> is_sleep e) (exists_vm sys vmname)"
  "only_events (\<lambda>e. \<not> is_sleep e) (virsh sys lv args)"
  "only_events (\<lambda>e. \<not> is_sleep e) (stop_vm sys vmname tmo)"
  unfolding new_podman_client_def podman_new_def exists_vm_def virsh_def stop_vm_def Let_def
  by (intro only_intros; simp)+

lemma no_sleep_domain [only_intros]:
  "only_events (\<lambda>e. \<not> is_sleep e) (get_state sys lv vmname)"
  "only_events (\<lambda>e. \<not> is_sleep e) (shutdown sys lv vmname)"
  "only_events (\<lambda>e. \<not> is_sleep e) (destroy sys lv vmname)"
  unfolding get_state_def shutdown_def destroy_def by (intro only_intros)+

lemma max_sleeps_bindE_left: "max_sleeps n m \<Longrightarrow> (\<And>x. only_events (\<lambda>e. \<not> is_sleep e) (f x)) \<Longrightarrow> max_sleeps n (bindE m f)"
  using max_sleeps_bindE [of n m 0 f] by (simp add: max_sleeps_only)

lemma max_sleeps_bindE_right:
  "only_events (\<lambda>e. \<not> is_sleep e) m \<Longrightarrow> (\<And>x. max_sleeps n (f x)) \<Longrightarrow> max_sleeps n (bindE m f)"
  using max_sleeps_bindE [of 0 m n f] by (simp add: max_sleeps_only)

lemma max_sleeps_case_sum:
  "(\<And>e. only_events (\<lambda>e. \<not> is_sleep e) (f e)) \<Longrightarrow> (\<And>x. max_sleeps n (g x)) \<Longrightarrow>
     max_sleeps n (case r of Inl e \<Rightarrow> f e | Inr x \<Rightarrow> g x)"
  by (cases r) (simp_all add: max_sleeps_only)

lemma stop_gracefully_rounds: "max_sleeps (max_rounds t) (stop_gracefully sys vmname force graceful t)"
proof (cases "graceful \<and> \<not> force")
  case False
  then show ?thesis by (simp add: stop_gracefully_not max_sleeps_only only_ok)
next
  case True
  have loop: "max_sleeps (max_rounds t) (bindE now (\<lambda>t0. stop_poll_loop sys lv vmname (t0 + seconds t)))" for lv
    unfolding max_rounds_def by (rule stop_poll.timed_loop)
  show ?thesis
    unfolding stop_gracefully_def Let_def if_P [OF True]
    by (rule max_sleeps_bindE_right, intro only_intros, simp, rule max_sleeps_bindE_right, intro only_intros,
        rule max_sleeps_case_sum, intro only_intros, simp, rule max_sleeps_bindE_left, rule loop)
      (intro only_intros; simp)
qed

lemma stop_forced_no_sleep [only_intros]: "only_events (\<lambda>e. \<not> is_sleep e) (stop_forced sys vmname force tmo)"
  unfolding stop_forced_def by (intro only_intros; simp)

lemma stop_body_rounds: "max_sleeps (max_rounds t) (stop_body sys vmname force graceful t)"
  unfolding stop_body_def
  by (rule max_sleeps_bindE_left, rule stop_gracefully_rounds) (intro only_intros; simp)

lemma max_sleeps_if_fail: "max_sleeps n m \<Longrightarrow> max_sleeps n (if b then fail e else m)"
  by (simp add: max_sleeps_only only_fail)

lemma run_stop_rounds: "max_sleeps (max_rounds t) (run_stop sys vmname force graceful t)"
  unfolding run_stop_def
  by (intro max_sleeps_bindE_right only_intros max_sleeps_if_fail stop_body_rounds)

section \<open>Properties\<close>

text \<open>
  C5: A successful stop ends with exactly one stop of the VM's container, after which only the
  final message is printed, and no container was created, started, stopped or removed before
  it. Either the graceful path was asked for and the domain was last seen shut off; or the
  domain was destroyed and Podman gets no grace period; or destroying it failed and Podman
  gets the time of the flag.
\<close>

theorem stop_success:
  assumes "run_stop sys vmname force graceful timeout s = (Inr u, s')"
  shows "\<exists>s1 t tmo. log s1 = log s @ t \<and> list_all (\<lambda>e. \<not> container_change e) t
    \<and> log s' = log s1 @ [CtrStop (container_name vmname) tmo, Stdout ''VM %q stopped.\<newline>'' [FStr vmname]]
    \<and> snd (snd (ctr_stop sys (container_name vmname) tmo (ext s1))) = ext s'
    \<and> (graceful \<and> \<not> force \<and> tmo = word_of_int timeout
         \<and> (\<exists>s0 e. extends s s0 \<and> get_state sys (new_client vmname) vmname s0 = (Inr (StateShutOff, e), s1))
       \<or> tmo = 0 \<and> (\<exists>s0. extends s s0 \<and> destroy sys (new_client vmname) vmname s0 = (Inr (), s1))
       \<or> tmo = word_of_int timeout \<and> (\<exists>s0 e s2. extends s s0 \<and> destroy sys (new_client vmname) vmname s0 = (Inl e, s2)
           \<and> log s1 = log s2 @ [Stderr ''Warning: force-stopping libvirt domain for %q failed: %v\<newline>''
                [FStr vmname, FErr e]]))"
proof -
  obtain s0 where g: "vm_guard sys vmname s = (Inr True, s0)"
    and b: "stop_body sys vmname force graceful timeout s0 = (Inr u, s')"
    using assms by (rule stop.success_present)
  obtain f sa tmo sb sc where
    a: "stop_gracefully sys vmname force graceful timeout s0 = (Inr f, sa)" and
    d: "stop_forced sys vmname f (word_of_int timeout) sa = (Inr tmo, sb)" and
    c: "stop_vm sys vmname tmo sb = (Inr (), sc)" and
    e: "say ''VM %q stopped.\<newline>'' [FStr vmname] sc = (Inr u, s')"
    using b unfolding stop_body_def by (auto elim!: bindE_Inr_E)
  have ss0: "extends s s0" using forward_extends [OF forward_vm_guard g] .
  have ssa: "extends s sa" using ss0 forward_extends [OF forward_stop_parts(1) a] by (rule extends_trans)
  have "log s' = log sb @ [CtrStop (container_name vmname) tmo, Stdout ''VM %q stopped.\<newline>'' [FStr vmname]]"
    using c e by (auto simp: stop_vm_def run_wrapE call_def say_def emit_def split: prod.splits sum.splits)
  moreover have "snd (snd (ctr_stop sys (container_name vmname) tmo (ext sb))) = ext s'"
    using c e by (auto simp: stop_vm_def run_wrapE call_def say_def emit_def split: prod.splits sum.splits)
  moreover obtain t where "log sb = log s @ t" "list_all (\<lambda>e. \<not> container_change e) t"
  proof -
    obtain t0 where "log s0 = log s @ t0" "list_all (guard_event vmname) t0"
      using only_eventsD [OF only_vm_guard g] by blast
    moreover have "guard_event vmname e \<Longrightarrow> \<not> container_change e" for e
      by (auto simp: guard_event_def)
    moreover obtain t1 t2 where "log sa = log s0 @ t1" "log sb = log sa @ t2"
      "list_all (\<lambda>e. \<not> container_change e) t1" "list_all (\<lambda>e. \<not> container_change e) t2"
      using only_eventsD [OF stop_parts_no_container_change(1) a]
        only_eventsD [OF stop_parts_no_container_change(2) d] by blast
    ultimately show ?thesis using that [of "t0 @ t1 @ t2"] by (auto simp: list_all_iff)
  qed
  moreover from d have "graceful \<and> \<not> force \<and> tmo = word_of_int timeout
         \<and> (\<exists>s0 e. extends s s0 \<and> get_state sys (new_client vmname) vmname s0 = (Inr (StateShutOff, e), sb))
       \<or> tmo = 0 \<and> (\<exists>s0. extends s s0 \<and> destroy sys (new_client vmname) vmname s0 = (Inr (), sb))
       \<or> tmo = word_of_int timeout \<and> (\<exists>s0 e s2. extends s s0 \<and> destroy sys (new_client vmname) vmname s0 = (Inl e, s2)
           \<and> log sb = log s2 @ [Stderr ''Warning: force-stopping libvirt domain for %q failed: %v\<newline>''
                [FStr vmname, FErr e]])"
  proof (cases rule: stop_forced_cases)
    case unforced
    then have "stop_gracefully sys vmname force graceful timeout s0 = (Inr False, sb)" using a by simp
    from stop_gracefully_False [OF this] show ?thesis using unforced ss0 by (blast intro: extends_trans)
  qed (use ssa in \<open>blast intro: extends_trans\<close>)+
  ultimately show ?thesis by blast
qed

theorem stop_success_witness:
  "\<exists>s' (s1 :: string st) tmo. run_stop sample_sys ''vm1'' True False 5 (sample_st ''running'') = (Inr (), s')
     \<and> log s' = log s1 @ [CtrStop (container_name ''vm1'') tmo, Stdout ''VM %q stopped.\<newline>'' [FStr ''vm1'']]"
proof -
  obtain s' where r: "run_stop sample_sys ''vm1'' True False 5 (sample_st ''running'') = (Inr (), s')"
    by (simp add: sample_run guard_run run_stop_def stop_body_def stop_gracefully_def stop_forced_def
        stop_vm_def destroy_def virsh_def)
  show ?thesis using stop_success [OF r] r by blast
qed


end
