(* ===== verification/CmdDelete.thy ===== *)
theory CmdDelete
  imports CmdStop
begin

text \<open>\<open>cmd/delete.go\<close>: confirmation, best-effort stop of a running VM, removal.\<close>

definition delete_stop :: "'w sys \<Rightarrow> string \<Rightarrow> vm_info \<Rightarrow> ('w st, unit) act" where
  "delete_stop sys vmname info =
     (if vi_state info = ''running''
      then
        bindE (say ''Stopping VM %q before deletion...\<newline>'' [FStr vmname]) (\<lambda>_.
        let lv = new_client vmname
        in bindE (attempt (destroy sys lv vmname)) (\<lambda>r.
           bindE (case r of
               Inl e \<Rightarrow> warn ''Warning: force-stopping libvirt domain for %q before deletion failed: %v\<newline>''
                 [FStr vmname, FErr e]
             | Inr _ \<Rightarrow> ok ()) (\<lambda>_.
           bindE (attempt (stop_vm sys vmname 10)) (\<lambda>r.
           case r of
             Inl e \<Rightarrow> warn ''Warning: stopping container for %q before deletion failed: %v\<newline>'' [FStr vmname, FErr e]
           | Inr _ \<Rightarrow> ok ()))))
      else ok ())"

definition delete_body :: "'w sys \<Rightarrow> string \<Rightarrow> bool \<Rightarrow> ('w st, unit) act" where
  "delete_body sys vmname force =
     bindE (if \<not> force
            then confirm_action sys ''Delete VM %q? This cannot be undone. [y/N] '' [FStr vmname]
            else ok True) (\<lambda>confirmed.
     if \<not> confirmed then say ''Aborted.\<newline>'' []
     else
       bindE (attempt (inspect_vm sys vmname)) (\<lambda>r.
       bindE (case r of Inl _ \<Rightarrow> ok () | Inr info \<Rightarrow> delete_stop sys vmname info) (\<lambda>_.
       bindE (say ''Removing VM %q...\<newline>'' [FStr vmname]) (\<lambda>_.
       bindE (remove_vm sys vmname True) (\<lambda>_.
       say ''VM %q deleted.\<newline>'' [FStr vmname])))))"

definition run_delete :: "'w sys \<Rightarrow> string \<Rightarrow> bool \<Rightarrow> ('w st, unit) act" where
  "run_delete sys vmname force =
     bindE (new_podman_client sys) (\<lambda>_.
     bindE (exists_vm sys vmname) (\<lambda>exists.
     if \<not> exists then fail (Errorf ''VM %q not found'' [FStr vmname])
     else delete_body sys vmname force))"

interpretation delete: vm_command sys vmname "Errorf ''VM %q not found'' [FStr vmname]"
  "delete_body sys vmname force" "run_delete sys vmname force"
  for sys vmname force
  by unfold_locales (simp add: run_delete_def)

section \<open>Frames\<close>

lemma forward_delete [forward_intros]:
  "forward (delete_stop sys vmname info)" "forward (delete_body sys vmname force)"
  "forward (run_delete sys vmname force)"
proof -
  show ds: "forward (delete_stop sys vmname info)" for info
    unfolding delete_stop_def Let_def by (intro forward_intros)
  show db: "forward (delete_body sys vmname force)"
    unfolding delete_body_def by (intro forward_intros ds)
  show "forward (run_delete sys vmname force)"
    unfolding run_delete_def by (intro forward_intros db)
qed

lemma confirm_no_changes: "only_events (\<lambda>e. \<not> changes e) (confirm_action sys prompt args)"
  unfolding confirm_action_def Let_def by (intro only_intros) simp_all

text \<open>The stop before a deletion neither creates nor removes a container.\<close>

fun removes :: "event \<Rightarrow> bool" where
  "removes (CtrRemove _ _) = True"
| "removes _ = False"

lemma no_remove_before:
  "only_events (\<lambda>e. \<not> removes e) (inspect_vm sys vmname)"
  "only_events (\<lambda>e. \<not> removes e) (delete_stop sys vmname info)"
  "only_events (\<lambda>e. \<not> removes e) (confirm_action sys prompt args)"
  unfolding inspect_vm_def delete_stop_def destroy_def virsh_def stop_vm_def confirm_action_def Let_def
  by (intro only_intros; simp)+

text \<open>An answer counts as a confirmation only if it is \<open>y\<close> or \<open>Y\<close> between white space.\<close>

lemma confirm_action_True:
  assumes "confirm_action sys prompt args s = (Inr True, s')"
  shows "\<exists>resp e dt w. stdin_line sys (ext s) = (Inr (resp, e), dt, w)
    \<and> trim_space resp \<in> {''y'', ''Y''} \<and> (e = None \<or> e = Some EOF)"
proof -
  have y: "equal_fold r ''y'' \<Longrightarrow> r \<in> {''y'', ''Y''}" for r
  proof -
    assume "equal_fold r ''y''"
    then have "map ascii_lower r = [ascii_lower CHR ''y'']" by (simp add: equal_fold_def)
    then obtain c where r: "r = [c]" and c: "ascii_lower c = ascii_lower CHR ''y''" by auto
    have "ascii_lower CHR ''y'' = CHR ''y''" by (simp add: ascii_lower_def)
    then have "of_char (ascii_lower c) = (121 :: nat)" using c by simp
    then have "(of_char c :: nat) = 121 \<or> (of_char c :: nat) = 89"
      by (auto simp: ascii_lower_def Let_def split: if_splits)
    moreover have "(of_char CHR ''y'' :: nat) = 121" "(of_char CHR ''Y'' :: nat) = 89" by simp_all
    ultimately have "c = CHR ''y'' \<or> c = CHR ''Y''" by (metis of_char_eq_iff)
    then show "r \<in> {''y'', ''Y''}" using r by auto
  qed
  have n: "\<not> equal_fold [] ''y''" by (simp add: equal_fold_def)
  from assms show ?thesis
    unfolding confirm_action_def Let_def
    by (auto simp: run_attempt call_def say_def emit_def n dest!: y elim!: bindE_Inr_E
        split: sum.splits prod.splits option.splits if_splits)
qed

section \<open>Properties\<close>



end
