(* ===== verification/CmdStatus.thy ===== *)
theory CmdStatus
  imports CmdDelete
begin

text \<open>
  \<open>cmd/status.go\<close> and \<open>cmd/console.go\<close>: the state of one VM, once or every two seconds, and
  the serial console.
\<close>

section \<open>Status\<close>

text \<open>The arguments of a \<open>Printf\<close> are evaluated before it prints, hence the place of the slice.\<close>

definition print_status :: "'w sys \<Rightarrow> string \<Rightarrow> ('w st, unit) act" where
  "print_status sys vmname =
     bindE (inspect_vm sys vmname) (\<lambda>info.
     bindE (attempt (get_info sys (new_client vmname) vmname)) (\<lambda>dom.
     bindE (say ''VM:           %s\<newline>'' [FStr vmname]) (\<lambda>_.
     bindE (slice12 (vi_container_id info)) (\<lambda>short_id.
     bindE (say ''Container ID: %s\<newline>'' [FStr short_id]) (\<lambda>_.
     bindE (say ''Container:    %s\<newline>'' [FStr (vi_state info)]) (\<lambda>_.
     bindE (say ''Image:        %s\<newline>'' [FStr (vi_image info)]) (\<lambda>_.
     case dom of
       Inr d \<Rightarrow>
         bindE (say ''Domain state: %s\<newline>'' [FStr (state_string (di_state d))]) (\<lambda>_.
         bindE (say ''vCPUs:        %d\<newline>'' [FInt (di_cpus d)]) (\<lambda>_.
         bindE (say ''Memory (max): %d MiB\<newline>'' [FNat (unat (di_max_mem_kib d div 1024))]) (\<lambda>_.
         say ''Memory (used):%d MiB\<newline>'' [FNat (unat (di_used_mem_kib d div 1024))])))
     | Inl e \<Rightarrow> say ''Domain state: unavailable (%v)\<newline>'' [FErr e])))))))"

definition clear_screen :: string where
  "clear_screen = CHR 0x1B # ''[H'' @ CHR 0x1B # ''[2J''"

definition watch_round :: "'w sys \<Rightarrow> string \<Rightarrow> ('w st, unit) act" where
  "watch_round sys vmname =
     bindE (say clear_screen []) (\<lambda>_.
     bindE now (\<lambda>t.
     bindE (say ''=== %s  [Ctrl-C to quit] ===\<newline>\<newline>'' [FInt t]) (\<lambda>_.
     print_status sys vmname)))"

text \<open>
  The \<open>for\<close> loop of \<open>--watch\<close> has no exit but an error of \<open>printStatus\<close>, so its value is an
  option, \<open>None\<close> for running forever. The time of day is printed from the clock.
\<close>

partial_function (option) watch_loop :: "'w sys \<Rightarrow> string \<Rightarrow> 'w st \<Rightarrow> ((go_error + unit) \<times> 'w st) option" where
  "watch_loop sys vmname s =
     (case watch_round sys vmname s of
        (Inl e, s1) \<Rightarrow> Some (Inl e, s1)
      | (Inr _, s1) \<Rightarrow> watch_loop sys vmname (snd (sleep sys poll_interval s1)))"

definition run_status :: "'w sys \<Rightarrow> string \<Rightarrow> bool \<Rightarrow> 'w st \<Rightarrow> ((go_error + unit) \<times> 'w st) option" where
  "run_status sys vmname watch s =
     (case bindE (new_podman_client sys) (\<lambda>_. exists_vm sys vmname) s of
        (Inl e, s1) \<Rightarrow> Some (Inl e, s1)
      | (Inr exists, s1) \<Rightarrow>
          if \<not> exists then Some (Inl (Errorf ''VM %q not found'' [FStr vmname]), s1)
          else if \<not> watch then Some (print_status sys vmname s1)
          else watch_loop sys vmname s1)"

text \<open>A status that is not watched always returns, so it is a command like the others.\<close>

definition status_once :: "'w sys \<Rightarrow> string \<Rightarrow> ('w st, unit) act" where
  "status_once sys vmname s = the (run_status sys vmname False s)"

interpretation status: vm_command sys vmname "Errorf ''VM %q not found'' [FStr vmname]"
  "print_status sys vmname" "status_once sys vmname"
  for sys vmname
  by unfold_locales
    (auto simp: status_once_def run_status_def fun_eq_iff run_bindE split: prod.splits sum.splits)

lemma run_status_once: "run_status sys vmname False s = Some (status_once sys vmname s)"
  by (auto simp: status_once_def run_status_def split: prod.splits sum.splits)

section \<open>Console\<close>

definition find_socket :: string where
  "find_socket = ''sh -c 'ls /var/run/kubevirt-private/*/virt-serial0 2>/dev/null | head -1'' @ [CHR 0x27]"

definition console_script :: string where
  "console_script = ''sock=$('' @ find_socket
     @ ''); [ -z \"$sock\" ] && echo 'serial socket not found' >&2 && exit 1; nc -U \"$sock\"''"

definition console_args :: "string \<Rightarrow> string list" where
  "console_args vmname = [''exec'', ''-it'', container_name vmname, ''sh'', ''-c'', console_script]"

definition handle_serial :: "'w sys \<Rightarrow> string \<Rightarrow> ('w st, unit) act" where
  "handle_serial sys vmname =
     bindE (say ''Attaching to serial console of VM %q (detach with Ctrl-C)\<newline>\<newline>'' [FStr vmname]) (\<lambda>_.
     bindE (call (RunCommand ''podman'' (console_args vmname)) (exec_output sys ''podman'' (console_args vmname))) (\<lambda>_.
     ok ()))"

definition run_console :: "'w sys \<Rightarrow> string \<Rightarrow> ('w st, unit) act" where
  "run_console sys vmname =
     bindE (new_podman_client sys) (\<lambda>_.
     bindE (exists_vm sys vmname) (\<lambda>exists.
     if \<not> exists then fail (Errorf ''VM %q not found'' [FStr vmname])
     else handle_serial sys vmname))"

interpretation console: vm_command sys vmname "Errorf ''VM %q not found'' [FStr vmname]"
  "handle_serial sys vmname" "run_console sys vmname"
  for sys vmname
  by unfold_locales (simp add: run_console_def)

lemma forward_print_status [forward_intros]: "forward (print_status sys vmname)"
  unfolding print_status_def by (intro forward_intros)

lemma forward_watch_round [forward_intros]: "forward (watch_round sys vmname)"
  unfolding watch_round_def by (intro forward_intros)

lemma forward_run_console [forward_intros]: "forward (run_console sys vmname)"
  unfolding run_console_def handle_serial_def by (intro forward_intros)

section \<open>Watching\<close>

text \<open>\<open>n\<close> rounds of the loop that all succeed, each with the sleep after it.\<close>

primrec watch_rounds :: "'w sys \<Rightarrow> string \<Rightarrow> nat \<Rightarrow> 'w st \<Rightarrow> 'w st option" where
  "watch_rounds sys vmname 0 s = Some s"
| "watch_rounds sys vmname (Suc n) s =
     (case watch_round sys vmname s of
        (Inl e, s1) \<Rightarrow> None
      | (Inr _, s1) \<Rightarrow> watch_rounds sys vmname n (snd (sleep sys poll_interval s1)))"

lemma watch_loop_Some:
  assumes "watch_loop sys vmname s = Some (r, s')"
  shows "\<exists>n s1 e. watch_rounds sys vmname n s = Some s1 \<and> watch_round sys vmname s1 = (Inl e, s') \<and> r = Inl e"
proof -
  let ?P = "\<lambda>sys vmname s y. \<exists>n s1 e. watch_rounds sys vmname n s = Some s1
      \<and> watch_round sys vmname s1 = (Inl e, snd y) \<and> fst y = Inl e"
  have "?P sys vmname s (r, s')"
  proof (rule watch_loop.raw_induct [of ?P])
    fix loop and sys :: "'a sys" and vmname s y
    assume ih: "\<And>sys vmname s y. loop sys vmname s = Some y \<Longrightarrow> ?P sys vmname s y"
      and body: "(case watch_round sys vmname s of (Inl e, s1) \<Rightarrow> Some (Inl e, s1)
        | (Inr _, s1) \<Rightarrow> loop sys vmname (snd (sleep sys poll_interval s1))) = Some y"
    obtain rr s1 where w: "watch_round sys vmname s = (rr, s1)" by fastforce
    show "?P sys vmname s y"
    proof (cases rr)
      case (Inl e)
      then show ?thesis using body w by (intro exI [of _ 0]) auto
    next
      case (Inr u)
      then have "?P sys vmname (snd (sleep sys poll_interval s1)) y" using ih body w by simp
      then obtain n s2 e where "watch_rounds sys vmname n (snd (sleep sys poll_interval s1)) = Some s2"
        "watch_round sys vmname s2 = (Inl e, snd y)" "fst y = Inl e" by blast
      then show ?thesis using w Inr by (intro exI [of _ "Suc n"]) simp
    qed
  qed (rule assms)
  then show ?thesis by simp
qed

lemma watch_loop_rounds:
  "watch_rounds sys vmname n s = Some s1 \<Longrightarrow> watch_loop sys vmname s = watch_loop sys vmname s1"
proof (induction n arbitrary: s)
  case (Suc n)
  then show ?case
    by (subst watch_loop.simps) (auto split: prod.splits sum.splits)
qed simp

section \<open>Properties\<close>


text \<open>
  C25: A VM command on a VM that is not there, or when the checks before it fail, returns an error and
  changes nothing: \<open>start\<close>, \<open>stop\<close>, \<open>delete\<close>, \<open>status\<close> and \<open>console\<close> create, start, stop or remove
  no container, run no program and write no file.
\<close>

theorem absent_untouched:
  assumes "fst (vm_guard sys vmname s) \<noteq> Inr True"
    and "cmd \<in> {run_start sys vmname wait wt, run_stop sys vmname force graceful timeout,
           run_delete sys vmname force, status_once sys vmname, run_console sys vmname}"
  shows "isl (fst (cmd s)) \<and> (\<exists>t. log (snd (cmd s)) = log s @ t \<and> list_all (\<lambda>e. \<not> changes e) t)"
  using assms(2) start.untouched [OF assms(1)] stop.untouched [OF assms(1)] delete.untouched [OF assms(1)]
    status.untouched [OF assms(1)] console.untouched [OF assms(1)]
  by (elim insertE emptyE) (simp_all only:)

theorem absent_untouched_witness:
  "\<exists>t. log (snd (run_delete (sample_sys\<lparr>ctr_exists := \<lambda>_. always False\<rparr>) ''vm1'' True (sample_st []))) = t
     \<and> list_all (\<lambda>e. \<not> changes e) t"
proof -
  let ?sys = "sample_sys\<lparr>ctr_exists := \<lambda>_. always False\<rparr>"
  have "fst (vm_guard ?sys ''vm1'' (sample_st [])) \<noteq> Inr True"
    by (simp add: vm_guard_def guard_run sample_run)
  from absent_untouched [OF this, of "run_delete ?sys ''vm1'' True" False 0 True False 0]
  show ?thesis by (auto simp: sample_st_def)
qed

end
