(* ===== verification/CmdList.thy ===== *)
theory CmdList
  imports CmdStatus
begin

text \<open>\<open>cmd/list.go\<close>: the rows of \<open>podvirt list\<close>, the state filter and the outputs.\<close>

definition port_entry :: "port_mapping \<Rightarrow> vm_port_mapping_entry" where
  "port_entry pm = \<lparr>vpm_host_port = pm_host_port pm, vpm_container_port = pm_container_port pm,
     vpm_protocol = pm_protocol pm\<rparr>"

text \<open>The row of a VM, from what \<open>GetInfo\<close> returned.\<close>

definition entry_of :: "go_error + domain_info \<Rightarrow> string \<Rightarrow> vm_info \<Rightarrow> vm_list_entry" where
  "entry_of info short_id vm =
     (let entry = \<lparr>vle_name = vi_name vm, vle_state = vi_state vm, vle_container_id = short_id,
                  vle_cpus = 0, vle_memory_mib = 0,
                  vle_port_mappings = map port_entry (vi_port_mappings vm)\<rparr>
      in case info of
           Inl _ \<Rightarrow> entry
         | Inr d \<Rightarrow> entry\<lparr>vle_state := state_string (di_state d), vle_cpus := di_cpus d,
                          vle_memory_mib := di_used_mem_kib d div 1024\<rparr>)"

text \<open>One turn of the loop; \<open>None\<close> is the \<open>continue\<close> of the state filter.\<close>

definition list_entry :: "'w sys \<Rightarrow> string \<Rightarrow> vm_info \<Rightarrow> ('w st, vm_list_entry option) act" where
  "list_entry sys state_filter vm =
     bindE (attempt (get_info sys (new_client (vi_name vm)) (vi_name vm))) (\<lambda>info.
     bindE (slice12 (vi_container_id vm)) (\<lambda>short_id.
     let entry = entry_of info short_id vm
     in if state_filter \<noteq> [] \<and> state_filter \<noteq> ''all'' \<and> vle_state entry \<noteq> state_filter
        then ok None else ok (Some entry)))"

definition table_header :: "string list" where
  "table_header = [''NAME'', ''STATE'', ''CPUS'', ''MEMORY (MiB)'', ''CONTAINER ID'']"

definition table_row :: "vm_list_entry \<Rightarrow> string list" where
  "table_row e =
     (let mem = (if vle_memory_mib e > 0 then format_uint (unat (vle_memory_mib e)) else ''-'');
          cpus = (if vle_cpus e > 0 then format_int (vle_cpus e) else ''-'')
      in [vle_name e, vle_state e, cpus, mem, vle_container_id e])"

definition print_list_table :: "vm_list_entry list \<Rightarrow> ('w st, unit) act" where
  "print_list_table entries =
     (if length entries = 0 then say ''No VMs found.\<newline>'' []
      else emit (TableOutput table_header (map table_row entries)))"

text \<open>
  The text of a JSON listing, with the fields that the struct tags name. \<open>entries\<close> is a nil slice
  when no row was appended, and a nil slice is \<open>null\<close>. The encoder ends with a newline.
\<close>

definition port_entry_json :: "vm_port_mapping_entry \<Rightarrow> json" where
  "port_entry_json p = JObj (fld ''hostPort'' (JInt (uint (vpm_host_port p)))
     @ fld ''containerPort'' (JInt (uint (vpm_container_port p))) @ fld ''protocol'' (JStr (vpm_protocol p)))"

definition list_entry_json :: "vm_list_entry \<Rightarrow> json" where
  "list_entry_json e = JObj (fld ''name'' (JStr (vle_name e)) @ fld ''state'' (JStr (vle_state e))
     @ fld ''containerID'' (JStr (vle_container_id e)) @ fld ''cpus'' (JInt (vle_cpus e))
     @ fld ''memoryMiB'' (JInt (uint (vle_memory_mib e)))
     @ arr_omit ''portMappings'' port_entry_json (vle_port_mappings e))"

definition list_json :: "vm_list_entry list \<Rightarrow> string" where
  "list_json entries =
     (if entries = [] then ''null'' else render (JArr (map list_entry_json entries))) @ ''\<newline>''"

definition run_list :: "'w sys \<Rightarrow> string \<Rightarrow> string \<Rightarrow> ('w st, unit) act" where
  "run_list sys state_filter output_fmt =
     bindE (new_podman_client sys) (\<lambda>_.
     bindE (list_vms sys) (\<lambda>vms.
     bindE (forE vms (list_entry sys state_filter)) (\<lambda>rows.
     let entries = map the (filter (\<lambda>r. r \<noteq> None) rows)
     in if output_fmt = ''json'' then emit (JsonOutput (list_json entries))
        else if output_fmt = ''yaml'' then emit (YamlOutput entries)
        else print_list_table entries)))"

text \<open>Without a row the output is not an empty array.\<close>

lemma list_json_empty: "list_json es = ''null\<newline>'' \<longleftrightarrow> es = []"
  by (cases es) (auto simp: list_json_def)

section \<open>What a row says\<close>

text \<open>The row of a VM, given what \<open>virsh dominfo\<close> answered.\<close>

definition row_of :: "vm_info \<Rightarrow> go_error + domain_info \<Rightarrow> vm_list_entry \<Rightarrow> bool" where
  "row_of vm info e \<longleftrightarrow> vle_name e = vi_name vm \<and> 12 \<le> length (vi_container_id vm)
     \<and> vle_container_id e = take 12 (vi_container_id vm)
     \<and> vle_port_mappings e = map port_entry (vi_port_mappings vm)
     \<and> (vle_state e, vle_cpus e, vle_memory_mib e) =
         (case info of Inl _ \<Rightarrow> (vi_state vm, 0, 0)
          | Inr d \<Rightarrow> (state_string (di_state d), di_cpus d, di_used_mem_kib d div 1024))"

text \<open>The rows of the VMs, asked one after the other from the state \<open>s\<close> on.\<close>

fun rows_from :: "'w sys \<Rightarrow> vm_info list \<Rightarrow> 'w st \<Rightarrow> vm_list_entry list \<Rightarrow> bool" where
  "rows_from sys [] s es \<longleftrightarrow> es = []"
| "rows_from sys (vm # vms) s es \<longleftrightarrow>
     (case es of [] \<Rightarrow> False
      | e # es' \<Rightarrow>
          (case get_info sys (new_client (vi_name vm)) (vi_name vm) s of
             (info, s1) \<Rightarrow> row_of vm info e \<and> rows_from sys vms s1 es'))"

definition shown :: "string \<Rightarrow> vm_list_entry \<Rightarrow> bool" where
  "shown state_filter e \<longleftrightarrow> state_filter \<in> {[], ''all'', vle_state e}"

lemma list_entry_Inr:
  fixes s :: "'w st"
  assumes "list_entry sys flt vm s = (Inr r, s')"
  obtains info e where "get_info sys (new_client (vi_name vm)) (vi_name vm) s = (info, s')"
    and "row_of vm info e" and "r = (if shown flt e then Some e else None)"
proof -
  obtain info short and s1 s2 :: "'w st" where
    g: "attempt (get_info sys (new_client (vi_name vm)) (vi_name vm)) s = (Inr info, s1)"
    and a: "slice12 (vi_container_id vm) s1 = (Inr short, s2)"
    and b: "(if flt \<noteq> [] \<and> flt \<noteq> ''all'' \<and> vle_state (entry_of info short vm) \<noteq> flt
        then ok None else ok (Some (entry_of info short vm))) s2 = (Inr r, s')"
    using assms unfolding list_entry_def Let_def by (elim bindE_Inr_E)
  have "s2 = s1" "s' = s2" using a b by (auto simp: slice12_def split: if_splits)
  then have "get_info sys (new_client (vi_name vm)) (vi_name vm) s = (info, s')"
    using g by (simp add: run_attempt split: prod.splits)
  moreover have "row_of vm info (entry_of info short vm)"
    using a by (cases info) (auto simp: row_of_def entry_of_def Let_def slice12_def split: if_splits)
  moreover have "r = (if shown flt (entry_of info short vm) then Some (entry_of info short vm) else None)"
    using b by (auto simp: shown_def split: if_splits)
  ultimately show ?thesis by (rule that)
qed

lemma list_rows_Inr:
  "forE vms (list_entry sys flt) s = (Inr rows, s') \<Longrightarrow>
     \<exists>es. rows_from sys vms s es \<and> map the (filter (\<lambda>r. r \<noteq> None) rows) = filter (shown flt) es"
proof (induction vms arbitrary: s rows)
  case (Cons vm vms)
  obtain r s1 rs where a: "list_entry sys flt vm s = (Inr r, s1)"
    and b: "forE vms (list_entry sys flt) s1 = (Inr rs, s')" and rows: "rows = r # rs"
    using Cons.prems by (auto elim!: bindE_Inr_E)
  obtain info e where e: "get_info sys (new_client (vi_name vm)) (vi_name vm) s = (info, s1)"
      "row_of vm info e" "r = (if shown flt e then Some e else None)"
    using a by (rule list_entry_Inr)
  obtain es where "rows_from sys vms s1 es" "map the (filter (\<lambda>r. r \<noteq> None) rs) = filter (shown flt) es"
    using Cons.IH [OF b] by blast
  then show ?case using e rows by (intro exI [of _ "e # es"]) auto
qed simp

text \<open>
  A JSON or YAML listing has the VMs that Podman lists and the state filter admits, in
  Podman's order, the state and figures being those of the domain when \<open>virsh\<close> answers and
  the container's state otherwise.
\<close>

definition listing :: "string \<Rightarrow> vm_list_entry list \<Rightarrow> event" where
  "listing fmt es = (if fmt = ''json'' then JsonOutput (list_json es) else YamlOutput es)"

lemma list_output:
  assumes "run_list sys flt fmt s = (Inr u, s')" and "fmt \<in> {''json'', ''yaml''}"
  shows "\<exists>vms s1 s2 es. new_podman_client sys s = (Inr (), s1) \<and> list_vms sys s1 = (Inr vms, s2)
    \<and> rows_from sys vms s2 es \<and> last (log s') = listing fmt (filter (shown flt) es)"
proof -
  obtain vms s1 s2 rows s3 where c: "new_podman_client sys s = (Inr (), s1)" and l: "list_vms sys s1 = (Inr vms, s2)"
    and r: "forE vms (list_entry sys flt) s2 = (Inr rows, s3)"
    and o: "emit (listing fmt (map the (filter (\<lambda>r. r \<noteq> None) rows))) s3 = (Inr u, s')"
    using assms by (auto simp: run_list_def listing_def Let_def elim!: bindE_Inr_E)
  obtain es where "rows_from sys vms s2 es" "map the (filter (\<lambda>r. r \<noteq> None) rows) = filter (shown flt) es"
    using list_rows_Inr [OF r] by blast
  moreover have "last (log s') = listing fmt (map the (filter (\<lambda>r. r \<noteq> None) rows))"
    using o by (auto simp: emit_def)
  ultimately show ?thesis using c l by metis
qed

lemma list_output_witness:
  "\<exists>s' es. run_list sample_sys [] ''json'' (sample_st ''running'') = (Inr (), s')
     \<and> last (log s') = listing ''json'' (filter (shown []) es)"
proof -
  obtain s' where r: "run_list sample_sys [] ''json'' (sample_st ''running'') = (Inr (), s')"
    by (simp add: sample_run guard_run run_list_def list_entry_def list_vms_def get_info_def virsh_def
        slice12_def vm_info_of_def sample_container_def label_of_def)
  show ?thesis using list_output [OF r] r by auto
qed

lemma rows_from_row: "rows_from sys vms s es \<Longrightarrow> list_all2 (\<lambda>vm e. \<exists>info. row_of vm info e) vms es"
  by (induction vms arbitrary: s es) (auto split: list.splits prod.splits)

section \<open>Names of containers\<close>

lemma vm_name_from_container_name:
  "vm_name_from_container [slash # container_name vmname] = vmname"
  "vm_name_from_container [container_name vmname] = vmname"
  by (simp_all add: vm_name_from_container_def container_name_def container_prefix_def trim_prefix_def)

text \<open>The name of a VM is recovered from the name of its container, with or without the slash.\<close>

lemma container_name_roundtrip:
  "vm_name_from_container [container_name vmname] = vmname
   \<and> vm_name_from_container [slash # container_name vmname] = vmname"
  by (simp add: vm_name_from_container_name)

end
