(* ===== verification/CmdSsh.thy ===== *)
theory CmdSsh
  imports CmdList
begin

text \<open>\<open>cmd/ssh.go\<close>: the host port, the arguments of \<open>ssh\<close>, the command.\<close>

definition ssh_port :: "int \<Rightarrow> port_mapping list \<Rightarrow> int" where
  "ssh_port port_override mappings =
     (if port_override = 0
      then (case find (\<lambda>pm. pm_container_port pm = 22) mappings of
              Some pm \<Rightarrow> uint (pm_host_port pm) | None \<Rightarrow> 0)
      else port_override)"

definition ssh_args :: "int \<Rightarrow> string \<Rightarrow> string \<Rightarrow> string \<Rightarrow> string list \<Rightarrow> string list" where
  "ssh_args host_port identity user_override ssh_user remote_cmd =
     (let args = [''-4'', ''-o'', ''StrictHostKeyChecking=no'', ''-o'', ''UserKnownHostsFile=/dev/null'',
                  ''-p'', format_int host_port];
          args = (if identity \<noteq> [] then args @ [''-i'', identity] else args);
          target = (if user_override \<noteq> [] then user_override @ ''@localhost''
                    else if ssh_user \<noteq> [] then ssh_user @ ''@localhost'' else ''localhost'');
          args = args @ [target]
      in if length remote_cmd > 0 then args @ remote_cmd else args)"

definition no_port_msg :: string where
  "no_port_msg = ''VM %q has no port 22 mapping.\<newline>'' @ ''\<newline>''
     @ ''Create the VM with a port forward, e.g.:\<newline>'' @ ''  podvirt create --name %s ... --port 2222:22''"

definition run_ssh :: "'w sys \<Rightarrow> string list \<Rightarrow> string \<Rightarrow> int \<Rightarrow> string \<Rightarrow> ('w st, unit) act" where
  "run_ssh sys args user_override port_override identity =
     (case args of
        [] \<Rightarrow> fail (Errorf ''usage: podvirt ssh <vm-name> [-- <remote command>]'' [])
      | vmname # remote_cmd \<Rightarrow>
          bindE (new_podman_client sys) (\<lambda>_.
          bindE (inspect_vm sys vmname) (\<lambda>info.
          if vi_state info \<noteq> ''running''
          then fail (Errorf ''VM %q is not running (state: %s)'' [FStr vmname, FStr (vi_state info)])
          else
            let host_port = ssh_port port_override (vi_port_mappings info)
            in if host_port = 0 then fail (Errorf no_port_msg [FStr vmname, FStr vmname])
               else
                 bindE (if \<not> vi_ssh_keys_configured info
                        then warn (''Warning: no SSH keys were configured for VM %q.\<newline>''
                          @ ''  Authentication will likely fail. Recreate with --ssh-key, or use --identity.\<newline>\<newline>'')
                          [FStr vmname]
                        else ok ()) (\<lambda>_.
                 bindE (if user_override = [] \<and> vi_ssh_user info = []
                        then warn (''Warning: no SSH username configured for VM %q.\<newline>''
                          @ ''  Connecting as your local user. Recreate with --user (e.g. --user fedora), or use --user flag.\<newline>\<newline>'')
                          [FStr vmname]
                        else ok ()) (\<lambda>_.
                 let sargs = ssh_args host_port identity user_override (vi_ssh_user info) remote_cmd
                 in bindE (wrapE (\<lambda>e. Errorf ''ssh not found in PATH: %w'' [FErr e])
                          (query (\<lambda>w. look_path sys w ''ssh''))) (\<lambda>ssh_bin.
                    bindE (say ''Connecting to VM %q via SSH (localhost:%d)...\<newline>\<newline>'' [FStr vmname, FInt host_port]) (\<lambda>_.
                    bindE (call (RunCommand ssh_bin sargs) (exec_output sys ssh_bin sargs)) (\<lambda>_. ok ()))))))))"

lemma ssh_port_find:
  "ssh_port 0 mappings \<noteq> 0 \<Longrightarrow>
     \<exists>pm\<in>set mappings. pm_container_port pm = 22 \<and> ssh_port 0 mappings = uint (pm_host_port pm)"
  by (auto simp: ssh_port_def split: option.splits dest!: find_SomeD)

lemma ssh_args_eq: "ssh_args p identity user ssh_user cmd =
   [''-4'', ''-o'', ''StrictHostKeyChecking=no'', ''-o'', ''UserKnownHostsFile=/dev/null'', ''-p'', format_int p]
   @ (if identity = [] then [] else [''-i'', identity])
   @ [(if user \<noteq> [] then user @ ''@'' else if ssh_user \<noteq> [] then ssh_user @ ''@'' else []) @ ''localhost'']
   @ cmd"
  unfolding ssh_args_def Let_def by (cases identity; cases user; cases ssh_user; cases cmd) simp_all

lemma run_ssh_Inr:
  fixes s :: "'w st"
  assumes "run_ssh sys (vmname # cmd) user port identity s = (Inr u, s')"
  obtains info bin and s1 s2 :: "'w st" where "new_podman_client sys s = (Inr (), s1)"
    and "inspect_vm sys vmname s1 = (Inr info, s2)" and "vi_state info = ''running''"
    and "ssh_port port (vi_port_mappings info) \<noteq> 0"
    and "last (log s') = RunCommand bin (ssh_args (ssh_port port (vi_port_mappings info)) identity user (vi_ssh_user info) cmd)"
proof -
  obtain info s1 s2 bin s3 r where c: "new_podman_client sys s = (Inr (), s1)" and i: "inspect_vm sys vmname s1 = (Inr info, s2)"
    and st: "vi_state info = ''running''" and p: "ssh_port port (vi_port_mappings info) \<noteq> 0"
    and r: "call (RunCommand bin (ssh_args (ssh_port port (vi_port_mappings info)) identity user (vi_ssh_user info) cmd))
        (exec_output sys bin (ssh_args (ssh_port port (vi_port_mappings info)) identity user (vi_ssh_user info) cmd)) s3
        = (Inr r, s')"
    using assms unfolding run_ssh_def Let_def
    by (auto elim!: bindE_Inr_E split: if_splits)
  have "last (log s') = RunCommand bin (ssh_args (ssh_port port (vi_port_mappings info)) identity user (vi_ssh_user info) cmd)"
    using r by (auto simp: call_def split: prod.splits)
  from c i st p this show ?thesis by (rule that)
qed

section \<open>Properties\<close>

text \<open>
  A successful \<open>podvirt ssh\<close> has found the VM's container running and then, as its last event,
  run the \<open>ssh\<close> of the path against the VM's port on localhost: the port of the flag or else
  the host port of a mapping of guest port 22; as the user of the flag, or else the one the
  VM was created with; with the remote command unchanged at the end.
\<close>

lemma ssh_connects:
  assumes "run_ssh sys (vmname # cmd) user port identity s = (Inr u, s')"
  shows "\<exists>info s1 s2 bin p. new_podman_client sys s = (Inr (), s1)
    \<and> inspect_vm sys vmname s1 = (Inr info, s2) \<and> vi_state info = ''running''
    \<and> p \<noteq> 0 \<and> (if port \<noteq> 0 then p = port
         else \<exists>pm\<in>set (vi_port_mappings info). pm_container_port pm = 22 \<and> p = uint (pm_host_port pm))
    \<and> last (log s') = RunCommand bin
        ([''-4'', ''-o'', ''StrictHostKeyChecking=no'', ''-o'', ''UserKnownHostsFile=/dev/null'', ''-p'', format_int p]
         @ (if identity = [] then [] else [''-i'', identity])
         @ [(if user \<noteq> [] then user @ ''@'' else if vi_ssh_user info \<noteq> [] then vi_ssh_user info @ ''@'' else []) @ ''localhost'']
         @ cmd)"
  using assms
proof (rule run_ssh_Inr)
  fix info bin s1 s2
  assume i: "new_podman_client sys s = (Inr (), s1)" "inspect_vm sys vmname s1 = (Inr info, s2)" "vi_state info = ''running''"
    and p: "ssh_port port (vi_port_mappings info) \<noteq> 0"
    and l: "last (log s') = RunCommand bin (ssh_args (ssh_port port (vi_port_mappings info)) identity user (vi_ssh_user info) cmd)"
  let ?p = "ssh_port port (vi_port_mappings info)"
  have "if port \<noteq> 0 then ?p = port
     else \<exists>pm\<in>set (vi_port_mappings info). pm_container_port pm = 22 \<and> ?p = uint (pm_host_port pm)"
    using p ssh_port_find by (auto simp: ssh_port_def)
  then show ?thesis using i p l unfolding ssh_args_eq by metis
qed

lemma ssh_connects_witness:
  "\<exists>s' bin args. run_ssh sample_sys [''vm1'', ''uptime''] [] 0 [] (sample_st ''running'') = (Inr (), s')
     \<and> last (log s') = RunCommand bin (args @ [''uptime''])"
proof -
  obtain s' where r: "run_ssh sample_sys [''vm1'', ''uptime''] [] 0 [] (sample_st ''running'') = (Inr (), s')"
    by (simp add: sample_run guard_run run_ssh_def inspect_vm_def ssh_port_def vm_info_of_def sample_container_def label_of_def)
  show ?thesis using ssh_connects [OF r] r by auto
qed

end
