(* ===== verification/CmdCleanCache.thy ===== *)
theory CmdCleanCache
  imports CmdSsh
begin

text \<open>\<open>cmd/cleancache.go\<close>: the removal of the cached data below the user's cache directory.\<close>

definition cache_subdirs :: "string list" where
  "cache_subdirs = [''qemu-caps'', ''qemu-support'', ''libvirt-logs'', ''containerdisks'', ''resized-disks'']"

definition clean_targets :: "string \<Rightarrow> string list" where
  "clean_targets podvirt_cache = map (\<lambda>d. join_path [podvirt_cache, d]) cache_subdirs"

definition present_targets :: "'w sys \<Rightarrow> 'w \<Rightarrow> string \<Rightarrow> string list" where
  "present_targets sys w podvirt_cache = filter (\<lambda>t. os_stat sys w t = Inr ()) (clean_targets podvirt_cache)"

definition remove_target :: "'w sys \<Rightarrow> string \<Rightarrow> ('w st, unit) act" where
  "remove_target sys p =
     bindE (wrapE (\<lambda>e. Errorf ''removing %s: %w'' [FStr p, FErr e])
           (call (RemoveTree p) (os_remove_all sys p))) (\<lambda>_.
     say ''Removed %s\<newline>'' [FStr p])"

definition do_clean_cache :: "'w sys \<Rightarrow> string \<Rightarrow> bool \<Rightarrow> ('w st, unit) act" where
  "do_clean_cache sys podvirt_cache force =
     bindE (query (\<lambda>w. Inr (present_targets sys w podvirt_cache))) (\<lambda>present.
     if length present = 0 then say ''Nothing to clean.\<newline>'' []
     else
       bindE (say ''The following cache directories will be removed:\<newline>'' []) (\<lambda>_.
       bindE (forE present (\<lambda>p. say ''  %s\<newline>'' [FStr p])) (\<lambda>_.
       bindE (if \<not> force then confirm_action sys ''Proceed? [y/N] '' [] else ok True) (\<lambda>confirmed.
       if \<not> confirmed then say ''Aborted.\<newline>'' []
       else
         bindE (forE present (remove_target sys)) (\<lambda>_.
         say ''Cache cleaned.\<newline>'' []))))) "

definition run_clean_cache :: "'w sys \<Rightarrow> bool \<Rightarrow> ('w st, unit) act" where
  "run_clean_cache sys force =
     bindE (wrapE (\<lambda>e. Errorf ''locating cache dir: %w'' [FErr e]) (lift_res (user_cache_dir sys))) (\<lambda>cache_dir.
     do_clean_cache sys (join_path [cache_dir, ''podvirt'']) force)"

section \<open>Frames\<close>

lemma forward_do_clean_cache [forward_intros]: "forward (do_clean_cache sys c force)"
  unfolding do_clean_cache_def remove_target_def by (intro forward_intros)

text \<open>An event that changes nothing, or the removal of one of the given trees.\<close>

definition removes_only :: "string set \<Rightarrow> event \<Rightarrow> bool" where
  "removes_only ps e \<longleftrightarrow> \<not> changes e \<or> (\<exists>p\<in>ps. e = RemoveTree p)"

lemma only_forE_mem: "(\<And>x. x \<in> set xs \<Longrightarrow> only_events P (f x)) \<Longrightarrow> only_events P (forE xs f)"
  by (induction xs) (auto intro!: only_intros)

lemma only_remove_target: "p \<in> ps \<Longrightarrow> only_events (removes_only ps) (remove_target sys p)"
  unfolding remove_target_def by (intro only_intros) (auto simp: removes_only_def)

lemma only_confirm: "only_events (removes_only ps) (confirm_action sys prompt args)"
  by (rule only_mono [OF confirm_no_changes]) (simp add: removes_only_def)

lemma present_targets_sub: "set (present_targets sys w c) \<subseteq> set (clean_targets c)"
  by (auto simp: present_targets_def)

lemma present_targets_stat: "p \<in> set (present_targets sys w c) \<Longrightarrow> os_stat sys w p = Inr ()"
  by (auto simp: present_targets_def)

text \<open>Each removal leaves its event and its message; the first error ends the sequence.\<close>

lemma remove_all_log:
  "forE ps (remove_target sys) s = (Inr us, s') \<Longrightarrow>
     log s' = log s @ concat (map (\<lambda>p. [RemoveTree p, Stdout ''Removed %s\<newline>'' [FStr p]]) ps)"
proof (induction ps arbitrary: s us)
  case (Cons p ps)
  then obtain s1 us' where "remove_target sys p s = (Inr (), s1)"
    and rest: "forE ps (remove_target sys) s1 = (Inr us', s')"
    by (auto elim!: bindE_Inr_E)
  then have "log s1 = log s @ [RemoveTree p, Stdout ''Removed %s\<newline>'' [FStr p]]"
    unfolding remove_target_def
    by (auto simp: run_bindE run_wrapE call_def say_def emit_def split: prod.splits sum.splits)
  then show ?case using Cons.IH [OF rest] by simp
qed simp

section \<open>Properties\<close>

text \<open>
  C36: Whatever happens, \<open>clean-cache\<close> changes nothing but five fixed directories directly below
  the podvirt cache: with a cache directory that is an absolute path of plain components,
  every change is the removal of \<open><cache>/podvirt/<one of the five>\<close>, which existed when the
  command began.
\<close>

theorem clean_cache_confined:
  assumes "user_cache_dir sys = Inr (abs_path cs)" and "cs \<noteq> []" and "list_all plain cs"
  shows "\<exists>t. log (snd (run_clean_cache sys force s)) = log s @ t
    \<and> (\<forall>e\<in>set t. changes e \<longrightarrow>
         (\<exists>d\<in>set cache_subdirs. e = RemoveTree (abs_path (cs @ [''podvirt'', d]))
            \<and> os_stat sys (ext s) (abs_path (cs @ [''podvirt'', d])) = Inr ()))"
proof -
  let ?c = "join_path [abs_path cs, ''podvirt'']"
  let ?present = "present_targets sys (ext s) ?c"
  have pv: "plain ''podvirt''" by (simp add: plain_def)
  have c: "?c = abs_path (cs @ [''podvirt''])"
    using join_path_plain [of cs "[''podvirt'']"] assms pv by simp
  have target: "join_path [?c, d] = abs_path (cs @ [''podvirt'', d])" if "d \<in> set cache_subdirs" for d
  proof -
    have "plain d" using that by (auto simp: cache_subdirs_def plain_def)
    then show ?thesis
      using join_path_plain [of "cs @ [''podvirt'']" "[d]"] assms pv unfolding c by simp
  qed
  have run: "run_clean_cache sys force s = do_clean_cache sys ?c force s"
    using assms(1) by (simp add: run_clean_cache_def run_bindE run_wrapE)
  have "\<exists>t. log (snd (do_clean_cache sys ?c force s)) = log s @ t \<and> list_all (removes_only (set ?present)) t"
  proof -
    have rm: "only_events (removes_only (set ?present)) (forE ?present (remove_target sys))"
      by (rule only_forE_mem) (rule only_remove_target)
    have "only_events (removes_only (set ?present))
      (if length ?present = 0 then say ''Nothing to clean.\<newline>'' []
       else
         bindE (say ''The following cache directories will be removed:\<newline>'' []) (\<lambda>_.
         bindE (forE ?present (\<lambda>p. say ''  %s\<newline>'' [FStr p])) (\<lambda>_.
         bindE (if \<not> force then confirm_action sys ''Proceed? [y/N] '' [] else ok True) (\<lambda>confirmed.
         if \<not> confirmed then say ''Aborted.\<newline>'' []
         else bindE (forE ?present (remove_target sys)) (\<lambda>_. say ''Cache cleaned.\<newline>'' [])))))"
      by (intro only_if only_bindE rm only_confirm only_intros; simp add: removes_only_def)
    then show ?thesis
      unfolding do_clean_cache_def only_events_def by (simp add: run_bindE query_def)
  qed
  then obtain t where t: "log (snd (do_clean_cache sys ?c force s)) = log s @ t"
    and only: "list_all (removes_only (set ?present)) t" by blast
  have "\<exists>d\<in>set cache_subdirs. e = RemoveTree (abs_path (cs @ [''podvirt'', d]))
            \<and> os_stat sys (ext s) (abs_path (cs @ [''podvirt'', d])) = Inr ()"
    if e: "e \<in> set t" and ch: "changes e" for e
  proof -
    obtain p where p: "p \<in> set ?present" "e = RemoveTree p"
      using only e ch by (auto simp: list_all_iff removes_only_def)
    then obtain d where "d \<in> set cache_subdirs" "p = join_path [?c, d]"
      using present_targets_sub by (fastforce simp: clean_targets_def)
    then show ?thesis using p present_targets_stat target by metis
  qed
  then show ?thesis using t run by auto
qed

theorem clean_cache_confined_witness:
  "\<exists>t. log (snd (run_clean_cache sample_sys True (sample_st []))) = t
    \<and> (\<forall>e\<in>set t. changes e \<longrightarrow>
         (\<exists>d\<in>set cache_subdirs. e = RemoveTree (abs_path ([''home'', ''u'', ''.cache''] @ [''podvirt'', d]))))"
proof -
  have c: "user_cache_dir sample_sys = Inr (abs_path [''home'', ''u'', ''.cache''])"
    by (simp add: user_cache_dir_def sample_run abs_path_def)
  have "list_all plain [''home'', ''u'', ''.cache'']" by (simp add: plain_def)
  from clean_cache_confined [OF c _ this, of True "sample_st []"] show ?thesis
    by (auto simp: sample_st_def)
qed

text \<open>
  Once confirmed, a successful clean removes every one of the five directories that exists,
  each once, in the order in which they were announced.
\<close>

lemma clean_cache_complete:
  assumes "do_clean_cache sys c True s = (Inr u, s')" and "present_targets sys (ext s) c \<noteq> []"
  shows "\<exists>t. log s' = log s @ t \<and>
    map (\<lambda>e. case e of RemoveTree p \<Rightarrow> p | _ \<Rightarrow> []) (filter changes t) = present_targets sys (ext s) c"
proof -
  let ?ps = "present_targets sys (ext s) c"
  have "bindE (say ''The following cache directories will be removed:\<newline>'' []) (\<lambda>_.
      bindE (forE ?ps (\<lambda>p. say ''  %s\<newline>'' [FStr p])) (\<lambda>_.
      bindE (forE ?ps (remove_target sys)) (\<lambda>_. say ''Cache cleaned.\<newline>'' []))) s = (Inr u, s')"
    using assms unfolding do_clean_cache_def run_query_bindE by simp
  then obtain v s1 where
    a: "say ''The following cache directories will be removed:\<newline>'' [] s = (Inr v, s1)" and
    r1: "bindE (forE ?ps (\<lambda>p. say ''  %s\<newline>'' [FStr p])) (\<lambda>_.
      bindE (forE ?ps (remove_target sys)) (\<lambda>_. say ''Cache cleaned.\<newline>'' [])) s1 = (Inr u, s')"
    by (rule bindE_Inr_E)
  from r1 obtain us s2 where
    b: "forE ?ps (\<lambda>p. say ''  %s\<newline>'' [FStr p]) s1 = (Inr us, s2)" and
    r2: "bindE (forE ?ps (remove_target sys)) (\<lambda>_. say ''Cache cleaned.\<newline>'' []) s2 = (Inr u, s')"
    by (rule bindE_Inr_E)
  from r2 obtain us' s3 where
    d: "forE ?ps (remove_target sys) s2 = (Inr us', s3)" and
    e: "say ''Cache cleaned.\<newline>'' [] s3 = (Inr u, s')"
    by (rule bindE_Inr_E)
  have q: "only_events (\<lambda>e. \<not> changes e) (forE ?ps (\<lambda>p. say ''  %s\<newline>'' [FStr p]))"
    by (intro only_intros) simp
  from only_eventsD [OF q b] obtain t where
    t: "log s2 = log s1 @ t" "list_all (\<lambda>e. \<not> changes e) t" by blast
  have f: "filter changes t = []" using t(2) by (auto simp: list_all_iff)
  have "log s' = log s @ [Stdout ''The following cache directories will be removed:\<newline>'' []] @ t
      @ concat (map (\<lambda>p. [RemoveTree p, Stdout ''Removed %s\<newline>'' [FStr p]]) ?ps)
      @ [Stdout ''Cache cleaned.\<newline>'' []]"
    using a e t remove_all_log [OF d] by (auto simp: say_def emit_def)
  moreover have "map (\<lambda>e. case e of RemoveTree p \<Rightarrow> p | _ \<Rightarrow> [])
      (filter changes (concat (map (\<lambda>p. [RemoveTree p, Stdout ''Removed %s\<newline>'' [FStr p]]) ps))) = ps" for ps
    by (induction ps) auto
  ultimately show ?thesis by (auto simp: f)
qed

lemma clean_cache_complete_witness:
  "\<exists>s' t. do_clean_cache sample_sys ''/c'' True (sample_st []) = (Inr (), s')
     \<and> map (\<lambda>e. case e of RemoveTree p \<Rightarrow> p | _ \<Rightarrow> []) (filter changes t) = clean_targets ''/c''"
proof -
  have p: "present_targets sample_sys (ext (sample_st [])) ''/c'' = clean_targets ''/c''"
    by (simp add: present_targets_def sample_sys_def)
  obtain s' where r: "do_clean_cache sample_sys ''/c'' True (sample_st []) = (Inr (), s')"
    by (simp add: do_clean_cache_def remove_target_def sample_run present_targets_def clean_targets_def cache_subdirs_def)
  have "clean_targets ''/c'' \<noteq> []" by (simp add: clean_targets_def cache_subdirs_def)
  then show ?thesis using clean_cache_complete [OF r] r p by auto
qed

end
