(* ===== verification/Quantity.thy ===== *)
theory Quantity
  imports ConfigTypes
begin

text \<open>
  \<open>ParseQuantityBytes\<close> of \<open>pkg/config/quantity.go\<close>: sizes such as \<open>2Gi\<close> or \<open>500M\<close> as a
  number of bytes in a \<open>uint64\<close>. The product of number and unit wraps around at \<open>2^64\<close>,
  as it does in the code.
\<close>

definition quantity_suffixes :: "(string \<times> u64) list" where
  "quantity_suffixes =
    [(''Ti'', push_bit 40 1), (''Gi'', push_bit 30 1), (''Mi'', push_bit 20 1), (''Ki'', push_bit 10 1),
     (''T'', 1000 * 1000 * 1000 * 1000), (''G'', 1000 * 1000 * 1000), (''M'', 1000 * 1000), (''K'', 1000)]"

definition invalid_quantity :: "string \<Rightarrow> go_error" where
  "invalid_quantity s = Errorf ''invalid quantity %q'' [FStr s]"

definition parse_quantity_bytes :: "string \<Rightarrow> go_error + u64" where
  "parse_quantity_bytes s0 =
     (let s = trim_space s0
      in if s = [] then Inl (Errorf ''empty quantity'' [])
         else case find (\<lambda>(suf, m). suffix suf s) quantity_suffixes of
           Some (suf, m) \<Rightarrow>
             (case parse_uint (trim_suffix s suf) of
                Inl e \<Rightarrow> Inl (invalid_quantity s)
              | Inr val \<Rightarrow> if val = 0 then Inl (invalid_quantity s) else Inr (val * m))
         | None \<Rightarrow>
             (case parse_uint s of
                Inl e \<Rightarrow> Inl (invalid_quantity s)
              | Inr val \<Rightarrow> if val = 0 then Inl (invalid_quantity s) else Inr val))"

section \<open>The table as an interface\<close>

text \<open>
  What the loop over the table relies on: no entry's suffix is empty or ends in a digit,
  and no two entries can match the same string. Under this contract the order of the
  entries does not matter and every number has one reading.
\<close>

locale suffix_table =
  fixes table :: "(string \<times> 'm) list"
  assumes nonempty: "(suf, m) \<in> set table \<Longrightarrow> suf \<noteq> []"
    and no_digit: "(suf, m) \<in> set table \<Longrightarrow> \<not> is_digit (last suf)"
    and hd_no_digit: "(suf, m) \<in> set table \<Longrightarrow> \<not> is_digit (hd suf)"
    and exclusive: "(suf, m) \<in> set table \<Longrightarrow> (suf', m') \<in> set table \<Longrightarrow> suffix suf suf' \<Longrightarrow>
      suf = suf' \<and> m = m'"
begin

lemma unique:
  assumes "(suf, m) \<in> set table" and "(suf', m') \<in> set table"
    and "suffix suf s" and "suffix suf' s"
  shows "suf = suf' \<and> m = m'"
  using suffix_same_cases [OF assms(3,4)] exclusive assms(1,2) by blast

lemma find_suffix:
  assumes "(suf, m) \<in> set table" and "suffix suf s"
  shows "find (\<lambda>(suf, m). suffix suf s) table = Some (suf, m)"
proof (cases "find (\<lambda>(suf, m). suffix suf s) table")
  case None
  then show ?thesis using assms by (auto simp: find_None_iff)
next
  case (Some e)
  obtain suf' m' where e: "e = (suf', m')" by fastforce
  with Some have "(suf', m') \<in> set table" and "suffix suf' s"
    by (auto dest: find_SomeD)
  then show ?thesis using unique assms Some e by blast
qed

lemma find_digits:
  assumes "list_all is_digit s" and "s \<noteq> []"
  shows "find (\<lambda>(suf, m). suffix suf s) table = None"
  unfolding find_None_iff
proof
  assume "\<exists>e. e \<in> set table \<and> (case e of (suf, m) \<Rightarrow> suffix suf s)"
  then obtain suf m where t: "(suf, m) \<in> set table" and "suffix suf s" by auto
  then have "last s = last suf"
    using nonempty by (auto simp: suffix_def)
  then have "\<not> is_digit (last s)" using no_digit t by simp
  then show False using assms by (simp add: list_all_iff)
qed

lemma find_Some_cases:
  assumes "find (\<lambda>(suf, m). suffix suf s) table = Some (suf, m)"
  shows "(suf, m) \<in> set table \<and> suffix suf s"
  using assms by (auto dest: find_SomeD)

lemma permute:
  assumes "set table' = set table"
  shows "find (\<lambda>(suf, m). suffix suf s) table' = find (\<lambda>(suf, m). suffix suf s) table"
proof (cases "find (\<lambda>(suf, m). suffix suf s) table'")
  case None
  then have "find (\<lambda>(suf, m). suffix suf s) table = None"
    using assms by (simp add: find_None_iff)
  with None show ?thesis by simp
next
  case (Some e)
  obtain suf m where e: "e = (suf, m)" by fastforce
  with Some have "(suf, m) \<in> set table'" and "suffix suf s" by (auto dest: find_SomeD)
  then have "find (\<lambda>(suf, m). suffix suf s) table = Some (suf, m)"
    using assms by (intro find_suffix) auto
  with Some e show ?thesis by simp
qed

end

interpretation units: suffix_table quantity_suffixes
proof unfold_locales
  fix suf suf' :: string and m m' :: u64
  assume "(suf, m) \<in> set quantity_suffixes" and "(suf', m') \<in> set quantity_suffixes"
    and "suffix suf suf'"
  then show "suf = suf' \<and> m = m'"
    by (auto simp: quantity_suffixes_def suffix_Cons)
qed (auto simp: quantity_suffixes_def is_digit_def)

section \<open>What is accepted, and with which value\<close>

text \<open>The unit \<open>1\<close> stands for a plain number.\<close>

definition quantity_units :: "(string \<times> u64) list" where
  "quantity_units = ([], 1) # quantity_suffixes"

lemma unit_not_space:
  "\<not> space_byte CHR ''i''" "\<not> space_byte CHR ''T''" "\<not> space_byte CHR ''G''"
  "\<not> space_byte CHR ''M''" "\<not> space_byte CHR ''K''"
  by (simp_all add: space_byte_def space_runes_def)

lemma digits_suffix_trim:
  assumes "(suf, m) \<in> set quantity_units" and "list_all is_digit ds" and "ds \<noteq> []"
  shows "trim_space (ds @ suf) = ds @ suf"
proof (rule trim_space_no_space)
  show "ds @ suf \<noteq> []" using assms by simp
  show "\<not> space_byte (hd (ds @ suf))"
    using assms by (auto simp: is_digit_space list_all_iff)
  show "\<not> space_byte (last (ds @ suf))"
  proof (cases "suf = []")
    case True
    then show ?thesis using assms by (auto simp: is_digit_space list_all_iff)
  next
    case False
    then have "\<not> space_byte (last suf)"
      using assms(1) by (auto simp: quantity_units_def quantity_suffixes_def unit_not_space)
    then show ?thesis using False by simp
  qed
qed

lemma parse_quantity_digits:
  assumes u: "(suf, m) \<in> set quantity_units" and d: "list_all is_digit ds" "ds \<noteq> []"
    and s: "trim_space s = ds @ suf"
    and v: "0 < digits_value ds" "digits_value ds < 2 ^ 64"
  shows "parse_quantity_bytes s = Inr (word_of_nat (digits_value ds) * m)"
proof -
  have p: "parse_uint ds = Inr (word_of_nat (digits_value ds))"
    using d v by (simp add: parse_uint_Inr)
  have nz: "(word_of_nat (digits_value ds) :: u64) \<noteq> 0"
  proof
    assume "(word_of_nat (digits_value ds) :: u64) = 0"
    then have "unat (word_of_nat (digits_value ds) :: u64) = 0" by simp
    then show False using v by (simp add: unat_word_of_nat)
  qed
  show ?thesis
  proof (cases "suf = []")
    case True
    then have "m = 1" using u by (auto simp: quantity_units_def quantity_suffixes_def)
    with True p nz d s show ?thesis
      by (simp add: parse_quantity_bytes_def Let_def units.find_digits)
  next
    case False
    then have "(suf, m) \<in> set quantity_suffixes" using u by (auto simp: quantity_units_def)
    then have "find (\<lambda>(suf', m). suffix suf' (ds @ suf)) quantity_suffixes = Some (suf, m)"
      by (intro units.find_suffix) (auto simp: suffix_def)
    with p nz d s show ?thesis
      by (simp add: parse_quantity_bytes_def Let_def)
  qed
qed

text \<open>The converse: an accepted string is a number and a unit, and its value is their product.\<close>

lemma parse_quantity_Inr:
  assumes "parse_quantity_bytes s = Inr v"
  obtains ds suf m where "(suf, m) \<in> set quantity_units" and "list_all is_digit ds" and "ds \<noteq> []"
    and "trim_space s = ds @ suf" and "0 < digits_value ds" and "digits_value ds < 2 ^ 64"
    and "v = word_of_nat (digits_value ds) * m"
proof -
  let ?t = "trim_space s"
  let ?f = "find (\<lambda>(suf, m). suffix suf ?t) quantity_suffixes"
  obtain ds suf m where u: "(suf, m) \<in> set quantity_units" and t: "?t = ds @ suf"
    and p: "\<exists>val. parse_uint ds = Inr val \<and> val \<noteq> 0 \<and> v = val * m"
  proof (cases ?f)
    case None
    then have "\<exists>val. parse_uint ?t = Inr val \<and> val \<noteq> 0 \<and> v = val * 1"
      using assms by (auto simp: parse_quantity_bytes_def Let_def split: if_splits sum.splits)
    then show ?thesis
      using that [of "[]" 1 ?t] by (simp add: quantity_units_def)
  next
    case (Some e)
    obtain suf m where e: "e = (suf, m)" by fastforce
    then have mem: "(suf, m) \<in> set quantity_suffixes" and sf: "suffix suf ?t"
      using units.find_Some_cases Some by blast+
    have "\<exists>val. parse_uint (trim_suffix ?t suf) = Inr val \<and> val \<noteq> 0 \<and> v = val * m"
      using assms Some e by (auto simp: parse_quantity_bytes_def Let_def split: if_splits sum.splits)
    moreover have "?t = trim_suffix ?t suf @ suf"
      using sf by (auto simp: suffix_def)
    ultimately show ?thesis
      using that mem by (auto simp: quantity_units_def)
  qed
  from p obtain val where val: "parse_uint ds = Inr val" "val \<noteq> 0" "v = val * m" by blast
  then have "0 < unat val" by (simp add: unat_gt_0)
  with val(1) have "0 < digits_value ds" by (simp add: parse_uint_unat)
  then show ?thesis
    using that [OF u _ _ t] val by (auto simp: parse_uint_Inr)
qed

lemma quantity_unit_value:
  "(suf, m) \<in> set quantity_units \<Longrightarrow> unat m \<in>
     {1, 2 ^ 40, 2 ^ 30, 2 ^ 20, 2 ^ 10, 10 ^ 12, 10 ^ 9, 10 ^ 6, 10 ^ 3}"
  by (auto simp: quantity_units_def quantity_suffixes_def)

text \<open>What a printed number followed by a unit is read as.\<close>

lemma parse_quantity_printed:
  assumes u: "(suf, m) \<in> set quantity_units" and "0 < n" and "n < 2 ^ 64"
  shows "parse_quantity_bytes (format_uint n @ suf) = Inr (word_of_nat n * m)"
proof -
  have t: "trim_space (format_uint n @ suf) = format_uint n @ suf"
    by (rule digits_suffix_trim [OF u]) simp_all
  show ?thesis using parse_quantity_digits [OF u _ _ t] assms by simp
qed

section \<open>Properties\<close>

text \<open>
  C10: A size is accepted exactly when, white space around it aside, it is a positive decimal
  number below \<open>2^64\<close> followed by one of the units or by nothing, and its value is number
  times unit modulo \<open>2^64\<close>. Every other string is an error.
\<close>

theorem parse_quantity_iff:
  "parse_quantity_bytes s = Inr v \<longleftrightarrow>
     (\<exists>ds suf m. (suf, m) \<in> set quantity_units \<and> list_all is_digit ds \<and> ds \<noteq> []
        \<and> trim_space s = ds @ suf \<and> 0 < digits_value ds \<and> digits_value ds < 2 ^ 64
        \<and> v = word_of_nat (digits_value ds) * m)"
  using parse_quantity_digits by (blast elim: parse_quantity_Inr)

text \<open>
  C39: When the product of number and unit fits in 64 bits, the accepted size is exactly that
  many bytes.
\<close>

theorem parse_quantity_exact:
  assumes "(suf, m) \<in> set quantity_units" and "0 < n" and "n * unat m < 2 ^ 64"
  shows "\<exists>v. parse_quantity_bytes (format_uint n @ suf) = Inr v \<and> unat v = n * unat m"
proof -
  have "0 < unat m" using quantity_unit_value [OF assms(1)] by auto
  then have "n * 1 \<le> n * unat m" by (intro mult_le_mono2) simp
  then have n: "n < 2 ^ 64" using assms(3) by linarith
  then have "parse_quantity_bytes (format_uint n @ suf) = Inr (word_of_nat n * m)"
    using assms by (intro parse_quantity_printed)
  moreover have "unat (word_of_nat n * m) = n * unat m"
    using assms(3) n by (simp add: unat_word_ariths unat_word_of_nat)
  ultimately show ?thesis by simp
qed

theorem parse_quantity_exact_witness:
  "\<exists>v. parse_quantity_bytes (format_uint 20 @ ''Gi'') = Inr v \<and> unat v = 20 * 2 ^ 30"
proof -
  have u: "unat (push_bit 30 1 :: u64) = 2 ^ 30" by simp
  have "(''Gi'', push_bit 30 1) \<in> set quantity_units"
    by (simp add: quantity_units_def quantity_suffixes_def)
  from parse_quantity_exact [OF this, of 20] show ?thesis unfolding u by simp
qed


end
