(* ===== verification/NameRegex.thy ===== *)
theory NameRegex
  imports Prelude
begin

text \<open>
  The regular expression that \<open>pkg/config/validator.go\<close> compiles for VM names, as a term
  of a small syntax for Go's package \<open>regexp\<close> (character classes, sequence,
  alternative, bounded repetition and the two anchors), with an executable matcher, and
  the proof that it accepts exactly the DNS labels.
\<close>

section \<open>Syntax and matcher\<close>

datatype regex =
    Class "(char \<times> char) list"
  | Seq regex regex
  | Alt regex regex
  | Repeat regex nat nat
  | TextBegin
  | TextEnd

definition in_class :: "(char \<times> char) list \<Rightarrow> char \<Rightarrow> bool" where
  "in_class rs c \<longleftrightarrow> list_ex (\<lambda>(a, b). (of_char a :: nat) \<le> of_char c \<and> (of_char c :: nat) \<le> of_char b) rs"

text \<open>
  A position in the text is what is left of it, with a flag that says whether nothing has
  been read yet. \<open>rems r p\<close> lists the positions at which a match of \<open>r\<close> from \<open>p\<close> can end.
\<close>

type_synonym pos = "bool \<times> string"

fun rep_rems :: "(pos \<Rightarrow> pos list) \<Rightarrow> nat \<Rightarrow> nat \<Rightarrow> pos \<Rightarrow> pos list" where
  "rep_rems f (Suc m) n p = (case n of 0 \<Rightarrow> [] | Suc k \<Rightarrow> concat (map (rep_rems f m k) (f p)))"
| "rep_rems f 0 0 p = [p]"
| "rep_rems f 0 (Suc n) p = concat (map (rep_rems f 0 n) (f p)) @ [p]"

fun rems :: "regex \<Rightarrow> pos \<Rightarrow> pos list" where
  "rems (Class rs) (b, s) = (case s of [] \<Rightarrow> [] | c # cs \<Rightarrow> if in_class rs c then [(False, cs)] else [])"
| "rems (Seq r1 r2) p = concat (map (rems r2) (rems r1 p))"
| "rems (Alt r1 r2) p = rems r1 p @ rems r2 p"
| "rems (Repeat r m n) p = rep_rems (rems r) m n p"
| "rems TextBegin (b, s) = (if b then [(b, s)] else [])"
| "rems TextEnd (b, s) = (if s = [] then [(b, s)] else [])"

text \<open>\<open>Regexp.MatchString\<close>: a match somewhere in the text.\<close>

definition match_string :: "regex \<Rightarrow> string \<Rightarrow> bool" where
  "match_string r s \<longleftrightarrow> list_ex (\<lambda>i. rems r (i = 0, drop i s) \<noteq> []) [0..<Suc (length s)]"

section \<open>The expression of the code\<close>

definition alnum_class :: "(char \<times> char) list" where
  "alnum_class = [(CHR ''a'', CHR ''z''), (CHR ''0'', CHR ''9'')]"

definition alnum_dash_class :: "(char \<times> char) list" where
  "alnum_dash_class = [(CHR ''a'', CHR ''z''), (CHR ''0'', CHR ''9''), (CHR ''-'', CHR ''-'')]"

definition valid_name_re :: regex where
  "valid_name_re =
     Alt (Seq TextBegin
           (Seq (Class alnum_class)
             (Seq (Repeat (Class alnum_dash_class) 0 61) (Seq (Class alnum_class) TextEnd))))
         (Seq TextBegin (Seq (Class alnum_class) TextEnd))"

section \<open>DNS labels\<close>

abbreviation alnum :: "char \<Rightarrow> bool" where
  "alnum \<equiv> in_class alnum_class"

text \<open>
  At most 63 bytes, all of them lower-case letters, digits or hyphens, and a letter or a
  digit at both ends.
\<close>

definition dns_label :: "string \<Rightarrow> bool" where
  "dns_label s \<longleftrightarrow> s \<noteq> [] \<and> length s \<le> 63 \<and> list_all (\<lambda>c. alnum c \<or> c = CHR ''-'') s \<and>
     alnum (hd s) \<and> alnum (last s)"

lemma in_alnum_dash: "in_class alnum_dash_class c \<longleftrightarrow> alnum c \<or> c = CHR ''-''"
proof -
  have "(of_char CHR ''-'' :: nat) = 45" by simp
  then have "(of_char c :: nat) = 45 \<longleftrightarrow> c = CHR ''-''"
    by (metis of_char_eq_iff)
  then show ?thesis
    by (auto simp: in_class_def alnum_class_def alnum_dash_class_def)
qed

lemma rep_class:
  "(b', s') \<in> set (rep_rems (rems (Class rs)) 0 n (b, s)) \<longleftrightarrow>
     (\<exists>w. s = w @ s' \<and> length w \<le> n \<and> list_all (in_class rs) w \<and> b' = (b \<and> w = []))"
proof (induction n arbitrary: b s)
  case 0
  then show ?case by auto
next
  case (Suc n)
  show ?case
  proof (cases s)
    case Nil
    then show ?thesis by auto
  next
    case (Cons c cs)
    have "(b', s') \<in> set (rep_rems (rems (Class rs)) 0 (Suc n) (b, s)) \<longleftrightarrow>
        (in_class rs c \<and> (b', s') \<in> set (rep_rems (rems (Class rs)) 0 n (False, cs))) \<or> (b', s') = (b, s)"
      using Cons by auto
    also have "\<dots> \<longleftrightarrow> (\<exists>w. s = w @ s' \<and> length w \<le> Suc n \<and> list_all (in_class rs) w \<and> b' = (b \<and> w = []))"
      (is "?l \<longleftrightarrow> (\<exists>w. ?r w)")
    proof
      assume ?l
      then show "\<exists>w. ?r w"
      proof
        assume "in_class rs c \<and> (b', s') \<in> set (rep_rems (rems (Class rs)) 0 n (False, cs))"
        then obtain w where "in_class rs c" "cs = w @ s'" "length w \<le> n" "list_all (in_class rs) w" "\<not> b'"
          using Suc.IH by auto
        then have "?r (c # w)" using Cons by simp
        then show ?thesis ..
      next
        assume "(b', s') = (b, s)"
        then have "?r []" by simp
        then show ?thesis ..
      qed
    next
      assume "\<exists>w. ?r w"
      then obtain w where w: "?r w" ..
      then show ?l
        using Cons Suc.IH by (cases w) auto
    qed
    finally show ?thesis .
  qed
qed

lemma rems_name_long:
  "rems (Seq TextBegin (Seq (Class alnum_class)
     (Seq (Repeat (Class alnum_dash_class) 0 61) (Seq (Class alnum_class) TextEnd)))) (b, s) \<noteq> [] \<longleftrightarrow>
   b \<and> (\<exists>c w d. s = c # w @ [d] \<and> alnum c \<and> length w \<le> 61 \<and> list_all (in_class alnum_dash_class) w \<and> alnum d)"
  (is "?l \<longleftrightarrow> b \<and> ?r")
proof -
  have fin: "rems (Seq (Class alnum_class) TextEnd) q \<noteq> [] \<longleftrightarrow> (\<exists>d. snd q = [d] \<and> alnum d)" for q
    by (cases q; cases "snd q") auto
  have rep: "(\<exists>q\<in>set (rep_rems (rems (Class alnum_dash_class)) 0 61 (False, cs)).
        rems (Seq (Class alnum_class) TextEnd) q \<noteq> []) \<longleftrightarrow>
      (\<exists>w d. cs = w @ [d] \<and> length w \<le> 61 \<and> list_all (in_class alnum_dash_class) w \<and> alnum d)"
    (is "?a cs \<longleftrightarrow> ?b cs") for cs
  proof
    assume "?a cs"
    then obtain b' s' where "(b', s') \<in> set (rep_rems (rems (Class alnum_dash_class)) 0 61 (False, cs))"
      and "rems (Seq (Class alnum_class) TextEnd) (b', s') \<noteq> []" by (metis surj_pair)
    then show "?b cs" unfolding rep_class fin by auto
  next
    assume "?b cs"
    then obtain w d where "cs = w @ [d]" "length w \<le> 61" "list_all (in_class alnum_dash_class) w" "alnum d"
      by blast
    then have "(False, [d]) \<in> set (rep_rems (rems (Class alnum_dash_class)) 0 61 (False, cs))"
      and "rems (Seq (Class alnum_class) TextEnd) (False, [d]) \<noteq> []"
      unfolding rep_class fin by auto
    then show "?a cs" by blast
  qed
  have "?l \<longleftrightarrow> b \<and> (\<exists>c cs. s = c # cs \<and> alnum c \<and>
      (\<exists>q\<in>set (rep_rems (rems (Class alnum_dash_class)) 0 61 (False, cs)).
        rems (Seq (Class alnum_class) TextEnd) q \<noteq> []))"
    by (cases s) auto
  then show ?thesis unfolding rep by blast
qed

lemma rems_name_short:
  "rems (Seq TextBegin (Seq (Class alnum_class) TextEnd)) (b, s) \<noteq> [] \<longleftrightarrow> b \<and> (\<exists>c. s = [c] \<and> alnum c)"
  by (cases s) auto

lemma rems_valid_name:
  "rems valid_name_re (b, s) \<noteq> [] \<longleftrightarrow> b \<and>
     ((\<exists>c w d. s = c # w @ [d] \<and> alnum c \<and> length w \<le> 61 \<and> list_all (in_class alnum_dash_class) w \<and> alnum d)
      \<or> (\<exists>c. s = [c] \<and> alnum c))"
  unfolding valid_name_re_def rems.simps(3) append_is_Nil_conv de_Morgan_conj
    rems_name_long rems_name_short by blast

lemma match_valid_name: "match_string valid_name_re s \<longleftrightarrow> dns_label s"
proof -
  have "match_string valid_name_re s \<longleftrightarrow> rems valid_name_re (True, s) \<noteq> []"
  proof -
    have "rems valid_name_re (i = 0, drop i s) \<noteq> [] \<longleftrightarrow> i = 0 \<and> rems valid_name_re (True, s) \<noteq> []" for i
      by (cases "i = 0") (simp_all add: rems_valid_name)
    then show ?thesis
      unfolding match_string_def list_ex_iff by auto
  qed
  also have "\<dots> \<longleftrightarrow> dns_label s"
  proof (cases s)
    case Nil
    then show ?thesis by (simp add: dns_label_def rems_valid_name)
  next
    case (Cons c t)
    then show ?thesis
      by (cases t rule: rev_cases)
        (auto simp: dns_label_def rems_valid_name list_all_iff in_alnum_dash)
  qed
  finally show ?thesis .
qed

end
