(* ===== verification/Validator.thy ===== *)
theory Validator
  imports Quantity NameRegex
begin

text \<open>
  \<open>pkg/config/validator.go\<close>. \<open>Validate\<close> collects every complaint about a configuration and
  reports them together; it reads the disk through \<open>os.Stat\<close>, of which it only uses
  whether \<open>os.IsNotExist\<close> holds. That question is the argument \<open>missing\<close>.
\<close>

definition complain :: "bool \<Rightarrow> 'a \<Rightarrow> 'a list" where
  "complain b x = (if b then [x] else [])"

lemma complain_Nil [simp]: "complain b x = [] \<longleftrightarrow> \<not> b"
  by (simp add: complain_def)

lemma set_complain [simp]: "set (complain b x) = (if b then {x} else {})"
  by (cases b) (simp_all add: complain_def)

section \<open>Validate\<close>

definition validate_memory :: "string \<Rightarrow> go_error option" where
  "validate_memory mem =
     (case parse_quantity_bytes mem of
        Inl e \<Rightarrow> Some (Errorf ''%v (expected e.g. 2Gi, 512Mi)'' [FErr e])
      | Inr v \<Rightarrow> None)"

definition validate_name :: "string \<Rightarrow> go_error list" where
  "validate_name name =
     (if name = [] then [Errorf ''metadata.name is required'' []]
      else complain (\<not> match_string valid_name_re name)
        (Errorf ''metadata.name must be lowercase alphanumeric and hyphens only (max 63 chars)'' []))"

definition validate_cores :: "u32 \<Rightarrow> go_error list" where
  "validate_cores cores =
     (if cores = 0 then [Errorf ''spec.cpu.cores must be >= 1'' []]
      else complain (256 < cores) (Errorf ''spec.cpu.cores must be <= 256'' []))"

definition validate_mem :: "string \<Rightarrow> go_error list" where
  "validate_mem mem =
     (if mem = [] then [Errorf ''spec.memory is required'' []]
      else case validate_memory mem of
        None \<Rightarrow> []
      | Some e \<Rightarrow> [Errorf ''spec.memory: %v'' [FErr e]])"

definition validate_disk :: "(string \<Rightarrow> bool) \<Rightarrow> nat \<Rightarrow> disk_spec \<Rightarrow> go_error list" where
  "validate_disk missing i disk =
     (let prefix = Errorf ''spec.disks[%d] (%s)'' [FNat i, FStr (disk_name disk)];
          image = disk_image disk;
          container = disk_container_image disk
      in complain (disk_name disk = []) (Errorf ''spec.disks[%d].name is required'' [FNat i])
       @ complain (image = [] \<and> container = [])
           (Errorf ''%s: source.image or source.containerImage is required'' [FErr prefix])
       @ complain (image \<noteq> [] \<and> container \<noteq> [])
           (Errorf ''%s: only one of source.image or source.containerImage may be set'' [FErr prefix])
       @ complain (image \<noteq> [] \<and> missing image)
           (Errorf ''%s: disk image not found: %s'' [FErr prefix, FStr image])
       @ (if disk_size disk \<noteq> [] then
            (case parse_quantity_bytes (disk_size disk) of
               Inl e \<Rightarrow> [Errorf ''%s: invalid size %q (%v)'' [FErr prefix, FStr (disk_size disk), FErr e]]
             | Inr v \<Rightarrow> [])
          else [])
       @ complain (disk_bus disk \<noteq> [] \<and> disk_bus disk \<noteq> ''virtio'' \<and> disk_bus disk \<noteq> ''sata'' \<and> disk_bus disk \<noteq> ''scsi'')
           (Errorf ''%s: invalid bus %q (must be virtio, sata, or scsi)'' [FErr prefix, FStr (disk_bus disk)]))"

definition validate_port_forward :: "nat \<Rightarrow> nat \<Rightarrow> port_forward \<Rightarrow> go_error list" where
  "validate_port_forward i j pf =
     (let prefix = Errorf ''spec.networks[%d].portForwards[%d]'' [FNat i, FNat j]
      in complain (pf_host_port pf < 1 \<or> pf_host_port pf > 65535)
           (Errorf ''%s: hostPort %d is out of range (1-65535)'' [FErr prefix, FInt (pf_host_port pf)])
       @ complain (pf_vm_port pf < 1 \<or> pf_vm_port pf > 65535)
           (Errorf ''%s: vmPort %d is out of range (1-65535)'' [FErr prefix, FInt (pf_vm_port pf)])
       @ complain (pf_protocol pf \<noteq> [] \<and> pf_protocol pf \<noteq> ''tcp'' \<and> pf_protocol pf \<noteq> ''udp'')
           (Errorf ''%s: invalid protocol %q (must be tcp or udp)'' [FErr prefix, FStr (pf_protocol pf)]))"

definition validate_network :: "nat \<Rightarrow> network_spec \<Rightarrow> go_error list" where
  "validate_network i net =
     complain (net_name net = []) (Errorf ''spec.networks[%d].name is required'' [FNat i])
     @ complain (net_type net \<noteq> [] \<and> net_type net \<noteq> ''masquerade'')
         (Errorf ''spec.networks[%d] (%s): invalid type %q (must be masquerade)''
            [FNat i, FStr (net_name net), FStr (net_type net)])
     @ concat (map (\<lambda>(j, pf). validate_port_forward i j pf) (enumerate 0 (net_port_forwards net)))"

definition validate_cloud_init :: "cloud_init_spec option \<Rightarrow> go_error list" where
  "validate_cloud_init c =
     (case c of
        None \<Rightarrow> []
      | Some ci \<Rightarrow> complain (ci_password ci = [] \<and> length (ci_ssh_keys ci) = 0)
          (Errorf ''spec.cloudInit: at least one of password or sshKeys must be set'' []))"

definition validate_console :: "console_spec option \<Rightarrow> go_error list" where
  "validate_console c =
     (case c of
        None \<Rightarrow> []
      | Some co \<Rightarrow>
          (let ct = console_type co
           in complain (ct \<noteq> [] \<and> ct \<noteq> ''vnc'' \<and> ct \<noteq> ''serial'' \<and> ct \<noteq> ''auto'')
                (Errorf ''spec.console.type: invalid value %q (must be vnc, serial, or auto)'' [FStr ct])
            @ complain (console_port co \<noteq> 0 \<and> (console_port co < 1 \<or> console_port co > 65535))
                (Errorf ''spec.console.port must be between 1 and 65535'' [])))"

text \<open>The list \<open>errs\<close> that \<open>Validate\<close> builds, and its return value.\<close>

definition validate_errs :: "(string \<Rightarrow> bool) \<Rightarrow> virtual_machine \<Rightarrow> go_error list" where
  "validate_errs missing vm =
     validate_name (vm_name vm)
     @ validate_cores (cpu_cores (spec_cpu (vm_spec vm)))
     @ validate_mem (spec_memory (vm_spec vm))
     @ concat (map (\<lambda>(i, d). validate_disk missing i d) (enumerate 0 (vm_disks vm)))
     @ concat (map (\<lambda>(i, n). validate_network i n) (enumerate 0 (vm_networks vm)))
     @ validate_cloud_init (vm_cloud_init vm)
     @ validate_console (spec_console (vm_spec vm))"

definition validate :: "(string \<Rightarrow> bool) \<Rightarrow> virtual_machine \<Rightarrow> go_error option" where
  "validate missing vm =
     (let errs = validate_errs missing vm
      in if length errs > 0 then Some (Errorf ''invalid VM config:\<newline>  - %s'' [FMsgs errs]) else None)"

section \<open>What a valid configuration is\<close>

text \<open>The meaning of the checks, without messages, order or indices.\<close>

definition valid_quantity :: "string \<Rightarrow> bool" where
  "valid_quantity s \<longleftrightarrow> (\<exists>v. parse_quantity_bytes s = Inr v)"

definition valid_disk :: "(string \<Rightarrow> bool) \<Rightarrow> disk_spec \<Rightarrow> bool" where
  "valid_disk missing d \<longleftrightarrow>
     disk_name d \<noteq> []
     \<and> (disk_image d = []) \<noteq> (disk_container_image d = [])
     \<and> (disk_image d \<noteq> [] \<longrightarrow> \<not> missing (disk_image d))
     \<and> (disk_size d \<noteq> [] \<longrightarrow> valid_quantity (disk_size d))
     \<and> disk_bus d \<in> {[], ''virtio'', ''sata'', ''scsi''}"

definition valid_port_forward :: "port_forward \<Rightarrow> bool" where
  "valid_port_forward pf \<longleftrightarrow>
     pf_host_port pf \<in> {1..65535} \<and> pf_vm_port pf \<in> {1..65535} \<and> pf_protocol pf \<in> {[], ''tcp'', ''udp''}"

definition valid_network :: "network_spec \<Rightarrow> bool" where
  "valid_network n \<longleftrightarrow>
     net_name n \<noteq> [] \<and> net_type n \<in> {[], ''masquerade''}
     \<and> (\<forall>pf\<in>set (net_port_forwards n). valid_port_forward pf)"

definition valid_vm :: "(string \<Rightarrow> bool) \<Rightarrow> virtual_machine \<Rightarrow> bool" where
  "valid_vm missing vm \<longleftrightarrow>
     dns_label (vm_name vm)
     \<and> cpu_cores (spec_cpu (vm_spec vm)) \<in> {1..256}
     \<and> valid_quantity (spec_memory (vm_spec vm))
     \<and> (\<forall>d\<in>set (vm_disks vm). valid_disk missing d)
     \<and> (\<forall>n\<in>set (vm_networks vm). valid_network n)
     \<and> (\<forall>ci. vm_cloud_init vm = Some ci \<longrightarrow> ci_password ci \<noteq> [] \<or> ci_ssh_keys ci \<noteq> [])
     \<and> (\<forall>co. spec_console (vm_spec vm) = Some co \<longrightarrow>
          console_type co \<in> {[], ''vnc'', ''serial'', ''auto''} \<and> console_port co \<in> {0..65535})"

lemma valid_quantity_nonempty: "valid_quantity s \<Longrightarrow> s \<noteq> []"
  by (auto simp: valid_quantity_def parse_quantity_bytes_def)

lemma valid_default_memory: "valid_quantity ''1Gi''"
proof -
  have "parse_quantity_bytes (format_uint 1 @ ''Gi'') = Inr (word_of_nat 1 * push_bit 30 1)"
    by (rule parse_quantity_printed) (simp_all add: quantity_units_def quantity_suffixes_def)
  moreover have "format_uint 1 = ''1''" by code_simp
  ultimately show ?thesis by (simp add: valid_quantity_def)
qed

lemma validate_name_Nil: "validate_name s = [] \<longleftrightarrow> dns_label s"
  by (simp add: validate_name_def match_valid_name) (simp add: dns_label_def)

lemma validate_cores_Nil: "validate_cores n = [] \<longleftrightarrow> n \<in> {1..256}"
proof -
  have "n \<noteq> 0 \<longleftrightarrow> 1 \<le> n" by unat_arith
  then show ?thesis by (auto simp: validate_cores_def not_less)
qed

lemma validate_mem_Nil: "validate_mem s = [] \<longleftrightarrow> valid_quantity s"
proof (cases "s = []")
  case True
  then show ?thesis using valid_quantity_nonempty by (auto simp: validate_mem_def)
next
  case False
  then show ?thesis
    by (auto simp: validate_mem_def validate_memory_def valid_quantity_def split: sum.splits)
qed

lemma validate_disk_Nil: "validate_disk missing i d = [] \<longleftrightarrow> valid_disk missing d"
  by (auto simp: validate_disk_def valid_disk_def valid_quantity_def Let_def split: sum.splits)

lemma validate_port_forward_Nil: "validate_port_forward i j pf = [] \<longleftrightarrow> valid_port_forward pf"
  by (auto simp: validate_port_forward_def valid_port_forward_def Let_def)

lemma ball_enumerate: "(\<forall>(i, x)\<in>set (enumerate n xs). P x) \<longleftrightarrow> (\<forall>x\<in>set xs. P x)"
proof -
  have "set xs = snd ` set (enumerate n xs)" by (metis list.set_map map_snd_enumerate)
  then show ?thesis by (auto simp: split_beta)
qed

lemma validate_network_Nil: "validate_network i n = [] \<longleftrightarrow> valid_network n"
  using ball_enumerate [of 0 "net_port_forwards n" valid_port_forward]
  by (auto simp: validate_network_def valid_network_def validate_port_forward_Nil)

lemma validate_cloud_init_Nil:
  "validate_cloud_init c = [] \<longleftrightarrow> (\<forall>ci. c = Some ci \<longrightarrow> ci_password ci \<noteq> [] \<or> ci_ssh_keys ci \<noteq> [])"
  by (auto simp: validate_cloud_init_def split: option.splits)

lemma validate_console_Nil:
  "validate_console c = [] \<longleftrightarrow> (\<forall>co. c = Some co \<longrightarrow>
     console_type co \<in> {[], ''vnc'', ''serial'', ''auto''} \<and> console_port co \<in> {0..65535})"
  by (auto simp: validate_console_def Let_def split: option.splits)

lemmas validate_Nil =
  validate_name_Nil validate_cores_Nil validate_mem_Nil validate_disk_Nil validate_network_Nil
  validate_cloud_init_Nil validate_console_Nil

lemma validate_errs_Nil: "validate_errs missing vm = [] \<longleftrightarrow> valid_vm missing vm"
  using ball_enumerate [of 0 "vm_disks vm" "valid_disk missing"]
    ball_enumerate [of 0 "vm_networks vm" valid_network]
  by (auto simp: validate_errs_def valid_vm_def validate_Nil)

lemma validate_None: "validate missing vm = None \<longleftrightarrow> valid_vm missing vm"
  using validate_errs_Nil by (simp add: validate_def Let_def)

section \<open>Properties\<close>


text \<open>
  C38: The name check, a regular expression, accepts exactly the DNS labels: 1 to 63 lower-case
  letters, digits and hyphens, with a letter or digit at both ends.
\<close>

theorem name_check_iff: "validate_name s = [] \<longleftrightarrow> dns_label s"
  by (rule validate_name_Nil)

end
