(* ===== verification/ConfigParser.thy ===== *)
theory ConfigParser
  imports Validator
begin

text \<open>
  \<open>pkg/config/parser.go\<close>: a configuration from a file or from flags, the override of a
  file's values by flags, and the defaults. Reading the file (\<open>os.ReadFile\<close>) and
  decoding YAML (\<open>yaml.Unmarshal\<close>, third-party code) are arguments.
\<close>

named_theorems defaulted_intros \<open>operations that keep a configuration with its defaults filled in\<close>

section \<open>Defaults\<close>

definition default_network :: network_spec where
  "default_network = \<lparr>net_name = ''default'', net_type = ''masquerade'', net_port_forwards = []\<rparr>"

definition default_disk_bus :: "disk_spec \<Rightarrow> disk_spec" where
  "default_disk_bus d = (if disk_bus d = [] then d\<lparr>disk_bus := ''virtio''\<rparr> else d)"

definition default_cloud_init :: "cloud_init_spec \<Rightarrow> cloud_init_spec" where
  "default_cloud_init ci =
     ci\<lparr>ci_user := (if ci_user ci = [] then default_cloud_init_user else ci_user ci),
        ci_password := (if ci_password ci = [] then default_cloud_init_password else ci_password ci)\<rparr>"

definition apply_defaults :: "virtual_machine \<Rightarrow> virtual_machine" where
  "apply_defaults vm =
     (let sp = vm_spec vm; cpu = spec_cpu sp
      in vm\<lparr>vm_api_version := (if vm_api_version vm = [] then ''podvirt.io/v1alpha1'' else vm_api_version vm),
            vm_kind := (if vm_kind vm = [] then ''VirtualMachine'' else vm_kind vm),
            vm_spec := sp\<lparr>
              spec_cpu := (if cpu_cores cpu = 0 then cpu\<lparr>cpu_cores := 1\<rparr> else cpu),
              spec_memory := (if spec_memory sp = [] then ''1Gi'' else spec_memory sp),
              spec_disks := map default_disk_bus (spec_disks sp),
              spec_networks := (if length (spec_networks sp) = 0 then [default_network] else spec_networks sp),
              spec_console := (case spec_console sp of
                  None \<Rightarrow> Some \<lparr>console_type = ''vnc'', console_port = 5900\<rparr> | Some c \<Rightarrow> Some c),
              spec_cloud_init := map_option default_cloud_init (spec_cloud_init sp)\<rparr>\<rparr>)"

text \<open>A configuration in which no default is left to fill in.\<close>

definition defaulted :: "virtual_machine \<Rightarrow> bool" where
  "defaulted vm \<longleftrightarrow>
     vm_api_version vm \<noteq> [] \<and> vm_kind vm \<noteq> []
     \<and> cpu_cores (spec_cpu (vm_spec vm)) \<noteq> 0 \<and> spec_memory (vm_spec vm) \<noteq> []
     \<and> (\<forall>d\<in>set (vm_disks vm). disk_bus d \<noteq> [])
     \<and> vm_networks vm \<noteq> [] \<and> spec_console (vm_spec vm) \<noteq> None
     \<and> (\<forall>ci. vm_cloud_init vm = Some ci \<longrightarrow> ci_user ci \<noteq> [] \<and> ci_password ci \<noteq> [])"

lemma default_parts:
  "disk_bus (default_disk_bus d) \<noteq> []"
  "ci_user (default_cloud_init ci) \<noteq> []" "ci_password (default_cloud_init ci) \<noteq> []"
  by (simp_all add: default_disk_bus_def default_cloud_init_def
      default_cloud_init_user_def default_cloud_init_password_def)

lemma apply_defaults_defaulted [defaulted_intros]: "defaulted (apply_defaults vm)"
  by (auto simp: defaulted_def apply_defaults_def Let_def default_parts split: option.splits)

lemma apply_defaults_fixpoint: "defaulted vm \<Longrightarrow> apply_defaults vm = vm"
proof -
  assume d: "defaulted vm"
  then have "map default_disk_bus (vm_disks vm) = vm_disks vm"
    by (auto simp: defaulted_def default_disk_bus_def intro: map_idI)
  moreover from d have "map_option default_cloud_init (vm_cloud_init vm) = vm_cloud_init vm"
    by (cases "vm_cloud_init vm") (auto simp: defaulted_def default_cloud_init_def)
  ultimately show ?thesis
    using d by (auto simp: defaulted_def apply_defaults_def Let_def)
qed

section \<open>Disks given by flags\<close>

definition set_local_disk :: "string \<Rightarrow> virtual_machine \<Rightarrow> virtual_machine" where
  "set_local_disk disk_path vm =
     (if disk_path = [] then vm
      else let ds = vm_disks vm in
        (case find_index (\<lambda>d. disk_image d \<noteq> []) ds of
           Some i \<Rightarrow> set_disks (ds[i := (ds ! i)\<lparr>disk_name := ''disk0'',
               disk_src := \<lparr>src_image = disk_path, src_container_image = []\<rparr>, disk_bus := ''virtio''\<rparr>]) vm
         | None \<Rightarrow> set_disks (ds @ [\<lparr>disk_name = ''disk0'',
               disk_src = \<lparr>src_image = disk_path, src_container_image = []\<rparr>,
               disk_size = [], disk_bus = ''virtio''\<rparr>]) vm))"

definition set_container_disk :: "string \<Rightarrow> virtual_machine \<Rightarrow> virtual_machine" where
  "set_container_disk container_image vm =
     (if container_image = [] then vm
      else let ds = vm_disks vm in
        (case find_index (\<lambda>d. disk_name d = ''containerdisk'' \<or> disk_container_image d \<noteq> []) ds of
           Some i \<Rightarrow> set_disks (ds[i := (ds ! i)\<lparr>disk_name := ''containerdisk'',
               disk_src := \<lparr>src_image = [], src_container_image = container_image\<rparr>, disk_bus := ''virtio''\<rparr>]) vm
         | None \<Rightarrow> set_disks (ds @ [\<lparr>disk_name = ''containerdisk'',
               disk_src = \<lparr>src_image = [], src_container_image = container_image\<rparr>,
               disk_size = [], disk_bus = ''virtio''\<rparr>]) vm))"

text \<open>
  Both setters keep one contract: nothing happens for an empty flag; otherwise the first
  disk of the right kind is rewritten in place, and if there is none a new one is appended.
\<close>

locale disk_setter =
  fixes setter :: "string \<Rightarrow> virtual_machine \<Rightarrow> virtual_machine"
    and kind :: "disk_spec \<Rightarrow> bool"
    and rewrite :: "string \<Rightarrow> disk_spec \<Rightarrow> disk_spec"
    and fresh :: "string \<Rightarrow> disk_spec"
  assumes setter_empty: "setter [] vm = vm"
    and setter_found: "p \<noteq> [] \<Longrightarrow> find_index kind (vm_disks vm) = Some i \<Longrightarrow>
      setter p vm = set_disks ((vm_disks vm)[i := rewrite p (vm_disks vm ! i)]) vm"
    and setter_none: "p \<noteq> [] \<Longrightarrow> find_index kind (vm_disks vm) = None \<Longrightarrow>
      setter p vm = set_disks (vm_disks vm @ [fresh p]) vm"
    and kind_rewrite: "p \<noteq> [] \<Longrightarrow> kind (rewrite p d)"
    and kind_fresh: "p \<noteq> [] \<Longrightarrow> kind (fresh p)"
    and rewrite_rewrite: "rewrite p (rewrite q d) = rewrite p d"
    and rewrite_fresh: "rewrite p (fresh q) = fresh p"
    and bus_rewrite: "disk_bus (rewrite p d) \<noteq> []"
    and bus_fresh: "disk_bus (fresh p) \<noteq> []"
begin

lemma only_disks: "\<exists>ds. setter p vm = set_disks ds vm"
proof (cases "p = []")
  case True
  then have "setter p vm = set_disks (vm_disks vm) vm" by (simp add: setter_empty)
  then show ?thesis ..
next
  case False
  then show ?thesis
    by (cases "find_index kind (vm_disks vm)") (auto simp: setter_found setter_none)
qed

lemma length_disks:
  "length (vm_disks vm) \<le> length (vm_disks (setter p vm))
   \<and> length (vm_disks (setter p vm)) \<le> Suc (length (vm_disks vm))"
  by (cases "p = []"; cases "find_index kind (vm_disks vm)")
    (auto simp: setter_empty setter_found setter_none)

lemma has_kind:
  assumes "p \<noteq> []"
  shows "\<exists>d\<in>set (vm_disks (setter p vm)). kind d"
proof (cases "find_index kind (vm_disks vm)")
  case None
  then show ?thesis using assms by (simp add: setter_none kind_fresh)
next
  case (Some i)
  then have "i < length (vm_disks vm)" by (simp add: find_index_Some)
  then have "rewrite p (vm_disks vm ! i) \<in> set ((vm_disks vm)[i := rewrite p (vm_disks vm ! i)])"
    by (rule set_update_memI)
  then show ?thesis using assms Some kind_rewrite [OF assms] by (auto simp: setter_found)
qed

text \<open>A later flag wins over an earlier one: setting twice is setting the last.\<close>

lemma setter_setter:
  assumes "p \<noteq> []" and "q \<noteq> []"
  shows "setter p (setter q vm) = setter p vm"
proof (cases "find_index kind (vm_disks vm)")
  case None
  then have q: "setter q vm = set_disks (vm_disks vm @ [fresh q]) vm"
    using assms by (simp add: setter_none)
  have "find_index kind (vm_disks vm @ [fresh q]) = Some (length (vm_disks vm))"
    using None assms kind_fresh by (auto simp: find_index_Some find_index_None nth_append)
  then have "setter p (setter q vm) = set_disks (vm_disks vm @ [fresh p]) vm"
    using assms q by (subst setter_found [where i = "length (vm_disks vm)"]) (simp_all add: rewrite_fresh)
  then show ?thesis using None assms by (simp add: setter_none)
next
  case (Some i)
  then have i: "i < length (vm_disks vm)" by (simp add: find_index_Some)
  have q: "setter q vm = set_disks ((vm_disks vm)[i := rewrite q (vm_disks vm ! i)]) vm"
    using Some assms by (simp add: setter_found)
  have "find_index kind ((vm_disks vm)[i := rewrite q (vm_disks vm ! i)]) = Some i"
    using Some assms kind_rewrite by (auto simp: find_index_Some)
  then have "setter p (setter q vm) = set_disks ((vm_disks vm)[i := rewrite p (vm_disks vm ! i)]) vm"
    using assms q i by (subst setter_found [where i = i]) (simp_all add: rewrite_rewrite)
  then show ?thesis using Some assms by (simp add: setter_found)
qed

lemma keeps_defaulted:
  assumes "defaulted vm"
  shows "defaulted (setter p vm)"
proof (cases "p = []")
  case True
  then show ?thesis using assms by (simp add: setter_empty)
next
  case False
  have upd: "\<forall>d\<in>set (xs[i := rewrite p x]). disk_bus d \<noteq> []" if "\<forall>d\<in>set xs. disk_bus d \<noteq> []" for xs i x
    using that bus_rewrite set_update_subset_insert [of xs i "rewrite p x"] by blast
  show ?thesis
    using False assms upd bus_fresh
    by (cases "find_index kind (vm_disks vm)") (auto simp: setter_found setter_none defaulted_def)
qed

end

interpretation local: disk_setter set_local_disk "\<lambda>d. disk_image d \<noteq> []"
  "\<lambda>p d. d\<lparr>disk_name := ''disk0'', disk_src := \<lparr>src_image = p, src_container_image = []\<rparr>, disk_bus := ''virtio''\<rparr>"
  "\<lambda>p. \<lparr>disk_name = ''disk0'', disk_src = \<lparr>src_image = p, src_container_image = []\<rparr>,
       disk_size = [], disk_bus = ''virtio''\<rparr>"
  by unfold_locales (simp_all add: set_local_disk_def Let_def)

interpretation container: disk_setter set_container_disk
  "\<lambda>d. disk_name d = ''containerdisk'' \<or> disk_container_image d \<noteq> []"
  "\<lambda>p d. d\<lparr>disk_name := ''containerdisk'', disk_src := \<lparr>src_image = [], src_container_image = p\<rparr>, disk_bus := ''virtio''\<rparr>"
  "\<lambda>p. \<lparr>disk_name = ''containerdisk'', disk_src = \<lparr>src_image = [], src_container_image = p\<rparr>,
       disk_size = [], disk_bus = ''virtio''\<rparr>"
  by unfold_locales (simp_all add: set_container_disk_def Let_def)

lemmas setters_defaulted [defaulted_intros] = local.keeps_defaulted container.keeps_defaulted

section \<open>Loading\<close>

definition load_from_file ::
  "(string \<Rightarrow> go_error + string) \<Rightarrow> (string \<Rightarrow> go_error + virtual_machine) \<Rightarrow> string \<Rightarrow> go_error + virtual_machine" where
  "load_from_file read_file unmarshal path =
     (case read_file path of
        Inl e \<Rightarrow> Inl (Errorf ''reading config file %q: %w'' [FStr path, FErr e])
      | Inr data \<Rightarrow>
          (case unmarshal data of
             Inl e \<Rightarrow> Inl (Errorf ''parsing config file %q: %w'' [FStr path, FErr e])
           | Inr vm \<Rightarrow> Inr (apply_defaults vm)))"

definition load_from_flags :: "string \<Rightarrow> string \<Rightarrow> int \<Rightarrow> string \<Rightarrow> string \<Rightarrow> go_error + virtual_machine" where
  "load_from_flags name memory cpus disk_path container_image =
     (if name = [] then Inl (Errorf ''--name is required when not using --config'' [])
      else
        let vm = \<lparr>vm_api_version = ''podvirt.io/v1alpha1'', vm_kind = ''VirtualMachine'',
                  vm_metadata = \<lparr>meta_name = name, meta_labels = []\<rparr>,
                  vm_spec = \<lparr>spec_cpu = \<lparr>cpu_cores = word_of_int cpus, cpu_sockets = 0, cpu_threads = 0\<rparr>,
                    spec_memory = memory, spec_disks = [], spec_networks = [],
                    spec_boot = None, spec_console = None, spec_cloud_init = None\<rparr>\<rparr>;
            vm = set_local_disk disk_path vm;
            vm = set_container_disk container_image vm;
            vm = set_networks [\<lparr>net_name = ''default'', net_type = ''masquerade'', net_port_forwards = []\<rparr>] vm
        in Inr (apply_defaults vm))"

definition merge_flags ::
  "virtual_machine \<Rightarrow> string \<Rightarrow> string \<Rightarrow> int \<Rightarrow> string \<Rightarrow> string \<Rightarrow> virtual_machine" where
  "merge_flags vm name memory cpus disk_path container_image =
     (let vm = (if name \<noteq> [] then vm\<lparr>vm_metadata := (vm_metadata vm)\<lparr>meta_name := name\<rparr>\<rparr> else vm);
          vm = (if memory \<noteq> [] then vm\<lparr>vm_spec := (vm_spec vm)\<lparr>spec_memory := memory\<rparr>\<rparr> else vm);
          vm = (if cpus > 0 then vm\<lparr>vm_spec := (vm_spec vm)\<lparr>spec_cpu := (spec_cpu (vm_spec vm))\<lparr>cpu_cores := word_of_int cpus\<rparr>\<rparr>\<rparr> else vm);
          vm = set_local_disk disk_path vm
      in set_container_disk container_image vm)"

lemma set_disk_frames:
  "vm_metadata (set_local_disk p vm) = vm_metadata vm"
  "spec_cpu (vm_spec (set_local_disk p vm)) = spec_cpu (vm_spec vm)"
  "spec_memory (vm_spec (set_local_disk p vm)) = spec_memory (vm_spec vm)"
  "vm_networks (set_local_disk p vm) = vm_networks vm"
  "spec_boot (vm_spec (set_local_disk p vm)) = spec_boot (vm_spec vm)"
  "spec_console (vm_spec (set_local_disk p vm)) = spec_console (vm_spec vm)"
  "vm_cloud_init (set_local_disk p vm) = vm_cloud_init vm"
  "vm_metadata (set_container_disk p vm) = vm_metadata vm"
  "spec_cpu (vm_spec (set_container_disk p vm)) = spec_cpu (vm_spec vm)"
  "spec_memory (vm_spec (set_container_disk p vm)) = spec_memory (vm_spec vm)"
  "vm_networks (set_container_disk p vm) = vm_networks vm"
  "spec_boot (vm_spec (set_container_disk p vm)) = spec_boot (vm_spec vm)"
  "spec_console (vm_spec (set_container_disk p vm)) = spec_console (vm_spec vm)"
  "vm_cloud_init (set_container_disk p vm) = vm_cloud_init vm"
  using local.only_disks [of p vm] container.only_disks [of p vm] by auto

lemma load_from_file_defaulted [defaulted_intros]:
  "load_from_file rd um path = Inr vm \<Longrightarrow> defaulted vm"
  by (auto simp: load_from_file_def intro: apply_defaults_defaulted split: sum.splits)

lemma load_from_flags_defaulted [defaulted_intros]:
  "load_from_flags name mem cpus dsk img = Inr vm \<Longrightarrow> defaulted vm"
  by (auto simp: load_from_flags_def Let_def intro: apply_defaults_defaulted split: if_splits)

text \<open>What a setter makes of the disks depends on the disks only.\<close>

lemma setter_disks_cong:
  "vm_disks vm = vm_disks vm' \<Longrightarrow> vm_disks (set_local_disk p vm) = vm_disks (set_local_disk p vm')"
  "vm_disks vm = vm_disks vm' \<Longrightarrow> vm_disks (set_container_disk p vm) = vm_disks (set_container_disk p vm')"
  unfolding set_local_disk_def set_container_disk_def Let_def
  by (cases "p = []"; simp split: option.split)+

lemma merge_flags_disks:
  "vm_disks (merge_flags vm name mem cpus dsk img) = vm_disks (set_container_disk img (set_local_disk dsk vm))"
  unfolding merge_flags_def Let_def by (intro setter_disks_cong) simp

text \<open>
  A flag wins over the file where it is given and nothing else is touched: name, memory and
  cores come from the flag or else the file; networks, boot, console and cloud-init are the
  file's; the disks are the file's with the local and the container disk set.
\<close>

lemma merge_flags_precedence:
  "vm_name (merge_flags vm name mem cpus dsk img) = (if name = [] then vm_name vm else name)
   \<and> spec_memory (vm_spec (merge_flags vm name mem cpus dsk img)) = (if mem = [] then spec_memory (vm_spec vm) else mem)
   \<and> cpu_cores (spec_cpu (vm_spec (merge_flags vm name mem cpus dsk img))) =
       (if cpus > 0 then word_of_int cpus else cpu_cores (spec_cpu (vm_spec vm)))
   \<and> vm_networks (merge_flags vm name mem cpus dsk img) = vm_networks vm
   \<and> vm_cloud_init (merge_flags vm name mem cpus dsk img) = vm_cloud_init vm
   \<and> spec_boot (vm_spec (merge_flags vm name mem cpus dsk img)) = spec_boot (vm_spec vm)
   \<and> vm_disks (merge_flags vm name mem cpus dsk img) = vm_disks (set_container_disk img (set_local_disk dsk vm))"
  unfolding merge_flags_disks by (simp add: merge_flags_def Let_def set_disk_frames)

section \<open>Properties\<close>


text \<open>
  Setting the local disk rewrites the first disk that has an image or adds one, never more:
  afterwards there is a disk with an image, the number of disks has grown by at most one, and
  a second setting overrides the first. The same holds of the container disk.
\<close>

lemma set_disk_contract:
  assumes "p \<noteq> []" and "q \<noteq> []"
  shows "set_local_disk p (set_local_disk q vm) = set_local_disk p vm
    \<and> set_container_disk p (set_container_disk q vm) = set_container_disk p vm
    \<and> (\<exists>d\<in>set (vm_disks (set_local_disk p vm)). disk_image d \<noteq> [])
    \<and> length (vm_disks (set_local_disk p vm)) \<in> {length (vm_disks vm), Suc (length (vm_disks vm))}
    \<and> length (vm_disks (set_container_disk p vm)) \<in> {length (vm_disks vm), Suc (length (vm_disks vm))}"
  using local.setter_setter [OF assms, of vm] container.setter_setter [OF assms, of vm] local.has_kind [OF assms(1), of vm]
    local.length_disks [of vm p] container.length_disks [of vm p] by auto

lemma set_disk_contract_witness:
  "\<forall>vm. set_local_disk ''/a'' (set_local_disk ''/b'' vm) = set_local_disk ''/a'' vm"
  using set_disk_contract [of "''/a''" "''/b''"] by simp

end
