(* ===== verification/CreateConfig.thy ===== *)
theory CreateConfig
  imports CmdCleanCache ConfigParser
begin

text \<open>
  The first half of \<open>cmd/create.go\<close>: the options, the configuration they give, port forwards,
  SSH keys, cloud-init and the disk size. The flag library is the record \<open>flags\<close>: what it
  returns for each flag name, and whether the flag was given.
\<close>

section \<open>Options\<close>

record flags =
  get_string :: "string \<Rightarrow> go_error + string"
  get_int :: "string \<Rightarrow> go_error + int"
  get_string_array :: "string \<Rightarrow> go_error + string list"
  changed :: "string \<Rightarrow> bool"

record create_options =
  co_config_file :: string
  co_name :: string
  co_memory :: string
  co_disk_size :: string
  co_disk :: string
  co_image :: string
  co_launcher_image :: string
  co_password :: string
  co_user :: string
  co_cpus :: int
  co_port_strs :: "string list"
  co_ssh_key_files :: "string list"
  co_cpus_changed :: bool
  co_memory_changed :: bool
  co_ssh_key_explicit :: bool

definition bindR :: "'e + 'a \<Rightarrow> ('a \<Rightarrow> 'e + 'b) \<Rightarrow> 'e + 'b" where
  "bindR r f = (case r of Inl e \<Rightarrow> Inl e | Inr x \<Rightarrow> f x)"

lemma bindR_simps [simp]: "bindR (Inl e) f = Inl e" "bindR (Inr x) f = f x"
  by (simp_all add: bindR_def)

lemma bindR_Inr [simp]: "bindR r f = Inr y \<longleftrightarrow> (\<exists>x. r = Inr x \<and> f x = Inr y)"
  by (cases r) simp_all

definition read_flag :: "string \<Rightarrow> go_error + 'a \<Rightarrow> go_error + 'a" where
  "read_flag name r = (case r of Inl e \<Rightarrow> Inl (Errorf (''reading --'' @ name @ '': %w'') [FErr e]) | Inr x \<Rightarrow> Inr x)"

definition parse_create_options :: "flags \<Rightarrow> go_error + create_options" where
  "parse_create_options fl =
     bindR (read_flag ''config'' (get_string fl ''config'')) (\<lambda>config_file.
     bindR (read_flag ''name'' (get_string fl ''name'')) (\<lambda>name.
     bindR (read_flag ''cpus'' (get_int fl ''cpus'')) (\<lambda>cpus.
     bindR (read_flag ''memory'' (get_string fl ''memory'')) (\<lambda>memory.
     bindR (read_flag ''disk-size'' (get_string fl ''disk-size'')) (\<lambda>size.
     bindR (read_flag ''disk'' (get_string fl ''disk'')) (\<lambda>disk.
     bindR (read_flag ''image'' (get_string fl ''image'')) (\<lambda>img.
     bindR (read_flag ''launcher-image'' (get_string fl ''launcher-image'')) (\<lambda>launcher_image.
     bindR (read_flag ''port'' (get_string_array fl ''port'')) (\<lambda>port_strs.
     bindR (read_flag ''ssh-key'' (get_string_array fl ''ssh-key'')) (\<lambda>ssh_key_files.
     bindR (read_flag ''password'' (get_string fl ''password'')) (\<lambda>password.
     bindR (read_flag ''user'' (get_string fl ''user'')) (\<lambda>user.
     Inr \<lparr>co_config_file = config_file, co_name = name, co_memory = memory, co_disk_size = size,
          co_disk = disk, co_image = img, co_launcher_image = launcher_image, co_password = password,
          co_user = user, co_cpus = cpus, co_port_strs = port_strs, co_ssh_key_files = ssh_key_files,
          co_cpus_changed = changed fl ''cpus'', co_memory_changed = changed fl ''memory'',
          co_ssh_key_explicit = changed fl ''ssh-key''\<rparr>))))))))))))"

section \<open>The configuration\<close>

definition load_create_vm :: "'w sys \<Rightarrow> 'w \<Rightarrow> create_options \<Rightarrow> go_error + virtual_machine" where
  "load_create_vm sys w opts =
     (if co_config_file opts \<noteq> []
      then bindR (load_from_file (os_read_file sys w) (yaml_unmarshal_vm sys) (co_config_file opts)) (\<lambda>vm.
        let cpus_override = (if co_cpus_changed opts then co_cpus opts else 0);
            mem_override = (if co_memory_changed opts then co_memory opts else [])
        in Inr (merge_flags vm (co_name opts) mem_override cpus_override (co_disk opts) (co_image opts)))
      else load_from_flags (co_name opts) (co_memory opts) (co_cpus opts) (co_disk opts) (co_image opts))"

definition apply_create_disk_size :: "virtual_machine \<Rightarrow> string \<Rightarrow> go_error + virtual_machine" where
  "apply_create_disk_size vm requested =
     (if requested = [] then Inr vm
      else case vm_disks vm of
             [] \<Rightarrow> Inl (Errorf ''--disk-size requires a root disk from --disk, --image, or config'' [])
           | d # ds \<Rightarrow> Inr (set_disks (d\<lparr>disk_size := requested\<rparr> # ds) vm))"

section \<open>Port forwards\<close>

definition parse_port_forward :: "(string \<Rightarrow> string) \<Rightarrow> string \<Rightarrow> go_error + port_forward" where
  "parse_port_forward u s0 =
     (let (s, proto) = (case cut_last slash s0 of
              Some (a, b) \<Rightarrow> (a, to_lower u b) | None \<Rightarrow> (s0, ''tcp''))
      in case cut CHR '':'' s of
           None \<Rightarrow> Inl (Errorf ''invalid --port %q: expected hostPort:vmPort[/proto]'' [FStr s])
         | Some (h, v) \<Rightarrow>
             (case atoi h of
                None \<Rightarrow> Inl (Errorf ''invalid --port %q: host port must be a number'' [FStr s])
              | Some host_port \<Rightarrow>
                  (case atoi v of
                     None \<Rightarrow> Inl (Errorf ''invalid --port %q: VM port must be a number'' [FStr s])
                   | Some vm_port \<Rightarrow>
                       Inr \<lparr>pf_host_port = host_port, pf_vm_port = vm_port, pf_protocol = proto\<rparr>)))"

fun parse_port_forwards :: "(string \<Rightarrow> string) \<Rightarrow> string list \<Rightarrow> go_error + port_forward list" where
  "parse_port_forwards u [] = Inr []"
| "parse_port_forwards u (s # ss) =
     bindR (parse_port_forward u s) (\<lambda>pf. bindR (parse_port_forwards u ss) (\<lambda>pfs. Inr (pf # pfs)))"

definition add_forwards :: "port_forward list \<Rightarrow> network_spec \<Rightarrow> network_spec" where
  "add_forwards pfs n = n\<lparr>net_port_forwards := net_port_forwards n @ pfs\<rparr>"

definition apply_port_forwards :: "virtual_machine \<Rightarrow> port_forward list \<Rightarrow> virtual_machine" where
  "apply_port_forwards vm pfs =
     (let ns = vm_networks vm
      in case find_index (\<lambda>n. net_type n = ''masquerade'') ns of
           Some i \<Rightarrow> set_networks (ns[i := add_forwards pfs (ns ! i)]) vm
         | None \<Rightarrow>
             if length ns > 0
             then set_networks (ns[0 := add_forwards pfs ((ns ! 0)\<lparr>net_type := ''masquerade''\<rparr>)]) vm
             else set_networks [\<lparr>net_name = ''default'', net_type = ''masquerade'', net_port_forwards = pfs\<rparr>] vm)"

definition apply_create_ports :: "'w sys \<Rightarrow> virtual_machine \<Rightarrow> string list \<Rightarrow> go_error + virtual_machine" where
  "apply_create_ports sys vm port_strs =
     (if length port_strs = 0 then Inr vm
      else bindR (parse_port_forwards (uni_lower sys) port_strs) (\<lambda>pfs. Inr (apply_port_forwards vm pfs)))"

section \<open>SSH keys and cloud-init\<close>

fun first_ssh_key :: "'w sys \<Rightarrow> string list \<Rightarrow> ('w st, string list) act" where
  "first_ssh_key sys [] = ok []"
| "first_ssh_key sys (p # ps) =
     bindE (attempt (query (\<lambda>w. os_read_file sys w p))) (\<lambda>r.
     case r of
       Inl _ \<Rightarrow> first_ssh_key sys ps
     | Inr data \<Rightarrow>
         (let key = trim_space data
          in if key \<noteq> [] then bindE (say ''Auto-injecting SSH key: %s\<newline>'' [FStr p]) (\<lambda>_. ok [key])
             else first_ssh_key sys ps))"

definition resolve_ssh_keys :: "'w sys \<Rightarrow> string list \<Rightarrow> bool \<Rightarrow> ('w st, string list) act" where
  "resolve_ssh_keys sys files explicit =
     (if length files = 0 \<and> \<not> explicit
      then (case user_home_dir sys of
              Inl _ \<Rightarrow> ok []
            | Inr home \<Rightarrow> first_ssh_key sys
                [home @ ''/.ssh/id_ed25519.pub'', home @ ''/.ssh/id_rsa.pub'', home @ ''/.ssh/id_ecdsa.pub''])
      else forE files (\<lambda>f.
        bindE (wrapE (\<lambda>e. Errorf ''reading SSH key file %q: %w'' [FStr f, FErr e])
              (query (\<lambda>w. os_read_file sys w f))) (\<lambda>data. ok (trim_space data))))"

definition empty_cloud_init :: cloud_init_spec where
  "empty_cloud_init = \<lparr>ci_user = [], ci_password = [], ci_ssh_keys = []\<rparr>"

text \<open>The update of the cloud-init section, once there is a key or a password.\<close>

definition merge_cloud_init :: "cloud_init_spec option \<Rightarrow> create_options \<Rightarrow> string list \<Rightarrow> cloud_init_spec" where
  "merge_cloud_init c opts ssh_keys =
     (let ci = (case c of None \<Rightarrow> empty_cloud_init | Some ci \<Rightarrow> ci);
          ci = ci\<lparr>ci_ssh_keys := ci_ssh_keys ci @ ssh_keys\<rparr>;
          ci = (if co_password opts \<noteq> [] then ci\<lparr>ci_password := co_password opts\<rparr>
                else if ci_password ci = [] then ci\<lparr>ci_password := default_cloud_init_password\<rparr> else ci)
      in if co_user opts \<noteq> [] then ci\<lparr>ci_user := co_user opts\<rparr>
         else if ci_user ci = [] then ci\<lparr>ci_user := default_cloud_init_user\<rparr> else ci)"

definition apply_cloud_init_flags ::
  "'w sys \<Rightarrow> virtual_machine \<Rightarrow> create_options \<Rightarrow> ('w st, virtual_machine) act" where
  "apply_cloud_init_flags sys vm opts =
     bindE (resolve_ssh_keys sys (co_ssh_key_files opts) (co_ssh_key_explicit opts)) (\<lambda>ssh_keys.
     if length ssh_keys = 0 \<and> co_password opts = [] then ok vm
     else ok (set_cloud_init (merge_cloud_init (vm_cloud_init vm) opts ssh_keys) vm))"

section \<open>Frames\<close>

lemma forward_first_ssh_key [forward_intros]: "forward (first_ssh_key sys ps)"
  by (induction ps; unfold first_ssh_key.simps Let_def) (intro forward_intros; assumption)+

lemma forward_cloud_init [forward_intros]:
  "forward (resolve_ssh_keys sys files explicit)" "forward (apply_cloud_init_flags sys vm opts)"
  unfolding resolve_ssh_keys_def apply_cloud_init_flags_def by (intro forward_intros)+

lemma unnamed_first_ssh_key [only_intros]: "only_events (\<lambda>e. \<not> named_create e) (first_ssh_key sys ps)"
  by (induction ps; unfold first_ssh_key.simps Let_def) (intro only_intros; simp)+

lemma unnamed_cloud_init [only_intros]:
  "only_events (\<lambda>e. \<not> named_create e) (apply_cloud_init_flags sys vm opts)"
  unfolding resolve_ssh_keys_def apply_cloud_init_flags_def by (intro only_intros)

end
