(* ===== verification/CreateDisks.thy ===== *)
theory CreateDisks
  imports CreateConfig
begin

text \<open>
  The second half of \<open>cmd/create.go\<close>: the extraction of container disks with the \<open>podman\<close>
  program, the resized copies of disks with \<open>qemu-img\<close> in a helper container, and the command.
\<close>

section \<open>Container disks\<close>

definition sanitize_image :: "string \<Rightarrow> string" where
  "sanitize_image img = map (\<lambda>c. if c = slash \<or> c = CHR '':'' \<or> c = CHR ''@'' then CHR ''_'' else c) img"

text \<open>The empty string means that there is no disk file.\<close>

definition find_extracted_disk :: "'w sys \<Rightarrow> string \<Rightarrow> ('w st, string) act" where
  "find_extracted_disk sys d =
     (let img_path = join_path [d, ''disk.img'']; qcow2_path = join_path [d, ''disk.qcow2'']
      in bindE (query (\<lambda>w. Inr (\<not> isl (os_stat sys w qcow2_path)))) (\<lambda>has_qcow2.
         if has_qcow2 then ok qcow2_path
         else
           bindE (query (\<lambda>w. Inr (\<not> isl (os_stat sys w img_path)))) (\<lambda>has_img.
           if has_img
           then
             bindE (query (\<lambda>w. Inr (is_qcow2_image sys w img_path))) (\<lambda>qcow2.
             if qcow2
             then
               bindE (wrapE (\<lambda>e. Errorf ''renaming extracted qcow2 image %q to %q: %w''
                        [FStr img_path, FStr qcow2_path, FErr e])
                     (call (RenameFile img_path qcow2_path) (os_rename sys img_path qcow2_path))) (\<lambda>_.
               ok qcow2_path)
             else ok img_path)
           else ok [])))"

definition podman_cmd :: "'w sys \<Rightarrow> string list \<Rightarrow> ('w st, string) act" where
  "podman_cmd sys args = call (RunCommand ''podman'' args) (exec_output sys ''podman'' args)"

definition pull_and_extract :: "'w sys \<Rightarrow> string \<Rightarrow> string \<Rightarrow> ('w st, string) act" where
  "pull_and_extract sys img dest_dir =
     bindE (wrapE (\<lambda>e. Errorf ''creating containerdisk cache dir: %w'' [FErr e])
           (call (MkdirAll dest_dir) (os_mkdir_all sys dest_dir))) (\<lambda>_.
     bindE (say ''Pulling containerdisk image %s...\<newline>'' [FStr img]) (\<lambda>_.
     bindE (wrapE (\<lambda>e. Errorf ''pulling containerdisk %q: %w'' [FStr img, FErr e])
           (podman_cmd sys [''pull'', img])) (\<lambda>_.
     bindE (say ''Extracting disk from %s...\<newline>'' [FStr img]) (\<lambda>_.
     bindE (wrapE (\<lambda>e. Errorf ''creating temp container from %q: %w'' [FStr img, FErr e])
           (podman_cmd sys [''create'', img])) (\<lambda>out.
     let cid = trim_space out
     in deferE
          (bindE (wrapE (\<lambda>e. Errorf ''extracting disk from containerdisk %q: %w'' [FStr img, FErr e])
                 (podman_cmd sys [''cp'', cid @ '':/disk/.'', dest_dir])) (\<lambda>_.
           bindE (find_extracted_disk sys dest_dir) (\<lambda>disk_file.
           if disk_file = []
           then fail (Errorf ''no disk file found after extracting containerdisk %q (expected disk.img or disk.qcow2 in %s)''
             [FStr img, FStr dest_dir])
           else bindE (say ''Containerdisk extracted to: %s\<newline>'' [FStr disk_file]) (\<lambda>_. ok disk_file))))
          (bindE (attempt (podman_cmd sys [''rm'', cid])) (\<lambda>r.
           case r of
             Inl e \<Rightarrow> warn ''Warning: cleaning up temporary container %q failed: %v\<newline>'' [FStr cid, FErr e]
           | Inr _ \<Rightarrow> ok ())))))))"

definition extract_disk :: "'w sys \<Rightarrow> string \<Rightarrow> disk_spec \<Rightarrow> ('w st, disk_spec) act" where
  "extract_disk sys cache_base disk =
     (if disk_container_image disk = [] then ok disk
      else
        let img = disk_container_image disk;
            dest_dir = join_path [cache_base, sanitize_image img]
        in bindE (find_extracted_disk sys dest_dir) (\<lambda>cached.
           bindE (if cached \<noteq> []
                  then bindE (say ''Using cached containerdisk: %s\<newline>'' [FStr cached]) (\<lambda>_. ok cached)
                  else pull_and_extract sys img dest_dir) (\<lambda>disk_file.
           ok (disk\<lparr>disk_src := \<lparr>src_image = disk_file, src_container_image = []\<rparr>\<rparr>))))"

definition extract_container_disks :: "'w sys \<Rightarrow> virtual_machine \<Rightarrow> ('w st, virtual_machine) act" where
  "extract_container_disks sys vm =
     bindE (wrapE (\<lambda>e. Errorf ''getting home dir: %w'' [FErr e]) (lift_res (user_home_dir sys))) (\<lambda>home.
     let cache_base = join_path [home, ''.cache'', ''podvirt'', ''containerdisks'']
     in bindE (forE (vm_disks vm) (extract_disk sys cache_base)) (\<lambda>disks.
        ok (set_disks disks vm)))"

section \<open>Resized disks\<close>

definition source_mount_path :: "string \<Rightarrow> string" where
  "source_mount_path source_path = join_path [''/mnt/src'', base source_path]"

definition dest_mount_path :: "string \<Rightarrow> string" where
  "dest_mount_path dest_path = join_path [''/mnt/dst'', base dest_path]"

definition qemu_img_mounts :: "string \<Rightarrow> string \<Rightarrow> mount list" where
  "qemu_img_mounts source_path dest_path =
     [bind_mount (dir source_path) ''/mnt/src'' [''bind'', ''ro'', ''z''],
      bind_mount (dir dest_path) ''/mnt/dst'' [''bind'', ''z'']]"

definition run_qemu_img_output ::
  "'w sys \<Rightarrow> string \<Rightarrow> string \<Rightarrow> string \<Rightarrow> string list \<Rightarrow> ('w st, string) act" where
  "run_qemu_img_output sys launcher_image source_path dest_path qemu_args =
     bindE (run_one_shot_container sys launcher_image (qemu_img_mounts source_path dest_path)
              [''qemu-img''] qemu_args) (\<lambda>(out, err, failed).
     case failed of
       Some e \<Rightarrow>
         (let msg = trim_space err;
              msg = (if msg = [] then trim_space out else msg)
          in fail (Errorf ''%v: %s'' [FErr e, if msg = [] then FErr e else FStr msg]))
     | None \<Rightarrow> ok out)"

definition run_qemu_img ::
  "'w sys \<Rightarrow> string \<Rightarrow> string \<Rightarrow> string \<Rightarrow> string list \<Rightarrow> ('w st, unit) act" where
  "run_qemu_img sys launcher_image source_path dest_path qemu_args =
     bindE (run_qemu_img_output sys launcher_image source_path dest_path qemu_args) (\<lambda>_. ok ())"

definition inspect_disk_image :: "'w sys \<Rightarrow> string \<Rightarrow> string \<Rightarrow> ('w st, qemu_img_info) act" where
  "inspect_disk_image sys launcher_image source_path =
     bindE (run_qemu_img_output sys launcher_image source_path source_path
              [''info'', ''-U'', ''--output=json'', source_mount_path source_path]) (\<lambda>out.
     bindE (wrapE (\<lambda>e. Errorf ''parsing qemu-img info output: %w'' [FErr e])
           (lift_res (json_unmarshal_info sys out))) (\<lambda>info.
     if img_format info = [] \<or> img_virtual_size info = 0
     then fail (Errorf ''unexpected qemu-img info output'' []) else ok info))"

text \<open>The second half of \<open>buildSizedDiskImage\<close>: the old copy is replaced, converted and grown.\<close>

definition copy_resized ::
  "'w sys \<Rightarrow> string \<Rightarrow> string \<Rightarrow> disk_spec \<Rightarrow> qemu_img_info \<Rightarrow> u64 \<Rightarrow> ('w st, string) act" where
  "copy_resized sys launcher_image dest_path disk info size_bytes =
     bindE (wrapE (\<lambda>e. Errorf ''disk %q: removing previous resized disk: %w'' [FStr (disk_name disk), FErr e])
           (call (RemoveTree dest_path) (os_remove_all sys dest_path))) (\<lambda>_.
     bindE (say ''Preparing resized disk %q (%s)...\<newline>'' [FStr (disk_name disk), FStr (disk_size disk)]) (\<lambda>_.
     bindE (wrapE (\<lambda>e. Errorf ''disk %q: copying source image for resize: %w'' [FStr (disk_name disk), FErr e])
           (run_qemu_img sys launcher_image (disk_image disk) dest_path
              [''convert'', ''-U'', ''-f'', img_format info, ''-O'', ''qcow2'',
               source_mount_path (disk_image disk), dest_mount_path dest_path])) (\<lambda>_.
     bindE (if size_bytes > img_virtual_size info
            then wrapE (\<lambda>e. Errorf ''disk %q: resizing copied image: %w'' [FStr (disk_name disk), FErr e])
              (run_qemu_img sys launcher_image (disk_image disk) dest_path
                 [''resize'', dest_mount_path dest_path, format_uint (unat size_bytes)])
            else ok ()) (\<lambda>_.
     ok dest_path))))"

definition build_sized_disk_image :: "'w sys \<Rightarrow> string \<Rightarrow> string \<Rightarrow> disk_spec \<Rightarrow> ('w st, string) act" where
  "build_sized_disk_image sys launcher_image cache_dir disk =
     bindE (wrapE (\<lambda>e. Errorf ''disk %q: parsing size %q: %w'' [FStr (disk_name disk), FStr (disk_size disk), FErr e])
           (lift_res (parse_quantity_bytes (disk_size disk)))) (\<lambda>size_bytes.
     bindE (wrapE (\<lambda>e. Errorf ''disk %q: inspecting source image: %w'' [FStr (disk_name disk), FErr e])
           (inspect_disk_image sys launcher_image (disk_image disk))) (\<lambda>info.
     if size_bytes < img_virtual_size info
     then fail (Errorf ''disk %q: requested size %s is smaller than source image virtual size''
       [FStr (disk_name disk), FStr (disk_size disk)])
     else copy_resized sys launcher_image (join_path [cache_dir, disk_name disk @ ''.qcow2'']) disk info size_bytes))"

definition prepare_sized_disk :: "'w sys \<Rightarrow> string \<Rightarrow> string \<Rightarrow> disk_spec \<Rightarrow> ('w st, disk_spec) act" where
  "prepare_sized_disk sys launcher_image base_dir disk =
     (if disk_size disk = [] then ok disk
      else if disk_image disk = []
      then fail (Errorf ''disk %q: sizing requires a local image path after container disk extraction'' [FStr (disk_name disk)])
      else
        bindE (build_sized_disk_image sys launcher_image base_dir disk) (\<lambda>sized_path.
        ok (disk\<lparr>disk_src := (disk_src disk)\<lparr>src_image := sized_path\<rparr>\<rparr>)))"

definition prepare_sized_disks :: "'w sys \<Rightarrow> virtual_machine \<Rightarrow> string \<Rightarrow> ('w st, virtual_machine) act" where
  "prepare_sized_disks sys vm launcher_image =
     bindE (wrapE (\<lambda>e. Errorf ''finding user cache dir: %w'' [FErr e]) (lift_res (user_cache_dir sys))) (\<lambda>cache_dir.
     let base_dir = join_path [cache_dir, ''podvirt'', ''resized-disks'', vm_name vm]
     in bindE (wrapE (\<lambda>e. Errorf ''creating resized disk cache dir: %w'' [FErr e])
              (call (MkdirAll base_dir) (os_mkdir_all sys base_dir))) (\<lambda>_.
        bindE (forE (vm_disks vm) (prepare_sized_disk sys launcher_image base_dir)) (\<lambda>disks.
        ok (set_disks disks vm))))"

section \<open>The command\<close>

text \<open>The format holds the three bytes of the arrow.\<close>

definition forward_format :: string where
  "forward_format = ''  Port forward: localhost:%d '' @ [CHR 0xE2, CHR 0x86, CHR 0x92] @ '' VM:%d/%s\<newline>''"

definition print_create_summary :: "virtual_machine \<Rightarrow> vmi_result \<Rightarrow> string \<Rightarrow> ('w st, unit) act" where
  "print_create_summary vm result cid =
     bindE (slice12 cid) (\<lambda>short_id.
     bindE (say ''VM %q created (container ID: %s)\<newline>'' [FStr (vm_name vm), FStr short_id]) (\<lambda>_.
     bindE (forE (filter (\<lambda>d. disk_size d \<noteq> []) (vm_disks vm))
              (\<lambda>d. say ''  Disk %q size: %s\<newline>'' [FStr (disk_name d), FStr (disk_size d)])) (\<lambda>_.
     bindE (forE (res_port_forwards result) (\<lambda>pf.
              let proto = (if pf_protocol pf = [] then ''tcp'' else pf_protocol pf)
              in say forward_format [FInt (pf_host_port pf), FInt (pf_vm_port pf), FStr proto])) (\<lambda>_.
     say ''Start it with: podvirt start %s\<newline>'' [FStr (vm_name vm)]))))"

definition validate_op :: "'w sys \<Rightarrow> virtual_machine \<Rightarrow> ('w st, unit) act" where
  "validate_op sys vm =
     query (\<lambda>w. case validate (stat_missing sys w) vm of None \<Rightarrow> Inr () | Some e \<Rightarrow> Inl e)"

text \<open>The configuration is complete once the container disks are extracted.\<close>

definition assemble_vm :: "'w sys \<Rightarrow> create_options \<Rightarrow> ('w st, virtual_machine) act" where
  "assemble_vm sys opts =
     bindE (query (\<lambda>w. load_create_vm sys w opts)) (\<lambda>vm.
     bindE (lift_res (apply_create_ports sys vm (co_port_strs opts))) (\<lambda>vm.
     bindE (apply_cloud_init_flags sys vm opts) (\<lambda>vm.
     bindE (lift_res (apply_create_disk_size vm (co_disk_size opts))) (\<lambda>vm.
     extract_container_disks sys vm))))"

definition run_create :: "'w sys \<Rightarrow> flags \<Rightarrow> ('w st, unit) act" where
  "run_create sys fl =
     bindE (lift_res (parse_create_options fl)) (\<lambda>opts.
     bindE (assemble_vm sys opts) (\<lambda>vm.
     bindE (validate_op sys vm) (\<lambda>_.
     bindE (new_podman_client sys) (\<lambda>_.
     bindE (exists_vm sys (vm_name vm)) (\<lambda>exists.
     if exists
     then fail (Errorf ''VM %q already exists (use 'podvirt delete %s' to remove it)'' [FStr (vm_name vm), FStr (vm_name vm)])
     else
       bindE (say ''Pulling virt-launcher image (if needed)...\<newline>'' []) (\<lambda>_.
       bindE (ensure_image sys (co_launcher_image opts)) (\<lambda>_.
       bindE (prepare_sized_disks sys vm (co_launcher_image opts)) (\<lambda>vm.
       bindE (wrapE (\<lambda>e. Errorf ''converting VM config: %w'' [FErr e]) (query (\<lambda>w. to_vmi sys w vm))) (\<lambda>result.
       bindE (say ''Creating VM %q...\<newline>'' [FStr (vm_name vm)]) (\<lambda>_.
       bindE (create_vm sys (vm_name vm) (co_launcher_image opts) result) (\<lambda>cid.
       print_create_summary vm result cid)))))))))))"

end
