(* ===== verification/CreateSafety.thy ===== *)
theory CreateSafety
  imports CreateDisks
begin

text \<open>
  What \<open>podvirt create\<close> guarantees: which container it may create and when, what the
  extraction leaves in the configuration, and what the resized copies are.
\<close>

section \<open>Frames\<close>

lemma forward_find_extracted_disk [forward_intros]: "forward (find_extracted_disk sys d)"
  unfolding find_extracted_disk_def Let_def by (intro forward_intros)

lemma forward_podman_cmd [forward_intros]: "forward (podman_cmd sys args)"
  unfolding podman_cmd_def by (intro forward_intros)

lemma forward_extract_container_disks [forward_intros]: "forward (extract_container_disks sys vm)"
  unfolding extract_container_disks_def extract_disk_def pull_and_extract_def Let_def
  by (intro forward_intros)

lemma forward_run_qemu_img_output [forward_intros]: "forward (run_qemu_img_output sys li sp dp args)"
  unfolding run_qemu_img_output_def Let_def by (intro forward_intros)

lemma forward_prepare_sized_disk [forward_intros]: "forward (prepare_sized_disk sys li bd d)"
  unfolding prepare_sized_disk_def build_sized_disk_image_def copy_resized_def inspect_disk_image_def run_qemu_img_def Let_def
  by (intro forward_intros)

lemma forward_prepare_sized_disks [forward_intros]: "forward (prepare_sized_disks sys vm li)"
  unfolding prepare_sized_disks_def Let_def by (intro forward_intros)

lemma forward_assemble_vm [forward_intros]: "forward (assemble_vm sys opts)"
  unfolding assemble_vm_def by (intro forward_intros)

lemma forward_print_create_summary [forward_intros]: "forward (print_create_summary vm result cid)"
  unfolding print_create_summary_def Let_def by (intro forward_intros)

lemma forward_validate_op [forward_intros]: "forward (validate_op sys vm)"
  unfolding validate_op_def by (intro forward_intros)

lemma forward_run_create: "forward (run_create sys fl)"
  unfolding run_create_def by (intro forward_intros)

lemma unnamed_find_extracted_disk [only_intros]:
  "only_events (\<lambda>e. \<not> named_create e) (find_extracted_disk sys d)"
  unfolding find_extracted_disk_def Let_def by (intro only_intros) simp_all

lemma unnamed_assemble_vm: "only_events (\<lambda>e. \<not> named_create e) (assemble_vm sys opts)"
  unfolding assemble_vm_def extract_container_disks_def extract_disk_def pull_and_extract_def
    podman_cmd_def Let_def
  by (intro only_intros) simp_all

lemma unnamed_prepare_sized_disks: "only_events (\<lambda>e. \<not> named_create e) (prepare_sized_disks sys vm li)"
  unfolding prepare_sized_disks_def prepare_sized_disk_def build_sized_disk_image_def copy_resized_def
    inspect_disk_image_def run_qemu_img_def run_qemu_img_output_def Let_def
  by (intro only_intros) simp_all

lemma unnamed_print_create_summary: "only_events (\<lambda>e. \<not> named_create e) (print_create_summary vm result cid)"
  unfolding print_create_summary_def Let_def by (intro only_intros) simp_all

lemma unnamed_validate_op: "only_events P (validate_op sys vm)"
  unfolding validate_op_def by (intro only_intros)

section \<open>At most one named container\<close>

text \<open>
  \<open>creates_at Q m s\<close>: run from \<open>s\<close>, the action \<open>m\<close> either fails without creating a container
  that has a name, or it creates exactly one, with a specification for which \<open>Q\<close> holds.
\<close>

definition one_named :: "(spec_generator \<Rightarrow> bool) \<Rightarrow> bool \<Rightarrow> event list \<Rightarrow> bool" where
  "one_named Q failed t \<longleftrightarrow>
     filter named_create t = [] \<and> failed \<or> (\<exists>sp. Q sp \<and> filter named_create t = [CtrCreate sp])"

definition creates_at :: "(spec_generator \<Rightarrow> bool) \<Rightarrow> ('w st, 'a) act \<Rightarrow> 'w st \<Rightarrow> bool" where
  "creates_at Q m s \<longleftrightarrow>
     (\<exists>t. log (snd (m s)) = log s @ t \<and> one_named Q (isl (fst (m s))) t)"

lemma one_named_append:
  "list_all (\<lambda>e. \<not> named_create e) t \<Longrightarrow> one_named Q b (t @ t') = one_named Q b t'"
  "list_all (\<lambda>e. \<not> named_create e) t' \<Longrightarrow> one_named Q False t \<Longrightarrow> one_named Q b (t @ t')"
proof -
  have n: "list_all (\<lambda>e. \<not> named_create e) t \<Longrightarrow> filter named_create t = []" for t
    by (auto simp: list_all_iff)
  show "list_all (\<lambda>e. \<not> named_create e) t \<Longrightarrow> one_named Q b (t @ t') = one_named Q b t'"
    by (simp add: one_named_def n)
  show "list_all (\<lambda>e. \<not> named_create e) t' \<Longrightarrow> one_named Q False t \<Longrightarrow> one_named Q b (t @ t')"
    by (simp add: one_named_def n)
qed

lemma creates_at_fail: "creates_at Q (fail e) s"
  by (simp add: creates_at_def one_named_def)

lemma creates_at_bindE:
  assumes m: "only_events (\<lambda>e. \<not> named_create e) m"
    and f: "\<And>x s'. m s = (Inr x, s') \<Longrightarrow> creates_at Q (f x) s'"
  shows "creates_at Q (bindE m f) s"
proof -
  obtain r s1 where ms: "m s = (r, s1)" by fastforce
  obtain t1 where t1: "log s1 = log s @ t1" "list_all (\<lambda>e. \<not> named_create e) t1"
    using only_eventsD [OF m ms] by blast
  show ?thesis
  proof (cases r)
    case (Inl e)
    then show ?thesis
      using ms t1 one_named_append(1) [OF t1(2), of Q True "[]"]
      by (auto simp: creates_at_def run_bindE one_named_def)
  next
    case (Inr x)
    obtain t2 where "log (snd (f x s1)) = log s1 @ t2" "one_named Q (isl (fst (f x s1))) t2"
      using f [OF ms [unfolded Inr]] unfolding creates_at_def by blast
    then show ?thesis
      using ms t1 Inr one_named_append(1) [OF t1(2)]
      by (auto simp: creates_at_def run_bindE intro!: exI [of _ "t1 @ t2"])
  qed
qed

lemma creates_at_bindE_left:
  assumes m: "creates_at Q m s" and f: "\<And>x. only_events (\<lambda>e. \<not> named_create e) (f x)"
  shows "creates_at Q (bindE m f) s"
proof -
  obtain r s1 where ms: "m s = (r, s1)" by fastforce
  then obtain t1 where t1: "log s1 = log s @ t1" "one_named Q (isl r) t1"
    using m unfolding creates_at_def by (metis fst_conv snd_conv)
  show ?thesis
  proof (cases r)
    case (Inl e)
    then show ?thesis using ms t1 by (auto simp: creates_at_def run_bindE)
  next
    case (Inr x)
    obtain r2 s2 where fs: "f x s1 = (r2, s2)" by fastforce
    obtain t2 where t2: "log s2 = log s1 @ t2" "list_all (\<lambda>e. \<not> named_create e) t2"
      using only_eventsD [OF f fs] by blast
    then show ?thesis
      using ms fs t1 Inr one_named_append(2) [OF t2(2), of Q t1]
      by (auto simp: creates_at_def run_bindE intro!: exI [of _ "t1 @ t2"])
  qed
qed

lemma creates_at_wrapE: "creates_at Q m s \<Longrightarrow> creates_at Q (wrapE w m) s"
  by (cases "m s") (auto simp: creates_at_def run_wrapE split: sum.splits)

lemma creates_at_call: "sg_name sp \<noteq> [] \<Longrightarrow> Q sp \<Longrightarrow> creates_at Q (call (CtrCreate sp) f) s"
  by (auto simp: creates_at_def one_named_def call_def split: prod.splits)

lemma container_name_nonempty [simp]: "container_name vmname \<noteq> []"
  by (simp add: container_name_def container_prefix_def)

lemma vm_container_spec_name [simp]: "sg_name (vm_container_spec sys vmname img result dirs) = container_name vmname"
  by (simp add: vm_container_spec_def split: prod.splits)

lemma creates_at_create_vm:
  assumes "\<And>dirs. Q (vm_container_spec sys vmname img result dirs)"
  shows "creates_at Q (create_vm sys vmname img result) s"
  unfolding create_vm_def Let_def
  by (intro creates_at_bindE creates_at_wrapE creates_at_call only_intros assms) simp

section \<open>What extraction leaves\<close>

text \<open>A disk after extraction: no container image is left, and nothing but the source changed.\<close>

definition extracted :: "disk_spec \<Rightarrow> disk_spec \<Rightarrow> bool" where
  "extracted d d' \<longleftrightarrow> disk_container_image d' = []
     \<and> disk_name d' = disk_name d \<and> disk_size d' = disk_size d \<and> disk_bus d' = disk_bus d
     \<and> (if disk_container_image d = [] then d' = d else disk_image d' \<noteq> [])"

lemma pull_and_extract_nonempty:
  "pull_and_extract sys img dest s = (Inr p, s') \<Longrightarrow> p \<noteq> []"
  unfolding pull_and_extract_def Let_def
  by (auto simp: run_deferE elim!: bindE_Inr_E split: prod.splits if_splits)

lemma extract_disk_extracted:
  assumes "extract_disk sys cb d s = (Inr d', s')"
  shows "extracted d d'"
proof (cases "disk_container_image d = []")
  case True
  then show ?thesis using assms by (simp add: extract_disk_def extracted_def)
next
  case False
  then obtain cached s1 df s2 where
    f: "(if cached \<noteq> [] then bindE (say ''Using cached containerdisk: %s\<newline>'' [FStr cached]) (\<lambda>_. ok cached)
         else pull_and_extract sys (disk_container_image d)
                (join_path [cb, sanitize_image (disk_container_image d)])) s1 = (Inr df, s2)" and
    d': "d' = d\<lparr>disk_src := \<lparr>src_image = df, src_container_image = []\<rparr>\<rparr>"
    using assms unfolding extract_disk_def Let_def by (auto elim!: bindE_Inr_E)
  have "df \<noteq> []"
    using f by (cases "cached = []") (auto elim!: bindE_Inr_E dest: pull_and_extract_nonempty)
  then show ?thesis using False d' by (simp add: extracted_def)
qed

lemma forE_list_all2:
  assumes "forE xs f s = (Inr ys, s')" and "\<And>x s y s'. f x s = (Inr y, s') \<Longrightarrow> R x y"
  shows "list_all2 R xs ys"
  using assms(1)
proof (induction xs arbitrary: s ys)
  case (Cons x xs)
  then obtain y s1 zs where "f x s = (Inr y, s1)" "forE xs f s1 = (Inr zs, s')" "ys = y # zs"
    by (auto elim!: bindE_Inr_E)
  then show ?case using Cons.IH assms(2) by auto
qed simp

lemma extract_container_disks_extracted:
  assumes "extract_container_disks sys vm s = (Inr vm', s')"
  shows "\<exists>ds. vm' = set_disks ds vm \<and> list_all2 extracted (vm_disks vm) ds"
proof -
  obtain home s1 ds where "forE (vm_disks vm)
      (extract_disk sys (join_path [home, ''.cache'', ''podvirt'', ''containerdisks''])) s1 = (Inr ds, s')"
    and "vm' = set_disks ds vm"
    using assms unfolding extract_container_disks_def Let_def
    by (auto elim!: bindE_Inr_E)
  moreover from this(1) have "list_all2 extracted (vm_disks vm) ds"
    by (rule forE_list_all2) (rule extract_disk_extracted)
  ultimately show ?thesis by blast
qed

lemma assemble_vm_extracted:
  assumes "assemble_vm sys opts s = (Inr vm, s')"
  shows "\<forall>d\<in>set (vm_disks vm). disk_container_image d = []"
proof -
  obtain vm0 s0 where "extract_container_disks sys vm0 s0 = (Inr vm, s')"
    using assms unfolding assemble_vm_def by (elim bindE_Inr_E)
  then obtain ds where "vm = set_disks ds vm0" "list_all2 extracted (vm_disks vm0) ds"
    using extract_container_disks_extracted by blast
  then show ?thesis
    by (auto simp: list_all2_conv_all_nth in_set_conv_nth extracted_def)
qed

end
