(* ===== verification/ConverterFacts.thy ===== *)
theory ConverterFacts
  imports Converter Sample
begin

text \<open>
  What \<open>ToVMI\<close> produces: when it succeeds, which disks, volumes, mounts and networks the
  object has, where the images are mounted, and the form of the UID.
\<close>

section \<open>Disks, volumes and mounts\<close>

text \<open>What one turn of the loop over the disks adds.\<close>

definition vmi_disk_of :: "disk_spec \<Rightarrow> vmi_disk" where
  "vmi_disk_of d = \<lparr>vmid_name = disk_name d, vmid_bus = (if disk_bus d = [] then ''virtio'' else disk_bus d)\<rparr>"

definition host_volume :: "'w sys \<Rightarrow> 'w \<Rightarrow> disk_spec \<Rightarrow> vmi_volume" where
  "host_volume sys w d = (empty_volume (disk_name d))\<lparr>vmiv_host_disk :=
     Some \<lparr>hd_path = container_path sys w d, hd_type = ''DiskOrCreate'', hd_capacity = []\<rparr>\<rparr>"

definition mount_of :: "'w sys \<Rightarrow> 'w \<Rightarrow> disk_spec \<Rightarrow> (string \<times> string) list \<Rightarrow> (string \<times> string) list" where
  "mount_of sys w d = AList.update (disk_image d) (container_path sys w d)"

lemma add_disks_Inr:
  "\<forall>d\<in>set ds. disk_image d \<noteq> [] \<Longrightarrow> add_disks sys w ds (disks, volumes, mounts) =
     Inr (disks @ map vmi_disk_of ds, volumes @ map (host_volume sys w) ds, fold (mount_of sys w) ds mounts)"
  by (induction ds arbitrary: disks volumes mounts)
    (simp_all add: vmi_disk_of_def host_volume_def mount_of_def Let_def)

lemma add_disks_isl: "isl (add_disks sys w ds acc) \<longleftrightarrow> (\<exists>d\<in>set ds. disk_image d = [])"
  by (induction sys w ds acc rule: add_disks.induct) (auto simp: Let_def)

lemma update_fresh: "k \<notin> fst ` set al \<Longrightarrow> AList.update k v al = al @ [(k, v)]"
  by (induction al) auto

lemma fold_mounts_distinct:
  "distinct (map disk_image ds) \<Longrightarrow> (\<forall>d\<in>set ds. disk_image d \<notin> fst ` set mounts) \<Longrightarrow>
     fold (mount_of sys w) ds mounts = mounts @ map (\<lambda>d. (disk_image d, container_path sys w d)) ds"
proof (induction ds arbitrary: mounts)
  case (Cons d ds)
  then have "fold (mount_of sys w) ds (mounts @ [(disk_image d, container_path sys w d)]) =
      (mounts @ [(disk_image d, container_path sys w d)]) @ map (\<lambda>d. (disk_image d, container_path sys w d)) ds"
    by (intro Cons.IH) (auto, metis image_eqI)
  moreover have "mount_of sys w d mounts = mounts @ [(disk_image d, container_path sys w d)]"
    using Cons.prems by (simp add: mount_of_def update_fresh)
  ultimately show ?case by simp
qed simp

lemma map_of_fold_mounts:
  "map_of (fold (mount_of sys w) (ds @ [d]) mounts) (disk_image d) = Some (container_path sys w d)"
  by (simp add: mount_of_def update_conv')

lemma distinct_fold_mounts:
  "distinct (map fst mounts) \<Longrightarrow> distinct (map fst (fold (mount_of sys w) ds mounts))"
  by (induction ds arbitrary: mounts) (auto simp: mount_of_def distinct_update)

section \<open>The UID\<close>

lemma and_nibble:
  "unat (x AND 0x0f :: 8 word) < 16" "unat (x AND 0x3f :: 8 word) < 64"
proof -
  have "x AND 0x0f = x mod 16"
    using take_bit_eq_mask [of 4 x] by (simp add: take_bit_eq_mod mask_numeral)
  moreover have "x AND 0x3f = x mod 64"
    using take_bit_eq_mask [of 6 x] by (simp add: take_bit_eq_mod mask_numeral)
  ultimately show "unat (x AND 0x0f :: 8 word) < 16" "unat (x AND 0x3f :: 8 word) < 64"
    by (simp_all add: unat_mod_distrib)
qed

lemma nibble_check:
  "list_all (\<lambda>n. unat ((word_of_nat n :: 8 word) OR 0x30) div 16 = 3) [0..<16]"
  "list_all (\<lambda>n. unat ((word_of_nat n :: 8 word) OR 0x80) div 16 \<in> {8, 9, 10, 11}) [0..<64]"
  by code_simp+

lemma nibbles:
  "unat ((x AND 0x0f) OR 0x30 :: 8 word) div 16 = 3"
  "unat ((x AND 0x3f) OR 0x80 :: 8 word) div 16 \<in> {8, 9, 10, 11}"
proof -
  have w: "word_of_nat (unat y) = y" for y :: "8 word" by simp
  have "unat (x AND 0x0f) \<in> set [0..<16]" "unat (x AND 0x3f) \<in> set [0..<64]"
    using and_nibble [of x] by simp_all
  then show "unat ((x AND 0x0f) OR 0x30 :: 8 word) div 16 = 3"
    "unat ((x AND 0x3f) OR 0x80 :: 8 word) div 16 \<in> {8, 9, 10, 11}"
    using nibble_check unfolding list_all_iff by (metis w)+
qed

lemma length_vm_uid_bytes: "length (vm_uid_bytes name) = 16"
  by (simp add: vm_uid_bytes_def Let_def length_md5_sum)

lemma vm_uid_shape:
  "length (vm_uid name) = 36"
  "vm_uid name ! 8 = CHR ''-''" "vm_uid name ! 13 = CHR ''-''"
  "vm_uid name ! 18 = CHR ''-''" "vm_uid name ! 23 = CHR ''-''"
  by (simp_all add: vm_uid_def Let_def length_vm_uid_bytes nth_append)

lemma format_hex_Cons: "format_hex (b # bs) = hex_char (unat b div 16) # hex_char (unat b mod 16) # format_hex bs"
  by (simp add: format_hex_def)

lemma vm_uid_version: "vm_uid name ! 14 = CHR ''3''" 
proof -
  let ?h = "vm_uid_bytes name"
  have "take 2 (drop 6 ?h) = [?h ! 6, ?h ! 7]"
    by (simp add: take_Suc_conv_app_nth length_vm_uid_bytes numeral_2_eq_2)
  moreover have "unat (?h ! 6) div 16 = 3"
    by (simp add: vm_uid_bytes_def Let_def length_md5_sum nibbles)
  moreover have "hex_char 3 = CHR ''3''" by code_simp
  ultimately show ?thesis
    by (simp add: vm_uid_def Let_def length_vm_uid_bytes nth_append format_hex_Cons)
qed

lemma vm_uid_variant: "vm_uid name ! 19 \<in> {CHR ''8'', CHR ''9'', CHR ''a'', CHR ''b''}" 
proof -
  let ?h = "vm_uid_bytes name"
  have "take 2 (drop 8 ?h) = [?h ! 8, ?h ! 9]"
    by (simp add: take_Suc_conv_app_nth length_vm_uid_bytes numeral_2_eq_2)
  moreover obtain y where "?h ! 8 = (y AND 0x3f) OR 0x80"
    by (simp add: vm_uid_bytes_def Let_def length_md5_sum)
  then have "unat (?h ! 8) div 16 \<in> {8, 9, 10, 11}" by (simp only: nibbles)
  moreover have "hex_char 8 = CHR ''8''" "hex_char 9 = CHR ''9''" "hex_char 10 = CHR ''a''" "hex_char 11 = CHR ''b''"
    by code_simp+
  ultimately show ?thesis
    by (auto simp: vm_uid_def Let_def length_vm_uid_bytes nth_append format_hex_Cons)
qed

section \<open>File names and paths in the container\<close>

lemma path_ext_qcow2: "path_ext (s @ ''.qcow2'') = ''.qcow2''"
  by (simp add: path_ext_def Let_def)

lemma plain_qcow2: "slash \<notin> set s \<Longrightarrow> plain (s @ ''.qcow2'')"
  by (cases s) (auto simp: plain_def)

lemma set_trim_suffix: "set (trim_suffix s p) \<subseteq> set s"
  by (auto simp: trim_suffix_def dest: in_set_takeD)

lemma container_disk_filename_plain:
  assumes "base p = f" and "plain f"
  shows "plain (container_disk_filename sys w p)"
proof -
  have "slash \<notin> set f" using assms(2) by (rule plain_no_slash)
  moreover have "slash \<notin> set (trim_suffix f (path_ext f))"
    using calculation set_trim_suffix by blast
  ultimately show ?thesis
    using assms by (auto simp: container_disk_filename_def Let_def intro: plain_qcow2)
qed

lemma container_disk_filename_ext:
  "is_qcow2_image sys w p \<Longrightarrow> equal_fold (path_ext (container_disk_filename sys w p)) ''.qcow2''"
  by (auto simp: container_disk_filename_def Let_def path_ext_qcow2)

lemma container_disk_filename_raw:
  "\<not> is_qcow2_image sys w p \<Longrightarrow> container_disk_filename sys w p = base p"
  by (simp add: container_disk_filename_def Let_def)

definition disk_base_comps :: "string list" where
  "disk_base_comps = [''var'', ''run'', ''kubevirt-private'', ''vmi-disks'']"

lemma disk_base_abs: "virt_launcher_disk_base = abs_path disk_base_comps"
  by (simp add: virt_launcher_disk_base_def abs_path_def disk_base_comps_def)

lemma disk_base_plain: "list_all plain disk_base_comps"
  by (simp add: disk_base_comps_def plain_def)

lemma container_path_plain:
  assumes "plain (disk_name d)" and "plain (base (disk_image d))"
  shows "container_path sys w d =
    abs_path (disk_base_comps @ [disk_name d, container_disk_filename sys w (disk_image d)])"
proof -
  have "plain (container_disk_filename sys w (disk_image d))"
    using assms(2) by (intro container_disk_filename_plain) simp_all
  then show ?thesis
    using assms(1) disk_base_plain unfolding container_path_def disk_base_abs
    by (subst join_path_plain) (simp_all add: disk_base_comps_def)
qed

section \<open>The whole object\<close>

lemma build_vmi_Inr:
  assumes "build_vmi sys w vm = Inr (vmi, mounts, pfs)"
  obtains (plain_vm) "vm_cloud_init vm = None" "\<forall>d\<in>set (vm_disks vm). disk_image d \<noteq> []"
      "vmidev_disks (vmidom_devices (vmis_domain (vmi_spec_of vmi))) = map vmi_disk_of (vm_disks vm)"
      "vmis_volumes (vmi_spec_of vmi) = map (host_volume sys w) (vm_disks vm)"
  | (cloud) ci ud where "vm_cloud_init vm = Some ci" "\<forall>d\<in>set (vm_disks vm). disk_image d \<noteq> []"
      "build_user_data (yaml_marshal_cc sys) ci = Inr ud"
      "vmidev_disks (vmidom_devices (vmis_domain (vmi_spec_of vmi))) =
         map vmi_disk_of (vm_disks vm) @ [\<lparr>vmid_name = ''cloudinitdisk'', vmid_bus = ''virtio''\<rparr>]"
      "vmis_volumes (vmi_spec_of vmi) =
         map (host_volume sys w) (vm_disks vm) @ [(empty_volume ''cloudinitdisk'')\<lparr>vmiv_cloud_init := Some ud\<rparr>]"
proof -
  have imgs: "\<forall>d\<in>set (vm_disks vm). disk_image d \<noteq> []"
    using assms add_disks_isl [of sys w "vm_disks vm" "([], [], [])"]
    by (auto simp: build_vmi_def Let_def isl_iff split: sum.splits)
  note run = assms [unfolded build_vmi_def Let_def add_disks_Inr [OF imgs]]
  show ?thesis
  proof (cases "vm_cloud_init vm")
    case None
    then show ?thesis using plain_vm imgs run by auto
  next
    case (Some ci)
    then show ?thesis using cloud [OF Some imgs] run
      by (cases "build_user_data (yaml_marshal_cc sys) ci") auto
  qed
qed

lemma build_vmi_rest:
  assumes "build_vmi sys w vm = Inr (vmi, mounts, pfs)"
  shows "mounts = fold (mount_of sys w) (vm_disks vm) []
    \<and> vmis_networks (vmi_spec_of vmi) = map vmi_network_of (vm_networks vm)
    \<and> vmidev_interfaces (vmidom_devices (vmis_domain (vmi_spec_of vmi))) = map (vmi_interface_of sys) (vm_networks vm)
    \<and> pfs = concat (map net_port_forwards (vm_networks vm))"
proof -
  have imgs: "\<forall>d\<in>set (vm_disks vm). disk_image d \<noteq> []"
    using assms by (rule build_vmi_Inr)
  note run = assms [unfolded build_vmi_def Let_def add_disks_Inr [OF imgs]]
  show ?thesis
  proof (cases "vm_cloud_init vm")
    case None
    then show ?thesis using run by auto
  next
    case (Some ci)
    then show ?thesis using run
      by (cases "build_user_data (yaml_marshal_cc sys) ci") auto
  qed
qed

lemma build_vmi_isl:
  "isl (build_vmi sys w vm) \<longleftrightarrow> (\<exists>d\<in>set (vm_disks vm). disk_image d = [])
     \<or> (\<exists>ci. vm_cloud_init vm = Some ci \<and> isl (yaml_marshal_cc sys (cloud_config_of ci)))"
proof (cases "\<exists>d\<in>set (vm_disks vm). disk_image d = []")
  case True
  then show ?thesis
    using add_disks_isl [of sys w "vm_disks vm" "([], [], [])"]
    by (auto simp: build_vmi_def Let_def isl_iff)
next
  case False
  then have imgs: "\<forall>d\<in>set (vm_disks vm). disk_image d \<noteq> []" by blast
  show ?thesis
    using False unfolding build_vmi_def Let_def add_disks_Inr [OF imgs]
    by (cases "vm_cloud_init vm") (auto simp: build_user_data_def split: sum.splits)
qed

lemma to_vmi_Inr:
  assumes "to_vmi sys w vm = Inr result"
  obtains vmi where "build_vmi sys w vm = Inr (vmi, res_host_mounts result, res_port_forwards result)"
    and "res_vmi_json result = render (vmi_object_json vmi)"
  using assms by (auto simp: to_vmi_def split: sum.splits prod.splits)

lemma to_vmi_Inr_iff:
  "(\<exists>result. to_vmi sys w vm = Inr result) \<longleftrightarrow>
     list_all (\<lambda>d. disk_image d \<noteq> []) (vm_disks vm)
     \<and> (case vm_cloud_init vm of None \<Rightarrow> True | Some ci \<Rightarrow> \<not> isl (yaml_marshal_cc sys (cloud_config_of ci)))"
proof -
  have "(\<exists>result. to_vmi sys w vm = Inr result) \<longleftrightarrow> \<not> isl (build_vmi sys w vm)"
    by (cases "build_vmi sys w vm") (auto simp: to_vmi_def split: prod.splits)
  then show ?thesis using build_vmi_isl [of sys w vm] by (auto simp: list_all_iff split: option.splits)
qed

lemma sample_build:
  "\<forall>d\<in>set ds. disk_image d \<noteq> [] \<Longrightarrow>
     \<exists>vmi mounts pfs. build_vmi sample_sys [] (sample_vm ds) = Inr (vmi, mounts, pfs)"
  using build_vmi_isl [of sample_sys "[]" "sample_vm ds"]
  by (cases "build_vmi sample_sys [] (sample_vm ds)") (auto simp: sample_vm_def)

section \<open>Properties\<close>

text \<open>
  C32: The conversion succeeds exactly when every disk has a local image and the cloud-init
  document, if there is one, can be marshalled.
\<close>

theorem to_vmi_succeeds_iff:
  "(\<exists>result. to_vmi sys w vm = Inr result) \<longleftrightarrow>
     list_all (\<lambda>d. disk_image d \<noteq> []) (vm_disks vm)
     \<and> (case vm_cloud_init vm of None \<Rightarrow> True | Some ci \<Rightarrow> \<not> isl (yaml_marshal_cc sys (cloud_config_of ci)))"
  by (rule to_vmi_Inr_iff)

text \<open>
  C33: In the VMI object every disk has the volume of the same name at the same position, the
  cloud-init disk last when there is one, and every network has its interface; the ports
  to publish are those of all networks, in order.
\<close>

theorem build_vmi_wellformed:
  assumes "build_vmi sys w vm = Inr (vmi, mounts, pfs)"
  shows "map vmid_name (vmidev_disks (vmidom_devices (vmis_domain (vmi_spec_of vmi)))) =
      map disk_name (vm_disks vm) @ (case vm_cloud_init vm of None \<Rightarrow> [] | Some _ \<Rightarrow> [''cloudinitdisk''])
    \<and> map vmiv_name (vmis_volumes (vmi_spec_of vmi)) =
      map vmid_name (vmidev_disks (vmidom_devices (vmis_domain (vmi_spec_of vmi))))
    \<and> map vmin_name (vmis_networks (vmi_spec_of vmi)) =
      map vmii_name (vmidev_interfaces (vmidom_devices (vmis_domain (vmi_spec_of vmi))))
    \<and> pfs = concat (map net_port_forwards (vm_networks vm))"
proof -
  have names: "vmid_name (vmi_disk_of d) = disk_name d" "vmiv_name (host_volume sys w d) = disk_name d"
    "vmin_name (vmi_network_of n) = vmii_name (vmi_interface_of sys n)" for d n
    by (simp_all add: vmi_disk_of_def host_volume_def empty_volume_def vmi_network_of_def vmi_interface_of_def)
  show ?thesis
    by (cases rule: build_vmi_Inr [OF assms])
      (simp_all add: build_vmi_rest [OF assms] names empty_volume_def)
qed

theorem build_vmi_wellformed_witness:
  "\<exists>vmi mounts pfs. build_vmi sample_sys [] (sample_vm [sample_disk ''root'' ''/img/a'']) = Inr (vmi, mounts, pfs)
     \<and> map vmiv_name (vmis_volumes (vmi_spec_of vmi)) = [''root'']"
proof -
  obtain vmi mounts pfs where
    b: "build_vmi sample_sys [] (sample_vm [sample_disk ''root'' ''/img/a'']) = Inr (vmi, mounts, pfs)"
    using sample_build [of "[sample_disk ''root'' ''/img/a'']"] by (auto simp: sample_disk_def)
  show ?thesis using build_vmi_wellformed [OF b] b by (auto simp: sample_vm_def sample_disk_def)
qed

text \<open>
  When no two disks share an image, the host mounts are exactly the disks' images, each
  mounted at the path of its host-disk volume.
\<close>

lemma host_mounts_distinct:
  assumes "build_vmi sys w vm = Inr (vmi, mounts, pfs)" and "distinct (map disk_image (vm_disks vm))"
  shows "mounts = map (\<lambda>d. (disk_image d, container_path sys w d)) (vm_disks vm)
    \<and> (\<forall>v\<in>set (vmis_volumes (vmi_spec_of vmi)). \<forall>h. vmiv_host_disk v = Some h \<longrightarrow> hd_path h \<in> snd ` set mounts)"
proof -
  have m: "mounts = map (\<lambda>d. (disk_image d, container_path sys w d)) (vm_disks vm)"
    using build_vmi_rest [OF assms(1)] fold_mounts_distinct [OF assms(2), of "[]"] by simp
  moreover have "hd_path h \<in> snd ` set mounts"
    if "v \<in> set (vmis_volumes (vmi_spec_of vmi))" "vmiv_host_disk v = Some h" for v h
    using that m
    by (cases rule: build_vmi_Inr [OF assms(1)]) (auto simp: host_volume_def empty_volume_def image_image)
  ultimately show ?thesis by blast
qed

lemma host_mounts_distinct_witness:
  "\<exists>vmi pfs mounts. build_vmi sample_sys [] (sample_vm [sample_disk ''a'' ''/i/a'', sample_disk ''b'' ''/i/b'']) = Inr (vmi, mounts, pfs)
     \<and> map fst mounts = [''/i/a'', ''/i/b'']"
proof -
  let ?ds = "[sample_disk ''a'' ''/i/a'', sample_disk ''b'' ''/i/b'']"
  obtain vmi mounts pfs where b: "build_vmi sample_sys [] (sample_vm ?ds) = Inr (vmi, mounts, pfs)"
    using sample_build [of ?ds] by (auto simp: sample_disk_def)
  show ?thesis using host_mounts_distinct [OF b] b by (auto simp: sample_vm_def sample_disk_def)
qed

text \<open>
  C34: The mounts are a map from the host image, so two disks with one image get one mount, at the
  path of the later disk: the path of the earlier disk's volume is not mounted unless it is
  the same.
\<close>

theorem host_mounts_shared:
  assumes "build_vmi sys w vm = Inr (vmi, mounts, pfs)" and "vm_disks vm = [d1, d2]"
    and "disk_image d1 = disk_image d2"
  shows "mounts = [(disk_image d2, container_path sys w d2)]
    \<and> host_volume sys w d1 \<in> set (vmis_volumes (vmi_spec_of vmi))"
  using assms(2,3) build_vmi_rest [OF assms(1)]
  by (cases rule: build_vmi_Inr [OF assms(1)]) (auto simp: mount_of_def)

theorem host_mounts_shared_witness:
  "\<exists>vmi pfs mounts. build_vmi sample_sys [] (sample_vm [sample_disk ''a'' ''/i/x'', sample_disk ''b'' ''/i/x'']) = Inr (vmi, mounts, pfs)
     \<and> length mounts = 1"
proof -
  let ?ds = "[sample_disk ''a'' ''/i/x'', sample_disk ''b'' ''/i/x'']"
  obtain vmi mounts pfs where b: "build_vmi sample_sys [] (sample_vm ?ds) = Inr (vmi, mounts, pfs)"
    using sample_build [of ?ds] by (auto simp: sample_disk_def)
  show ?thesis
    using host_mounts_shared [OF b, of "sample_disk ''a'' ''/i/x''" "sample_disk ''b'' ''/i/x''"] b
    by (simp add: sample_vm_def sample_disk_def)
qed

text \<open>
  Inside the container an image lies directly below the directory of its disk: with a plain
  disk name and a plain last component of the image path, the mount point is
  \<open>/var/run/kubevirt-private/vmi-disks/<disk>/<file>\<close>, the file has the extension \<open>.qcow2\<close>
  whenever the image is qcow2, and keeps its name otherwise.
\<close>

lemma container_path_confined:
  assumes "plain (disk_name d)" and "plain (base (disk_image d))"
  shows "\<exists>f. plain f \<and> container_path sys w d = abs_path (disk_base_comps @ [disk_name d, f])
    \<and> (if is_qcow2_image sys w (disk_image d) then equal_fold (path_ext f) ''.qcow2'' else f = base (disk_image d))"
  using container_path_plain [OF assms] container_disk_filename_plain [OF refl assms(2)]
    container_disk_filename_ext container_disk_filename_raw by metis

lemma container_path_confined_witness:
  "\<exists>f. plain f \<and> container_path sample_sys [] (sample_disk ''root'' ''a.img'') = abs_path (disk_base_comps @ [''root'', f])"
proof -
  have b: "base ''a.img'' = ''a.img''" by (simp add: base_def)
  have "plain (disk_name (sample_disk ''root'' ''a.img''))" "plain (base (disk_image (sample_disk ''root'' ''a.img'')))"
    by (simp_all add: sample_disk_def b) (simp_all add: plain_def)
  from container_path_confined [OF this, of sample_sys "[]"] show ?thesis by (auto simp: sample_disk_def)
qed

text \<open>
  The UID has the form of a version 3 UUID: 36 characters, dashes at the four places,
  the version digit 3 and a variant digit from 8 to b.
\<close>

lemma vm_uid_is_uuid3:
  "length (vm_uid name) = 36
   \<and> map (\<lambda>i. vm_uid name ! i) [8, 13, 18, 23] = ''----''
   \<and> vm_uid name ! 14 = CHR ''3'' \<and> vm_uid name ! 19 \<in> {CHR ''8'', CHR ''9'', CHR ''a'', CHR ''b''}"
  using vm_uid_shape vm_uid_version vm_uid_variant by simp

end
