(* ===== verification/PodmanFacts.thy ===== *)
theory PodmanFacts
  imports PodmanPkg ConverterFacts Validator
begin

text \<open>
  What the operations of \<open>pkg/podman\<close> guarantee: a helper container never outlives its use, the
  QEMU binary on the host is the one of the launcher image, and the container of a VM
  publishes and mounts what its configuration says.
\<close>

section \<open>The QEMU binary\<close>

lemma clear_caps_removes: "only_events (\<lambda>e. \<exists>p. e = RemoveFile p) (clear_caps_cache sys)"
  unfolding clear_caps_cache_def Let_def by (intro only_intros) blast

text \<open>The first entry of an archive whose name ends in \<open>qemu-kvm\<close>.\<close>

definition qemu_entry :: "(string \<times> (go_error + string)) list \<Rightarrow> (go_error + string) option" where
  "qemu_entry es = map_option snd (find (\<lambda>(n, _). base n = ''qemu-kvm'') es)"

lemma extract_qemu_Inr:
  "extract_qemu sys rp sp img es tend s = (Inr u, s') \<Longrightarrow>
     \<exists>content. qemu_entry es = Some content \<and> write_qemu_binary sys rp sp img content s = (Inr u, s')"
  by (induction sys rp sp img es tend rule: extract_qemu.induct)
    (auto simp: qemu_entry_def split: if_splits option.splits)

lemma write_qemu_binary_Inr:
  assumes "write_qemu_binary sys rp sp img content s = (Inr u, s')"
  obtains d1 w1 d2 w2 d3 where "os_create sys rp (ext s) = (Inr (), d1, w1)"
    and "io_copy sys rp content w1 = (Inr (), d2, w2)"
    and "os_write_file sys sp img w2 = (Inr (), d3, ext s')"
    and "log s' = log s @ [CreateFile rp, CopyInto rp, WriteFile sp img]"
  using assms
  by (auto simp: write_qemu_binary_def run_bindE run_wrapE run_attempt call_def split: prod.splits sum.splits)

lemma call_log: "call e f s = (r, s') \<Longrightarrow> log s' = log s @ [e]"
  by (auto simp: call_def split: prod.splits)

lemma wrapE_Inr: "wrapE w m s = (Inr x, s') \<longleftrightarrow> m s = (Inr x, s')"
  by (auto simp: run_wrapE split: prod.splits sum.splits)

lemma run_attempt_query: "bindE (attempt (query g)) f s = f (g (ext s)) s"
  by (simp add: run_bindE run_attempt query_def)

lemma call_ext: "call e f s = (r, s') \<Longrightarrow> \<exists>d. f (ext s) = (r, d, ext s')"
  by (auto simp: call_def split: prod.splits)

text \<open>The way a successful run takes when the binary has to be extracted.\<close>

lemma ensure_qemu_binary_Inr:
  fixes d img :: string
  defines "real \<equiv> join_path [d, ''qemu-kvm-real'']" and "stamp \<equiv> join_path [d, ''qemu-kvm-real.image'']"
    and "path \<equiv> ''/usr/libexec/qemu-kvm''"
  assumes "ensure_qemu_binary sys img d s = (Inr u, s')"
    and "\<not> (os_read_file sys (ext s) stamp = Inr img \<and> os_stat sys (ext s) real = Inr ())"
  obtains r1 s1 r2 s2 cid s3 where "call (RemoveFile real) (os_remove sys real) s = (r1, s1)"
    and "clear_caps_cache sys s1 = (Inr r2, s2)"
    and "call (CtrCreate (temp_container_spec img)) (ctr_create sys (temp_container_spec img)) s2 = (Inr cid, s3)"
    and "deferE
         (bindE (wrapE (\<lambda>e. Errorf ''copying QEMU binary from image: %w'' [FErr e])
                (call (CtrCopy cid path) (ctr_copy sys cid path)))
           (\<lambda>ts. extract_qemu sys real stamp img (tar_entries ts) (tar_end ts)))
         (call (CtrRemove cid True) (ctr_remove sys cid True)) s3 = (Inr u, s')"
proof -
  have "bindE (attempt (call (RemoveFile real) (os_remove sys real))) (\<lambda>_. bindE (clear_caps_cache sys) (\<lambda>_.
      bindE (wrapE (\<lambda>e. Errorf ''creating temporary container to extract QEMU binary: %w'' [FErr e])
        (call (CtrCreate (temp_container_spec img)) (ctr_create sys (temp_container_spec img)))) (\<lambda>cid.
      deferE
         (bindE (wrapE (\<lambda>e. Errorf ''copying QEMU binary from image: %w'' [FErr e])
                (call (CtrCopy cid path) (ctr_copy sys cid path)))
           (\<lambda>ts. extract_qemu sys real stamp img (tar_entries ts) (tar_end ts)))
         (call (CtrRemove cid True) (ctr_remove sys cid True))))) s = (Inr u, s')"
    using assms(4,5) unfolding ensure_qemu_binary_def Let_def run_attempt_query real_def stamp_def path_def
    by (simp only: if_False)
  then obtain r1 s1 r2 s2 cid s3 where a: "attempt (call (RemoveFile real) (os_remove sys real)) s = (Inr r1, s1)"
    and b: "clear_caps_cache sys s1 = (Inr r2, s2)"
    and c: "wrapE (\<lambda>e. Errorf ''creating temporary container to extract QEMU binary: %w'' [FErr e])
        (call (CtrCreate (temp_container_spec img)) (ctr_create sys (temp_container_spec img))) s2 = (Inr cid, s3)"
    and d: "deferE
         (bindE (wrapE (\<lambda>e. Errorf ''copying QEMU binary from image: %w'' [FErr e])
                (call (CtrCopy cid path) (ctr_copy sys cid path)))
           (\<lambda>ts. extract_qemu sys real stamp img (tar_entries ts) (tar_end ts)))
         (call (CtrRemove cid True) (ctr_remove sys cid True)) s3 = (Inr u, s')"
    by (elim bindE_Inr_E)
  from a have a': "call (RemoveFile real) (os_remove sys real) s = (r1, s1)"
    by (simp add: run_attempt split: prod.splits)
  from c have "call (CtrCreate (temp_container_spec img)) (ctr_create sys (temp_container_spec img)) s2 = (Inr cid, s3)"
    by (simp add: wrapE_Inr)
  with a' b show ?thesis using d by (rule that)
qed

section \<open>Ports and mounts\<close>

lemma valid_port_published:
  assumes "valid_port_forward pf"
  shows "uint (pm_host_port (port_mapping_of sys pf)) = pf_host_port pf"
    "uint (pm_container_port (port_mapping_of sys pf)) = pf_vm_port pf"
    "pm_protocol (port_mapping_of sys pf) = (if pf_protocol pf = [] then ''tcp'' else pf_protocol pf)"
proof -
  have "to_lower u ''tcp'' = ''tcp''" "to_lower u ''udp'' = ''udp''" for u
    by (simp_all add: to_lower_def ascii_lower_def is_ascii_def)
  then show "pm_protocol (port_mapping_of sys pf) = (if pf_protocol pf = [] then ''tcp'' else pf_protocol pf)"
    using assms by (auto simp: port_mapping_of_def valid_port_forward_def Let_def)
qed (use assms in \<open>simp_all add: port_mapping_of_def valid_port_forward_def Let_def uint_word_of_int\<close>)

lemma fst_fold_mounts: "fst ` set (fold (mount_of sys w) ds mounts) = fst ` set mounts \<union> disk_image ` set ds"
  by (induction ds arbitrary: mounts) (auto simp: mount_of_def dom_update image_iff)

lemma host_mounts_mounted:
  "fst ` set (map_order sys (res_host_mounts result))
     \<subseteq> mnt_source ` set (sg_mounts (vm_container_spec sys name img result dirs))"
proof clarify
  fix h c assume "(h, c) \<in> set (map_order sys (res_host_mounts result))"
  then have "bind_mount h c [''bind'', ''z''] \<in> set (sg_mounts (vm_container_spec sys name img result dirs))"
    by (cases dirs) (force simp: vm_container_spec_def build_mounts_def Let_def)
  moreover have "mnt_source (bind_mount h c [''bind'', ''z'']) = h" by (simp add: bind_mount_def)
  ultimately show "fst (h, c) \<in> mnt_source ` set (sg_mounts (vm_container_spec sys name img result dirs))"
    by (metis fst_conv image_eqI)
qed

text \<open>Facts on the sample world.\<close>

lemma sample_label: "dns_label ''vm1''"
  by code_simp

lemma sample_valid:
  assumes "\<forall>d\<in>set ds. valid_disk missing d"
  shows "valid_vm missing (sample_vm ds)"
  using assms valid_default_memory sample_label
  by (simp add: valid_vm_def sample_vm_def valid_network_def word_le_def)

lemma base_qemu_kvm: "base ''qemu-kvm'' = ''qemu-kvm''"
  by code_simp

section \<open>Properties\<close>

text \<open>
  C18: A helper container never outlives its use. Whatever Podman answers, a one-shot run starts by
  creating the container, and when it was created the last thing that happens is its forced
  removal. The run reports success exactly when the container started, ended with exit code 0
  and its logs could be read, and then returns the two streams of these logs.
\<close>

theorem one_shot_contract:
  assumes "ctr_create sys (one_shot_spec img mounts ep cmd) (ext s) = (c, d1, w1)"
  shows "\<exists>out err failed t. run_one_shot_container sys img mounts ep cmd s =
        (Inr (out, err, failed), snd (run_one_shot_container sys img mounts ep cmd s))
    \<and> log (snd (run_one_shot_container sys img mounts ep cmd s)) = log s @ CtrCreate (one_shot_spec img mounts ep cmd) # t
    \<and> (case c of
         Inl e \<Rightarrow> t = [] \<and> failed = Some (Errorf ''creating helper container: %w'' [FErr e])
       | Inr cid \<Rightarrow> t \<noteq> [] \<and> last t = CtrRemove cid True \<and> prefix (butlast t) [CtrStart cid, CtrWait cid, CtrLogs cid]
           \<and> (failed = None \<longleftrightarrow> (\<exists>d2 w2 d3 w3 d4 w4 ls. ctr_start sys cid w1 = (Inr (), d2, w2)
               \<and> ctr_wait sys cid w2 = (Inr 0, d3, w3) \<and> ctr_logs sys cid w3 = (Inr (ls, None), d4, w4)
               \<and> out = out_text ls \<and> err = err_text ls)))"
proof (cases c)
  case (Inl e)
  then show ?thesis using assms by (simp add: run_one_shot_container_def run_bindE run_attempt call_def Let_def)
next
  case (Inr cid)
  obtain r2 d2 w2 where st: "ctr_start sys cid w1 = (r2, d2, w2)" by (metis prod_cases3)
  obtain r3 d3 w3 where wt: "ctr_wait sys cid w2 = (r3, d3, w3)" by (metis prod_cases3)
  obtain r4 d4 w4 where lg: "ctr_logs sys cid w3 = (r4, d4, w4)" by (metis prod_cases3)
  note run = run_one_shot_container_def collect_container_logs_def run_bindE run_attempt run_deferE call_def Let_def
  show ?thesis
  proof (cases r2)
    case (Inl e)
    then show ?thesis using assms Inr st by (simp add: run split: prod.splits)
  next
    case (Inr u)
    show ?thesis
      using assms \<open>c = Inr cid\<close> st wt lg Inr
      by (cases r3; cases r4) (auto simp: run split: prod.splits option.splits)
  qed
qed

theorem one_shot_contract_witness:
  "\<exists>t. log (snd (run_one_shot_container sample_sys ''launcher'' [] [''qemu-img''] [] (sample_st []))) =
      CtrCreate (one_shot_spec ''launcher'' [] [''qemu-img''] []) # t
    \<and> last t = CtrRemove ''0123456789abcdef'' True"
proof -
  have "ctr_create sample_sys (one_shot_spec ''launcher'' [] [''qemu-img''] []) (ext (sample_st [])) =
      (Inr ''0123456789abcdef'', 1, [])"
    by (simp add: sample_run)
  from one_shot_contract [OF this] show ?thesis by (auto simp: sample_st_def)
qed

text \<open>
  C11: The QEMU binary that a launcher gets is complete and its own. When \<open>ensureQemuBinary\<close>
  succeeds, either the stamp already named this image and the binary was there, and nothing
  happened; or the old binary was removed first, the archive of a temporary container of the
  image had an entry \<open>qemu-kvm\<close>, which was copied without an error, and only then the stamp was
  written; the temporary container was removed last.
\<close>

theorem qemu_binary_installed:
  assumes "ensure_qemu_binary sys img d s = (Inr u, s')"
  shows "let real = join_path [d, ''qemu-kvm-real'']; stamp = join_path [d, ''qemu-kvm-real.image''] in
    (os_read_file sys (ext s) stamp = Inr img \<and> os_stat sys (ext s) real = Inr () \<and> s' = s)
    \<or> (\<exists>t cid w0 d0 w1 ts d1 w2 content d2 w3 d3 w4 d4 w5.
        log s' = log s @ RemoveFile real # t @ [CtrCreate (temp_container_spec img),
          CtrCopy cid ''/usr/libexec/qemu-kvm'', CreateFile real, CopyInto real, WriteFile stamp img, CtrRemove cid True]
        \<and> list_all (\<lambda>e. \<exists>p. e = RemoveFile p) t
        \<and> ctr_create sys (temp_container_spec img) w0 = (Inr cid, d0, w1)
        \<and> ctr_copy sys cid ''/usr/libexec/qemu-kvm'' w1 = (Inr ts, d1, w2)
        \<and> qemu_entry (tar_entries ts) = Some content
        \<and> os_create sys real w2 = (Inr (), d2, w3) \<and> io_copy sys real content w3 = (Inr (), d3, w4)
        \<and> os_write_file sys stamp img w4 = (Inr (), d4, w5)
        \<and> ext s' = snd (snd (ctr_remove sys cid True w5)))"
proof -
  let ?real = "join_path [d, ''qemu-kvm-real'']" and ?stamp = "join_path [d, ''qemu-kvm-real.image'']"
  let ?path = "''/usr/libexec/qemu-kvm''" and ?spec = "temp_container_spec img"
  show ?thesis
  proof (cases "os_read_file sys (ext s) ?stamp = Inr img \<and> os_stat sys (ext s) ?real = Inr ()")
    case True
    then show ?thesis using assms by (simp add: ensure_qemu_binary_def Let_def run_bindE run_attempt query_def)
  next
    case False
    obtain r1 s1 r2 s2 cid s3 where
      rm: "call (RemoveFile ?real) (os_remove sys ?real) s = (r1, s1)" and
      caps: "clear_caps_cache sys s1 = (Inr r2, s2)" and
      cr: "call (CtrCreate ?spec) (ctr_create sys ?spec) s2 = (Inr cid, s3)" and
      rest: "deferE
         (bindE (wrapE (\<lambda>e. Errorf ''copying QEMU binary from image: %w'' [FErr e])
                (call (CtrCopy cid ?path) (ctr_copy sys cid ?path)))
           (\<lambda>ts. extract_qemu sys ?real ?stamp img (tar_entries ts) (tar_end ts)))
         (call (CtrRemove cid True) (ctr_remove sys cid True)) s3 = (Inr u, s')"
      by (rule ensure_qemu_binary_Inr [OF assms False])
    from rest obtain ts s4 s5 r6 where
      cp: "call (CtrCopy cid ?path) (ctr_copy sys cid ?path) s3 = (Inr ts, s4)" and
      ex: "extract_qemu sys ?real ?stamp img (tar_entries ts) (tar_end ts) s4 = (Inr u, s5)" and
      rm2: "call (CtrRemove cid True) (ctr_remove sys cid True) s5 = (r6, s')"
      by (auto simp: run_deferE run_bindE run_wrapE split: prod.splits sum.splits)
    obtain content where c: "qemu_entry (tar_entries ts) = Some content"
      and wq: "write_qemu_binary sys ?real ?stamp img content s4 = (Inr u, s5)"
      using extract_qemu_Inr [OF ex] by blast
    from wq obtain d1 w1 d2 w2 d3 where w: "os_create sys ?real (ext s4) = (Inr (), d1, w1)"
      "io_copy sys ?real content w1 = (Inr (), d2, w2)" "os_write_file sys ?stamp img w2 = (Inr (), d3, ext s5)"
      "log s5 = log s4 @ [CreateFile ?real, CopyInto ?real, WriteFile ?stamp img]"
      by (rule write_qemu_binary_Inr)
    obtain t where t: "log s2 = log s1 @ t" "list_all (\<lambda>e. \<exists>p. e = RemoveFile p) t"
      using only_eventsD [OF clear_caps_removes caps] by blast
    have logs: "log s1 = log s @ [RemoveFile ?real]" "log s3 = log s2 @ [CtrCreate ?spec]"
      "log s4 = log s3 @ [CtrCopy cid ?path]" "log s' = log s5 @ [CtrRemove cid True]"
      using rm cr cp rm2 by (auto dest!: call_log)
    obtain d4 d5 where ops: "ctr_create sys ?spec (ext s2) = (Inr cid, d4, ext s3)"
      "ctr_copy sys cid ?path (ext s3) = (Inr ts, d5, ext s4)"
      "ext s' = snd (snd (ctr_remove sys cid True (ext s5)))"
      using cr cp rm2 by (auto dest!: call_ext)
    have "log s' = log s @ RemoveFile ?real # t @ [CtrCreate ?spec,
        CtrCopy cid ?path, CreateFile ?real, CopyInto ?real, WriteFile ?stamp img, CtrRemove cid True]"
      by (simp add: logs w(4) t(1))
    then show ?thesis
      unfolding Let_def using t(2) ops c w(1-3) by blast
  qed
qed

theorem qemu_binary_installed_witness:
  "\<exists>t cid. log (snd (ensure_qemu_binary sample_sys ''launcher'' ''/s'' (sample_st []))) =
      RemoveFile ''/s/qemu-kvm-real'' # t @ [CtrRemove cid True]"
proof -
  have j: "join_path [''/s'', ''qemu-kvm-real''] = ''/s/qemu-kvm-real''" by code_simp
  have "fst (ensure_qemu_binary sample_sys ''launcher'' ''/s'' (sample_st [])) = Inr ()"
    by (simp add: ensure_qemu_binary_def clear_caps_cache_def user_cache_dir_def write_qemu_binary_def
        base_qemu_kvm temp_container_spec_def sample_run split: prod.splits)
  then obtain s' where r: "ensure_qemu_binary sample_sys ''launcher'' ''/s'' (sample_st []) = (Inr (), s')"
    by (metis prod.collapse)
  have "os_read_file sample_sys w p \<noteq> Inr x" for w p x by (simp add: sample_sys_def)
  then obtain t cid where "log s' = log (sample_st []) @ RemoveFile ''/s/qemu-kvm-real'' # t @
      [CtrCreate (temp_container_spec ''launcher''), CtrCopy cid ''/usr/libexec/qemu-kvm'',
       CreateFile ''/s/qemu-kvm-real'', CopyInto ''/s/qemu-kvm-real'',
       WriteFile (join_path [''/s'', ''qemu-kvm-real.image'']) ''launcher'', CtrRemove cid True]"
    using qemu_binary_installed [OF r, unfolded Let_def j] by blast
  then have "log s' = RemoveFile ''/s/qemu-kvm-real'' # (t @
      [CtrCreate (temp_container_spec ''launcher''), CtrCopy cid ''/usr/libexec/qemu-kvm'',
       CreateFile ''/s/qemu-kvm-real'', CopyInto ''/s/qemu-kvm-real'',
       WriteFile (join_path [''/s'', ''qemu-kvm-real.image'']) ''launcher'']) @ [CtrRemove cid True]"
    by (simp add: sample_st_def)
  then show ?thesis unfolding r snd_conv by blast
qed

text \<open>
  C12: The container of a validated VM publishes exactly the port forwards of its networks, in order
  and with no number changed by the 16-bit conversion, carries the JSON of the VMI, and
  mounts the image of every disk. That iterating over the mounts visits each of them once is
  assumed of Go's maps.
\<close>

theorem vm_container_published:
  assumes "valid_vm missing vm" and "to_vmi sys w vm = Inr result"
    and "set (map_order sys (res_host_mounts result)) = set (res_host_mounts result)"
  shows "map (\<lambda>pm. (uint (pm_host_port pm), uint (pm_container_port pm), pm_protocol pm))
      (sg_port_mappings (vm_container_spec sys name img result dirs)) =
    map (\<lambda>pf. (pf_host_port pf, pf_vm_port pf, if pf_protocol pf = [] then ''tcp'' else pf_protocol pf))
      (concat (map net_port_forwards (vm_networks vm)))
    \<and> (''STANDALONE_VMI'', res_vmi_json result) \<in> set (sg_env (vm_container_spec sys name img result dirs))
    \<and> disk_image ` set (vm_disks vm) \<subseteq> mnt_source ` set (sg_mounts (vm_container_spec sys name img result dirs))"
proof -
  obtain vmi where b: "build_vmi sys w vm = Inr (vmi, res_host_mounts result, res_port_forwards result)"
    using assms(2) by (rule to_vmi_Inr)
  from build_vmi_rest [OF this] have pfs: "res_port_forwards result = concat (map net_port_forwards (vm_networks vm))"
    and m: "res_host_mounts result = fold (mount_of sys w) (vm_disks vm) []"
    by blast+
  have v: "\<forall>pf\<in>set (res_port_forwards result). valid_port_forward pf"
    using assms(1) by (auto simp: pfs valid_vm_def valid_network_def)
  have "fst ` set (res_host_mounts result) = disk_image ` set (vm_disks vm)"
    unfolding m by (simp add: fst_fold_mounts)
  then have "disk_image ` set (vm_disks vm) \<subseteq> mnt_source ` set (sg_mounts (vm_container_spec sys name img result dirs))"
    using assms(3) host_mounts_mounted [of sys result name img dirs] by auto
  moreover have "(''STANDALONE_VMI'', res_vmi_json result) \<in> set (sg_env (vm_container_spec sys name img result dirs))"
    by (simp add: vm_container_spec_def split: prod.splits)
  moreover have "sg_port_mappings (vm_container_spec sys name img result dirs) = map (port_mapping_of sys) (res_port_forwards result)"
    by (simp add: vm_container_spec_def build_port_mappings_def split: prod.splits)
  ultimately show ?thesis
    using v by (simp add: valid_port_published pfs [symmetric])
qed

theorem vm_container_published_witness:
  "disk_image ` set (vm_disks (sample_vm [sample_disk ''root'' ''/images/a.qcow2''])) \<subseteq>
     mnt_source ` set (sg_mounts (vm_container_spec sample_sys ''vm1'' ''launcher''
       (case to_vmi sample_sys [] (sample_vm [sample_disk ''root'' ''/images/a.qcow2'']) of Inr r \<Rightarrow> r) ([], [], [])))"
proof -
  let ?vm = "sample_vm [sample_disk ''root'' ''/images/a.qcow2'']"
  have "valid_vm (\<lambda>_. False) ?vm"
    by (rule sample_valid) (simp add: sample_disk_def valid_disk_def)
  moreover obtain vmi mounts pfs where "build_vmi sample_sys [] ?vm = Inr (vmi, mounts, pfs)"
    using sample_build [of "[sample_disk ''root'' ''/images/a.qcow2'']"] by (auto simp: sample_disk_def)
  then obtain result where r: "to_vmi sample_sys [] ?vm = Inr result" by (simp add: to_vmi_def)
  moreover have "map_order sample_sys xs = xs" for xs by (simp add: sample_sys_def)
  ultimately show ?thesis
    using vm_container_published [of "\<lambda>_. False" ?vm sample_sys "[]" result "''vm1''" "''launcher''" "([], [], [])"]
    by simp
qed

end
