(* ===== verification/CreateConfigProps.thy ===== *)
theory CreateConfigProps
  imports CreateConfig "HOL-Library.Multiset"
begin

text \<open>
  What the flags of \<open>podvirt create\<close> make of the configuration: which flags give a valid one,
  what the port flags say and where they go, and the cloud-init section.
\<close>

section \<open>Flags and validation\<close>

text \<open>The disks that \<open>--disk\<close> and \<open>--image\<close> give.\<close>

definition flag_disks :: "string \<Rightarrow> string \<Rightarrow> disk_spec list" where
  "flag_disks dsk img =
     (if dsk = [] then [] else [\<lparr>disk_name = ''disk0'', disk_src = \<lparr>src_image = dsk, src_container_image = []\<rparr>,
         disk_size = [], disk_bus = ''virtio''\<rparr>])
      @ (if img = [] then [] else [\<lparr>disk_name = ''containerdisk'', disk_src = \<lparr>src_image = [], src_container_image = img\<rparr>,
         disk_size = [], disk_bus = ''virtio''\<rparr>])"

lemma set_flag_disks:
  "vm_disks vm = [] \<Longrightarrow> set_container_disk img (set_local_disk dsk vm) = set_disks (flag_disks dsk img) vm"
  by (simp add: set_local_disk_def set_container_disk_def flag_disks_def Let_def)

lemma flag_disks_valid: "(\<forall>d\<in>set (flag_disks dsk img). valid_disk missing d) \<longleftrightarrow> (dsk = [] \<or> \<not> missing dsk)"
  by (simp add: flag_disks_def valid_disk_def)

lemma flag_disks_bus: "map default_disk_bus (flag_disks dsk img) = flag_disks dsk img"
  by (simp add: flag_disks_def default_disk_bus_def)

lemma cores_of_flag:
  "(if word_of_int cpus = (0 :: u32) then 1 else word_of_int cpus :: u32) \<in> {1..256} \<longleftrightarrow> cpus mod 2 ^ 32 \<le> 256"
proof -
  have "uint (word_of_int cpus :: u32) = cpus mod 2 ^ 32" by (simp add: uint_word_of_int)
  moreover have "(word_of_int cpus :: u32) \<le> 256 \<longleftrightarrow> uint (word_of_int cpus :: u32) \<le> 256"
    by (simp add: word_le_def)
  moreover have "w \<noteq> 0 \<Longrightarrow> 1 \<le> w" for w :: u32 by unat_arith
  ultimately show ?thesis by auto
qed

lemma load_from_flags_valid:
  assumes "load_from_flags name mem cpus dsk img = Inr vm"
  shows "valid_vm missing vm \<longleftrightarrow> dns_label name \<and> cpus mod 2 ^ 32 \<le> 256
    \<and> (mem = [] \<or> valid_quantity mem) \<and> (dsk = [] \<or> \<not> missing dsk)"
proof -
  let ?cores = "if word_of_int cpus = (0 :: u32) then 1 else word_of_int cpus"
  let ?mem = "if mem = [] then ''1Gi'' else mem"
  have vm: "vm_name vm = name" "vm_disks vm = flag_disks dsk img" "vm_networks vm = [default_network]"
      "cpu_cores (spec_cpu (vm_spec vm)) = ?cores" "spec_memory (vm_spec vm) = ?mem" "vm_cloud_init vm = None"
      "spec_console (vm_spec vm) = Some \<lparr>console_type = ''vnc'', console_port = 5900\<rparr>"
    using assms
    by (simp_all add: load_from_flags_def Let_def set_flag_disks apply_defaults_def default_network_def
        flag_disks_bus split: if_split_asm) auto
  have "valid_network default_network" by (simp add: valid_network_def default_network_def)
  moreover have "valid_quantity ?mem \<longleftrightarrow> mem = [] \<or> valid_quantity mem" by (simp add: valid_default_memory)
  ultimately show ?thesis
    unfolding valid_vm_def vm using cores_of_flag [of cpus] flag_disks_valid [of dsk img missing] by simp
qed

section \<open>Port flags\<close>

text \<open>A forward as the flag writes it.\<close>

definition port_flag :: "port_forward \<Rightarrow> string" where
  "port_flag pf = format_int (pf_host_port pf) @ CHR '':'' # format_int (pf_vm_port pf) @ slash # pf_protocol pf"

definition int64 :: "int \<Rightarrow> bool" where
  "int64 i \<longleftrightarrow> - (2 ^ 63) \<le> i \<and> i < 2 ^ 63"

lemma format_int_notin: "\<not> is_digit c \<Longrightarrow> c \<noteq> CHR ''-'' \<Longrightarrow> c \<notin> set (format_int i)"
  by (auto simp: format_int_def Let_def format_uint_notin)

lemma parse_port_flag:
  assumes "int64 (pf_host_port pf)" "int64 (pf_vm_port pf)" "slash \<notin> set (pf_protocol pf)"
  shows "parse_port_forward u (port_flag pf) = Inr (pf\<lparr>pf_protocol := to_lower u (pf_protocol pf)\<rparr>)"
proof -
  have "\<not> is_digit slash" "\<not> is_digit CHR '':''" by (simp_all add: is_digit_def)
  then have colon: "CHR '':'' \<notin> set (format_int i)" for i by (intro format_int_notin) simp_all
  have "cut_last slash (port_flag pf) =
      Some (format_int (pf_host_port pf) @ CHR '':'' # format_int (pf_vm_port pf), pf_protocol pf)"
    using assms(3) cut_last_append [of slash "pf_protocol pf"
      "format_int (pf_host_port pf) @ CHR '':'' # format_int (pf_vm_port pf)"]
    by (simp add: port_flag_def)
  then show ?thesis
    using assms(1,2) colon
    by (simp add: parse_port_forward_def cut_append atoi_format_int int64_def)
qed

text \<open>Where the forwards go: one network is extended, unless there is none.\<close>

lemma apply_port_forwards_updates:
  assumes "vm_networks vm \<noteq> []"
  obtains i n where "i < length (vm_networks vm)"
    and "apply_port_forwards vm pfs = set_networks ((vm_networks vm)[i := n]) vm"
    and "net_type n = ''masquerade''" and "net_name n = net_name (vm_networks vm ! i)"
    and "net_port_forwards n = net_port_forwards (vm_networks vm ! i) @ pfs"
proof (cases "find_index (\<lambda>n. net_type n = ''masquerade'') (vm_networks vm)")
  case None
  then show ?thesis
    using assms that [of 0 "add_forwards pfs ((vm_networks vm ! 0)\<lparr>net_type := ''masquerade''\<rparr>)"]
    by (simp add: apply_port_forwards_def add_forwards_def Let_def)
next
  case (Some i)
  then have "apply_port_forwards vm pfs = set_networks ((vm_networks vm)[i := add_forwards pfs (vm_networks vm ! i)]) vm"
    by (simp add: apply_port_forwards_def Let_def)
  moreover have "i < length (vm_networks vm)" "net_type (vm_networks vm ! i) = ''masquerade''"
    using Some by (simp_all add: find_index_Some)
  ultimately show ?thesis
    using that [of i "add_forwards pfs (vm_networks vm ! i)"] by (simp add: add_forwards_def)
qed

lemma mset_concat_update:
  assumes "i < length xs" and "f x = f (xs ! i) @ ys"
  shows "mset (concat (map f (xs[i := x]))) = mset (concat (map f xs)) + mset ys"
  using assms
proof (induction xs arbitrary: i)
  case (Cons a xs)
  then show ?case by (cases i) auto
qed simp

section \<open>Cloud-init\<close>

lemma forE_reads:
  assumes "forE xs g s = (Inr ys, s')" and "\<And>x y s1. g x s = (Inr y, s1) \<Longrightarrow> s1 = s \<and> R x y"
  shows "s' = s \<and> list_all2 R xs ys"
  using assms(1)
proof (induction xs arbitrary: ys)
  case (Cons x xs)
  then obtain y s1 zs where g: "g x s = (Inr y, s1)" and f: "forE xs g s1 = (Inr zs, s')" and "ys = y # zs"
    by (auto elim!: bindE_Inr_E)
  then show ?case using assms(2) [OF g] Cons.IH by auto
qed simp

lemma read_key_Inr:
  "bindE (wrapE w (query (\<lambda>wd. os_read_file sys wd f))) (\<lambda>data. ok (trim_space data)) s = (Inr k, s1) \<Longrightarrow>
     s1 = s \<and> (\<exists>data. os_read_file sys (ext s) f = Inr data \<and> k = trim_space data)"
  by (auto simp: run_bindE run_wrapE query_def split: sum.splits)

lemma merge_cloud_init_parts:
  "ci_ssh_keys (merge_cloud_init c opts keys) = (case c of None \<Rightarrow> [] | Some ci \<Rightarrow> ci_ssh_keys ci) @ keys"
  "ci_password (merge_cloud_init c opts keys) =
     (if co_password opts \<noteq> [] then co_password opts
      else case c of None \<Rightarrow> default_cloud_init_password
      | Some ci \<Rightarrow> if ci_password ci = [] then default_cloud_init_password else ci_password ci)"
  "ci_user (merge_cloud_init c opts keys) =
     (if co_user opts \<noteq> [] then co_user opts
      else case c of None \<Rightarrow> default_cloud_init_user
      | Some ci \<Rightarrow> if ci_user ci = [] then default_cloud_init_user else ci_user ci)"
  by (auto simp: merge_cloud_init_def Let_def empty_cloud_init_def split: option.splits)

text \<open>The SSH keys a run may use, given the files named by flags.\<close>

definition keys_of :: "'w sys \<Rightarrow> 'w \<Rightarrow> string list \<Rightarrow> bool \<Rightarrow> string list \<Rightarrow> bool" where
  "keys_of sys w files explicit keys \<longleftrightarrow>
     (if files \<noteq> [] \<or> explicit
      then list_all2 (\<lambda>f k. \<exists>data. os_read_file sys w f = Inr data \<and> k = trim_space data) files keys
      else keys = [] \<or> (\<exists>home n data. user_home_dir sys = Inr home
        \<and> n \<in> {''id_ed25519.pub'', ''id_rsa.pub'', ''id_ecdsa.pub''}
        \<and> os_read_file sys w (home @ ''/.ssh/'' @ n) = Inr data \<and> trim_space data \<noteq> [] \<and> keys = [trim_space data]))"

lemma first_ssh_key_Inr:
  assumes "first_ssh_key sys ps s = (Inr keys, s')"
  shows "ext s' = ext s \<and> (keys = [] \<or> (\<exists>p\<in>set ps. \<exists>data. os_read_file sys (ext s) p = Inr data
    \<and> trim_space data \<noteq> [] \<and> keys = [trim_space data]))"
  using assms
  by (induction ps) (auto simp: run_bindE run_attempt query_def say_def emit_def Let_def split: sum.splits if_splits)

lemma default_key_Inr:
  assumes "first_ssh_key sys [home @ ''/.ssh/id_ed25519.pub'', home @ ''/.ssh/id_rsa.pub'', home @ ''/.ssh/id_ecdsa.pub''] s
    = (Inr keys, s')"
  shows "ext s' = ext s \<and> (keys = [] \<or> (\<exists>n data. n \<in> {''id_ed25519.pub'', ''id_rsa.pub'', ''id_ecdsa.pub''}
        \<and> os_read_file sys (ext s) (home @ ''/.ssh/'' @ n) = Inr data \<and> trim_space data \<noteq> [] \<and> keys = [trim_space data]))"
  using first_ssh_key_Inr [OF assms] by fastforce

lemma resolve_ssh_keys_Inr:
  assumes "resolve_ssh_keys sys files explicit s = (Inr keys, s')"
  shows "ext s' = ext s \<and> keys_of sys (ext s) files explicit keys"
proof (cases "files = [] \<and> \<not> explicit")
  case True
  show ?thesis
  proof (cases "user_home_dir sys")
    case (Inl e)
    then show ?thesis using True assms by (simp add: resolve_ssh_keys_def keys_of_def)
  next
    case (Inr home)
    then have "first_ssh_key sys [home @ ''/.ssh/id_ed25519.pub'', home @ ''/.ssh/id_rsa.pub'', home @ ''/.ssh/id_ecdsa.pub''] s
      = (Inr keys, s')"
      using True assms by (simp add: resolve_ssh_keys_def)
    from default_key_Inr [OF this] show ?thesis
      using True Inr by (auto simp: keys_of_def)
  qed
next
  case False
  then have "forE files (\<lambda>f. bindE (wrapE (\<lambda>e. Errorf ''reading SSH key file %q: %w'' [FStr f, FErr e])
      (query (\<lambda>w. os_read_file sys w f))) (\<lambda>data. ok (trim_space data))) s = (Inr keys, s')"
    using assms by (auto simp: resolve_ssh_keys_def)
  then have "s' = s \<and> list_all2 (\<lambda>f k. \<exists>data. os_read_file sys (ext s) f = Inr data \<and> k = trim_space data) files keys"
    by (rule forE_reads) (rule read_key_Inr)
  then show ?thesis using False by (auto simp: keys_of_def)
qed

section \<open>Properties\<close>

text \<open>
  From flags alone, a configuration is loaded exactly when there is a name, and it then passes
  validation exactly when the name is a DNS label, the number of CPUs is at most 256 modulo
  \<open>2^32\<close>, the memory, if given, is a quantity, and the disk, if given, exists.
\<close>

lemma flags_valid:
  "case load_from_flags name mem cpus dsk img of
     Inl e \<Rightarrow> name = []
   | Inr vm \<Rightarrow> validate missing vm = None \<longleftrightarrow>
       dns_label name \<and> cpus mod 2 ^ 32 \<le> 256
       \<and> mem \<in> {[]} \<union> {q. valid_quantity q} \<and> dsk \<in> {[]} \<union> {p. \<not> missing p}"
proof (cases "load_from_flags name mem cpus dsk img")
  case (Inl e)
  then show ?thesis by (simp add: load_from_flags_def Let_def split: if_splits)
next
  case (Inr vm)
  then show ?thesis using load_from_flags_valid [OF Inr, of missing] by (simp add: validate_None)
qed

text \<open>
  C31: Port flags printed as \<open>host:guest/protocol\<close> are read back as the same forwards, in the same
  order, for every number an \<open>int\<close> can hold and every protocol without a slash, which is lowered.
\<close>

theorem port_flags_roundtrip:
  assumes "list_all (\<lambda>pf. int64 (pf_host_port pf) \<and> int64 (pf_vm_port pf) \<and> slash \<notin> set (pf_protocol pf)) pfs"
  shows "parse_port_forwards u (map port_flag pfs) =
    Inr (map (\<lambda>pf. pf\<lparr>pf_protocol := to_lower u (pf_protocol pf)\<rparr>) pfs)"
  using assms by (induction pfs) (simp_all add: parse_port_flag)

theorem port_flags_roundtrip_witness:
  "parse_port_forwards (\<lambda>s. s) (map port_flag [\<lparr>pf_host_port = 2222, pf_vm_port = 22, pf_protocol = ''TCP''\<rparr>]) =
    Inr [\<lparr>pf_host_port = 2222, pf_vm_port = 22, pf_protocol = ''tcp''\<rparr>]"
proof -
  have "to_lower (\<lambda>s. s) ''TCP'' = ''tcp''" by code_simp
  then show ?thesis
    using port_flags_roundtrip [of "[\<lparr>pf_host_port = 2222, pf_vm_port = 22, pf_protocol = ''TCP''\<rparr>]" "\<lambda>s. s"]
    by (simp add: int64_def)
qed

text \<open>
  C30: Applying port forwards loses none and invents none: the forwards of all networks afterwards
  are those of before and the new ones; the new ones are together, in order, at the end of
  the forwards of one network, which is of type \<open>masquerade\<close>; the networks keep their names and
  their order, and only a VM without networks gets one.
\<close>

theorem ports_conserved:
  "let ns = vm_networks vm; ns' = vm_networks (apply_port_forwards vm pfs) in
     mset (concat (map net_port_forwards ns')) = mset (concat (map net_port_forwards ns)) + mset pfs
     \<and> (\<exists>n\<in>set ns'. net_type n = ''masquerade'' \<and> suffix pfs (net_port_forwards n))
     \<and> map net_name ns' = (if ns = [] then [''default''] else map net_name ns)
     \<and> set_networks ns (apply_port_forwards vm pfs) = vm"
proof (cases "vm_networks vm = []")
  case True
  then show ?thesis by (simp add: apply_port_forwards_def Let_def)
next
  case False
  then obtain i n where i: "i < length (vm_networks vm)"
    and vm': "apply_port_forwards vm pfs = set_networks ((vm_networks vm)[i := n]) vm"
    and n: "net_type n = ''masquerade''" "net_name n = net_name (vm_networks vm ! i)"
      "net_port_forwards n = net_port_forwards (vm_networks vm ! i) @ pfs"
    by (rule apply_port_forwards_updates)
  have "n \<in> set ((vm_networks vm)[i := n])" using i by (rule set_update_memI)
  moreover have "map net_name ((vm_networks vm)[i := n]) = map net_name (vm_networks vm)"
    using n(2) i by (metis list_update_id map_update nth_map)
  ultimately show ?thesis
    using False n mset_concat_update [OF i n(3)] by (auto simp: vm' suffix_def)
qed


definition sample_opts :: create_options where
  "sample_opts = \<lparr>co_config_file = [], co_name = ''vm1'', co_memory = ''1Gi'', co_disk_size = [],
     co_disk = ''/images/a.qcow2'', co_image = [], co_launcher_image = ''launcher'', co_password = ''pw'',
     co_user = [], co_cpus = 2, co_port_strs = [], co_ssh_key_files = [], co_cpus_changed = False,
     co_memory_changed = False, co_ssh_key_explicit = True\<rparr>"


end
