(* ===== verification/CreateProps.thy ===== *)
theory CreateProps
  imports CreateSafety PodmanFacts CreateConfigProps
begin

text \<open>The properties of \<open>podvirt create\<close> that span its parts.\<close>

section \<open>The configuration that reaches Podman\<close>

lemma validate_op_Inr:
  assumes "validate_op sys vm s = (Inr u, s')"
  shows "s' = s \<and> valid_vm (stat_missing sys (ext s)) vm"
  using assms by (auto simp: validate_op_def query_def validate_None [symmetric] split: option.splits)

lemma dns_label_plain: "dns_label s \<Longrightarrow> plain s"
proof -
  assume d: "dns_label s"
  then have a: "list_all (\<lambda>c. alnum c \<or> c = CHR ''-'') s" and ne: "s \<noteq> []" by (simp_all add: dns_label_def)
  have "\<not> alnum slash" "\<not> alnum CHR ''.''" by (simp_all add: in_class_def alnum_class_def)
  then have "slash \<notin> set s" "CHR ''.'' \<notin> set s" using a by (auto simp: list_all_iff)
  then show ?thesis using ne by (auto simp: plain_def)
qed

text \<open>The disks after sizing: only the image path of a disk with a size has changed.\<close>

definition sized :: "string \<Rightarrow> disk_spec \<Rightarrow> disk_spec \<Rightarrow> bool" where
  "sized base_dir d d' \<longleftrightarrow>
     d' = (if disk_size d = [] then d
           else d\<lparr>disk_src := (disk_src d)\<lparr>src_image := join_path [base_dir, disk_name d @ ''.qcow2'']\<rparr>\<rparr>)
     \<and> (disk_size d \<noteq> [] \<longrightarrow> disk_image d \<noteq> [])"

lemma build_sized_disk_image_Inr:
  assumes "build_sized_disk_image sys li bd d s = (Inr p, s')"
  shows "p = join_path [bd, disk_name d @ ''.qcow2'']"
  using assms unfolding build_sized_disk_image_def copy_resized_def
  by (auto elim!: bindE_Inr_E split: if_splits)

lemma prepare_sized_disk_sized:
  assumes "prepare_sized_disk sys li bd d s = (Inr d', s')"
  shows "sized bd d d'"
proof (cases "disk_size d = []")
  case True
  then show ?thesis using assms by (simp add: prepare_sized_disk_def sized_def)
next
  case False
  then show ?thesis
    using assms unfolding prepare_sized_disk_def sized_def
    by (auto elim!: bindE_Inr_E dest: build_sized_disk_image_Inr split: if_splits)
qed

lemma join_path_nonempty: "list_ex (\<lambda>e. e \<noteq> []) es \<Longrightarrow> join_path es \<noteq> []"
proof -
  assume "list_ex (\<lambda>e. e \<noteq> []) es"
  then have "dropWhile (\<lambda>e. e = []) es \<noteq> []" by (auto simp: list_ex_iff dropWhile_eq_Nil_conv)
  then show ?thesis by (auto simp: join_path_def clean_def Let_def split: list.splits)
qed

lemma sized_image_nonempty: "sized bd d d' \<Longrightarrow> disk_image d \<noteq> [] \<Longrightarrow> disk_image d' \<noteq> []"
  by (auto simp: sized_def join_path_nonempty split: if_splits)

lemma prepare_sized_disks_Inr:
  assumes "prepare_sized_disks sys vm li s = (Inr vm', s')"
  shows "\<exists>cache ds. user_cache_dir sys = Inr cache \<and> vm' = set_disks ds vm
    \<and> list_all2 (sized (join_path [cache, ''podvirt'', ''resized-disks'', vm_name vm])) (vm_disks vm) ds"
proof -
  obtain cache s1 ds where c: "user_cache_dir sys = Inr cache"
    and f: "forE (vm_disks vm) (prepare_sized_disk sys li
        (join_path [cache, ''podvirt'', ''resized-disks'', vm_name vm])) s1 = (Inr ds, s')"
    and vm': "vm' = set_disks ds vm"
    using assms unfolding prepare_sized_disks_def Let_def
    by (auto simp: run_wrapE elim!: bindE_Inr_E split: sum.splits prod.splits)
  have "list_all2 (sized (join_path [cache, ''podvirt'', ''resized-disks'', vm_name vm])) (vm_disks vm) ds"
    using f by (rule forE_list_all2) (rule prepare_sized_disk_sized)
  then show ?thesis using c vm' by blast
qed

section \<open>The container\<close>

text \<open>
  What the creation of a container is preceded by in the run that starts in \<open>s\<close>: the
  configuration assembled from the flags was valid when it was checked, Podman then said that
  no container of that name exists, the launcher image was there or was pulled, and the
  specification is that of the VMI made from this configuration with its disks resized.
\<close>

abbreviation pulling_msg :: string where
  "pulling_msg \<equiv> ''Pulling virt-launcher image (if needed)...\<newline>''"

definition justified :: "'w sys \<Rightarrow> flags \<Rightarrow> 'w st \<Rightarrow> spec_generator \<Rightarrow> bool" where
  "justified sys fl s sp \<longleftrightarrow> (\<exists>opts vm s1 s2 s3 s4 vm' s5 result dirs.
     parse_create_options fl = Inr opts \<and> assemble_vm sys opts s = (Inr vm, s1)
     \<and> valid_vm (stat_missing sys (ext s1)) vm
     \<and> new_podman_client sys s1 = (Inr (), s2) \<and> exists_vm sys (vm_name vm) s2 = (Inr False, s3)
     \<and> ensure_image sys (co_launcher_image opts) (snd (say pulling_msg [] s3)) = (Inr (), s4)
     \<and> prepare_sized_disks sys vm (co_launcher_image opts) s4 = (Inr vm', s5)
     \<and> to_vmi sys (ext s5) vm' = Inr result
     \<and> sp = vm_container_spec sys (vm_name vm) (co_launcher_image opts) result dirs)"

lemma run_create_creates:
  fixes sys :: "'w sys"
  shows "creates_at (justified sys fl s) (run_create sys fl) s"
proof -
  have last: "creates_at (justified sys fl s)
      (bindE (create_vm sys (vm_name vm') (co_launcher_image opts) result) (print_create_summary vm' result)) s6"
    if "parse_create_options fl = Inr opts" "assemble_vm sys opts s = (Inr vm, s1)"
      "valid_vm (stat_missing sys (ext s1)) vm"
      "new_podman_client sys s1 = (Inr (), s2)" "exists_vm sys (vm_name vm) s2 = (Inr False, s3)"
      "ensure_image sys (co_launcher_image opts) (snd (say pulling_msg [] s3)) = (Inr (), s4)" "prepare_sized_disks sys vm (co_launcher_image opts) s4 = (Inr vm', s5)"
      "to_vmi sys (ext s5) vm' = Inr result"
    for opts vm vm' result and s1 s2 s3 s4 s5 s6 :: "'w st"
  proof -
    have "vm_name vm' = vm_name vm"
      using prepare_sized_disks_Inr [OF that(7)] by auto
    then have "justified sys fl s (vm_container_spec sys (vm_name vm') (co_launcher_image opts) result dirs)" for dirs
      unfolding justified_def using that by metis
    then show ?thesis
      by (intro creates_at_bindE_left creates_at_create_vm unnamed_print_create_summary)
  qed
  show ?thesis
    unfolding run_create_def
    apply (rule creates_at_bindE, rule only_lift_res)
    apply (rule creates_at_bindE, rule unnamed_assemble_vm)
    apply (rule creates_at_bindE, rule unnamed_validate_op)
    apply (rule creates_at_bindE, rule unnamed_new_podman_client)
    apply (rule creates_at_bindE, rule unnamed_exists_vm)
    subgoal for opts _ vm _ _ _ _ _ exists
      apply (cases exists)
       apply (simp add: creates_at_fail)
      apply (simp only: if_False)
      apply (rule creates_at_bindE, intro only_intros, simp)
      apply (rule creates_at_bindE, rule unnamed_ensure_image)
      apply (rule creates_at_bindE, rule unnamed_prepare_sized_disks)
      apply (rule creates_at_bindE, intro only_intros)
      apply (rule creates_at_bindE, intro only_intros, simp)
      apply (rule last)
      apply (auto simp: query_def run_wrapE say_def emit_def dest: validate_op_Inr split: sum.splits)
      done
    done
qed

section \<open>Resized copies\<close>

text \<open>The events that matter for a resized copy: helper containers, and what is removed on the host.\<close>

fun disk_work :: "event \<Rightarrow> bool" where
  "disk_work (CtrCreate _) = True"
| "disk_work (RemoveTree _) = True"
| "disk_work _ = False"

definition work :: "('w st, 'a) act \<Rightarrow> 'w st \<Rightarrow> event list" where
  "work m s = filter disk_work (new_events m s)"

lemma work_bindE:
  assumes "forward m" and "\<And>x. forward (f x)"
  shows "work (bindE m f) s = work m s @ (case m s of (Inl e, _) \<Rightarrow> [] | (Inr x, s1) \<Rightarrow> work (f x) s1)"
proof -
  obtain r s1 where m: "m s = (r, s1)" by fastforce
  obtain t1 where t1: "log s1 = log s @ t1" using forward_extends [OF assms(1) m] by (auto simp: extends_def)
  show ?thesis
  proof (cases r)
    case (Inl e)
    then show ?thesis using m by (simp add: work_def new_events_def run_bindE)
  next
    case (Inr x)
    obtain r2 s2 where f: "f x s1 = (r2, s2)" by fastforce
    then obtain t2 where "log s2 = log s1 @ t2" using forward_extends [OF assms(2)] by (fastforce simp: extends_def)
    then show ?thesis
      using m Inr t1 f by (simp add: work_def new_events_def run_bindE)
  qed
qed

lemma work_wrapE [simp]: "work (wrapE w m) s = work m s"
  by (simp add: work_def new_events_def run_wrapE split: prod.splits sum.splits)

lemma work_none: "only_events (\<lambda>e. \<not> disk_work e) m \<Longrightarrow> work m s = []"
  using only_events_new [of "\<lambda>e. \<not> disk_work e" m s] by (simp add: work_def filter_empty_conv list_all_iff)

lemma work_call: "work (call e f) s = (if disk_work e then [e] else [])"
  by (simp add: work_def new_events_def call_def split: prod.splits)

lemma work_silent [simp]:
  "work (ok x) s = []" "work (fail e) s = []" "work (lift_res r) s = []" "work (say f args) s = []"
  by (auto intro!: work_none only_intros)

text \<open>Each run of \<open>qemu-img\<close> creates one helper container, whatever comes of it.\<close>

definition qemu_img_spec :: "string \<Rightarrow> string \<Rightarrow> string \<Rightarrow> string list \<Rightarrow> spec_generator" where
  "qemu_img_spec li src dst args = one_shot_spec li (qemu_img_mounts src dst) [''qemu-img''] args"

lemma work_attempt [simp]: "work (attempt m) s = work m s"
  by (simp add: work_def new_events_def run_attempt split: prod.splits)

lemma work_bindE_left:
  assumes "forward m" and "\<And>x. forward (f x)" and "\<And>x. only_events (\<lambda>e. \<not> disk_work e) (f x)"
  shows "work (bindE m f) s = work m s"
  using work_bindE [OF assms(1,2), where s = s] assms(3) by (simp add: work_none split: prod.splits sum.splits)

lemma work_one_shot: "work (run_one_shot_container sys img mounts ep cmd) s = [CtrCreate (one_shot_spec img mounts ep cmd)]"
  unfolding run_one_shot_container_def collect_container_logs_def Let_def
  by (subst work_bindE_left) (intro forward_intros only_intros | simp add: work_call)+

lemma work_qemu_img_output: "work (run_qemu_img_output sys li src dst args) s = [CtrCreate (qemu_img_spec li src dst args)]"
  unfolding run_qemu_img_output_def Let_def
  by (subst work_bindE_left) (intro forward_intros only_intros | simp add: work_one_shot qemu_img_spec_def)+

lemma forward_run_qemu_img [forward_intros]: "forward (run_qemu_img sys li src dst args)"
  unfolding run_qemu_img_def by (intro forward_intros)

lemma work_qemu_img: "work (run_qemu_img sys li src dst args) s = [CtrCreate (qemu_img_spec li src dst args)]"
  unfolding run_qemu_img_def
  by (subst work_bindE_left) (intro forward_intros only_intros | simp add: work_qemu_img_output)+

lemma forward_inspect_disk_image [forward_intros]: "forward (inspect_disk_image sys li src)"
  unfolding inspect_disk_image_def by (intro forward_intros)

lemma work_inspect: "work (inspect_disk_image sys li src) s =
    [CtrCreate (qemu_img_spec li src src [''info'', ''-U'', ''--output=json'', source_mount_path src])]"
  unfolding inspect_disk_image_def
  by (subst work_bindE_left) (intro forward_intros only_intros | simp add: work_qemu_img_output)+

lemma forward_copy_resized [forward_intros]: "forward (copy_resized sys li dest d info n)"
  unfolding copy_resized_def by (intro forward_intros)

lemma forward_build_sized_disk_image [forward_intros]: "forward (build_sized_disk_image sys li bd d)"
  unfolding build_sized_disk_image_def by (intro forward_intros)

text \<open>The commands of a resized copy: inspect, and once the size is known to suffice, the rest in order.\<close>

definition info_step :: "string \<Rightarrow> disk_spec \<Rightarrow> event" where
  "info_step li d = CtrCreate (qemu_img_spec li (disk_image d) (disk_image d)
     [''info'', ''-U'', ''--output=json'', source_mount_path (disk_image d)])"

definition copy_steps :: "string \<Rightarrow> string \<Rightarrow> disk_spec \<Rightarrow> qemu_img_info \<Rightarrow> u64 \<Rightarrow> event list" where
  "copy_steps li dest d info requested =
     [RemoveTree dest,
      CtrCreate (qemu_img_spec li (disk_image d) dest
        [''convert'', ''-U'', ''-f'', img_format info, ''-O'', ''qcow2'', source_mount_path (disk_image d), dest_mount_path dest])]
     @ (if img_virtual_size info < requested
        then [CtrCreate (qemu_img_spec li (disk_image d) dest
          [''resize'', dest_mount_path dest, format_uint (unat requested)])]
        else [])"

text \<open>\<open>works Q ws m\<close>: the work of \<open>m\<close> is a prefix of \<open>ws\<close>, and all of it when \<open>m\<close> succeeds, with a result in \<open>Q\<close>.\<close>

definition works :: "('a \<Rightarrow> bool) \<Rightarrow> event list \<Rightarrow> ('w st, 'a) act \<Rightarrow> bool" where
  "works Q ws m \<longleftrightarrow> forward m \<and>
     (\<forall>s. prefix (work m s) ws \<and> (\<forall>x s'. m s = (Inr x, s') \<longrightarrow> work m s = ws \<and> Q x))"

lemma works_bindE:
  assumes m: "works (\<lambda>_. True) ws m" and f: "\<And>x. works Q ws' (f x)"
  shows "works Q (ws @ ws') (bindE m f)"
  unfolding works_def
proof (intro conjI allI)
  have fw: "forward m" "forward (f x)" for x using m f by (simp_all add: works_def)
  then show "forward (bindE m f)" by (intro forward_intros)
  fix s
  obtain r s1 where ms: "m s = (r, s1)" by fastforce
  have w: "work (bindE m f) s = work m s @ (case r of Inl e \<Rightarrow> [] | Inr x \<Rightarrow> work (f x) s1)"
    using work_bindE [OF fw, where s = s] ms by (simp split: sum.splits)
  have m': "prefix (work m s) ws" "r = Inr x \<Longrightarrow> work m s = ws" for x using m ms by (auto simp: works_def)
  show "prefix (work (bindE m f) s) (ws @ ws')"
  proof (cases r)
    case (Inl e)
    then show ?thesis using w m'(1) by (simp add: prefix_prefix)
  next
    case (Inr x)
    then show ?thesis using w m'(2) f [of x] by (auto simp: works_def)
  qed
  show "bindE m f s = (Inr y, s') \<longrightarrow> work (bindE m f) s = ws @ ws' \<and> Q y" for y s'
  proof
    assume "bindE m f s = (Inr y, s')"
    then obtain x where x: "r = Inr x" "f x s1 = (Inr y, s')" using ms by (auto elim!: bindE_Inr_E)
    then have "work (f x) s1 = ws' \<and> Q y" using f [of x] unfolding works_def by blast
    then show "work (bindE m f) s = ws @ ws' \<and> Q y" using w m'(2) x by simp
  qed
qed

lemma works_intros:
  "disk_work e \<Longrightarrow> works (\<lambda>_. True) [e] (call e g)"
  "works (\<lambda>_. True) [] (say fm args)"
  "Q x \<Longrightarrow> works Q [] (ok x)"
  "works (\<lambda>_. True) [CtrCreate (qemu_img_spec li src dst as)] (run_qemu_img sys li src dst as)"
  "works Q ws m \<Longrightarrow> works Q ws (wrapE w m)"
  "works Q ws m \<Longrightarrow> works Q ws' m' \<Longrightarrow> works Q (if b then ws else ws') (if b then m else m')"
  by (auto simp: works_def forward_intros work_call work_qemu_img run_wrapE split: prod.splits sum.splits)

lemma copy_resized_works: "works (\<lambda>p. p = dest) (copy_steps li dest d info n) (copy_resized sys li dest d info n)"
proof -
  have "works (\<lambda>p. p = dest) ([RemoveTree dest] @ [] @ [CtrCreate (qemu_img_spec li (disk_image d) dest
        [''convert'', ''-U'', ''-f'', img_format info, ''-O'', ''qcow2'', source_mount_path (disk_image d), dest_mount_path dest])]
      @ (if img_virtual_size info < n then [CtrCreate (qemu_img_spec li (disk_image d) dest
          [''resize'', dest_mount_path dest, format_uint (unat n)])] else []) @ [])
    (copy_resized sys li dest d info n)"
    unfolding copy_resized_def by (intro works_bindE works_intros) simp_all
  then show ?thesis by (simp add: copy_steps_def)
qed

lemma build_sized_work:
  assumes "build_sized_disk_image sys li bd d s = (r, s')"
  obtains (none) "isl r" and "work (build_sized_disk_image sys li bd d) s = []"
  | (refused) "isl r" and "work (build_sized_disk_image sys li bd d) s = [info_step li d]"
  | (copied) requested info s1 t where "parse_quantity_bytes (disk_size d) = Inr requested"
      and "inspect_disk_image sys li (disk_image d) s = (Inr info, s1)" and "img_virtual_size info \<le> requested"
      and "work (build_sized_disk_image sys li bd d) s = info_step li d # t"
      and "prefix t (copy_steps li (join_path [bd, disk_name d @ ''.qcow2'']) d info requested)"
      and "\<not> isl r \<Longrightarrow> t = copy_steps li (join_path [bd, disk_name d @ ''.qcow2'']) d info requested
             \<and> r = Inr (join_path [bd, disk_name d @ ''.qcow2''])"
proof (cases "parse_quantity_bytes (disk_size d)")
  case (Inl e)
  then show ?thesis
    using assms by (intro none) (auto simp: build_sized_disk_image_def work_bindE forward_intros run_bindE run_wrapE Let_def)
next
  case (Inr requested)
  obtain ri s1 where i: "inspect_disk_image sys li (disk_image d) s = (ri, s1)" by fastforce
  show ?thesis
  proof (cases ri)
    case (Inl e)
    then show ?thesis
      using assms i Inr by (intro refused) (auto simp: build_sized_disk_image_def work_bindE forward_intros run_bindE run_wrapE work_inspect info_step_def Let_def)
  next
    case info: (Inr info)
    show ?thesis
    proof (cases "requested < img_virtual_size info")
      case True
      then show ?thesis
        using assms i Inr info by (intro refused) (auto simp: build_sized_disk_image_def work_bindE forward_intros run_bindE run_wrapE work_inspect info_step_def Let_def)
    next
      case False
      have w: "work (build_sized_disk_image sys li bd d) s = info_step li d #
          work (copy_resized sys li (join_path [bd, disk_name d @ ''.qcow2'']) d info requested) s1"
        using False i Inr info
        by (simp add: build_sized_disk_image_def work_bindE forward_intros run_bindE run_wrapE work_inspect info_step_def)
      have r: "copy_resized sys li (join_path [bd, disk_name d @ ''.qcow2'']) d info requested s1 = (r, s')"
        using assms False i Inr info by (simp add: build_sized_disk_image_def run_bindE run_wrapE)
      show ?thesis
      proof (rule copied [OF Inr i [unfolded info] _ w])
        show "img_virtual_size info \<le> requested" using False by simp
        show "work (copy_resized sys li (join_path [bd, disk_name d @ ''.qcow2'']) d info requested) s1 =
              copy_steps li (join_path [bd, disk_name d @ ''.qcow2'']) d info requested
            \<and> r = Inr (join_path [bd, disk_name d @ ''.qcow2''])" if "\<not> isl r"
          using that r copy_resized_works unfolding works_def by (cases r) fastforce+
        show "prefix (work (copy_resized sys li (join_path [bd, disk_name d @ ''.qcow2'']) d info requested) s1)
            (copy_steps li (join_path [bd, disk_name d @ ''.qcow2'']) d info requested)"
          using copy_resized_works unfolding works_def by blast
      qed
    qed
  qed
qed

section \<open>Where the resizing works\<close>

text \<open>
  What the resizing may change: it makes the directory \<open>base_dir\<close>, removes old copies, and uses
  helper containers, which have no name.
\<close>

definition resizing :: "string \<Rightarrow> disk_spec list \<Rightarrow> event \<Rightarrow> bool" where
  "resizing base_dir ds e \<longleftrightarrow> \<not> changes e \<or> e = MkdirAll base_dir
     \<or> e \<in> (\<lambda>d. RemoveTree (join_path [base_dir, disk_name d @ ''.qcow2''])) ` set ds
     \<or> container_change e \<and> \<not> named_create e"

lemma resizing_simps:
  "resizing bd ds (MkdirAll bd)" "resizing bd ds (CtrStart c)" "resizing bd ds (CtrRemove c b)"
  "resizing bd ds (CtrWait c)" "resizing bd ds (CtrLogs c)" "resizing bd ds (Stdout f as)"
  "sg_name sp = [] \<Longrightarrow> resizing bd ds (CtrCreate sp)"
  "d \<in> set ds \<Longrightarrow> resizing bd ds (RemoveTree (join_path [bd, disk_name d @ ''.qcow2'']))"
  by (auto simp: resizing_def)

lemma resizing_prepare_sized_disk:
  "d \<in> set ds \<Longrightarrow> only_events (resizing bd ds) (prepare_sized_disk sys li bd d)"
  unfolding prepare_sized_disk_def build_sized_disk_image_def copy_resized_def inspect_disk_image_def
    run_qemu_img_def run_qemu_img_output_def run_one_shot_container_def collect_container_logs_def Let_def
  by (intro only_intros) (simp_all add: resizing_simps)

lemma resizing_prepare_sized_disks:
  assumes "user_cache_dir sys = Inr cache"
  shows "only_events (resizing (join_path [cache, ''podvirt'', ''resized-disks'', vm_name vm]) (vm_disks vm))
    (prepare_sized_disks sys vm li)"
  unfolding prepare_sized_disks_def Let_def only_events_def
proof
  fix s
  let ?bd = "join_path [cache, ''podvirt'', ''resized-disks'', vm_name vm]"
  let ?m = "bindE (wrapE (\<lambda>e. Errorf ''creating resized disk cache dir: %w'' [FErr e])
              (call (MkdirAll ?bd) (os_mkdir_all sys ?bd))) (\<lambda>_.
        bindE (forE (vm_disks vm) (prepare_sized_disk sys li ?bd)) (\<lambda>disks. ok (set_disks disks vm)))"
  have "only_events (resizing ?bd (vm_disks vm)) (forE (vm_disks vm) (prepare_sized_disk sys li ?bd))"
    by (rule only_forE_mem) (rule resizing_prepare_sized_disk)
  then have "only_events (resizing ?bd (vm_disks vm)) ?m"
    by (intro only_bindE only_wrapE only_call only_ok) (simp_all add: resizing_simps)
  then show "\<exists>t. log (snd (bindE (wrapE (\<lambda>e. Errorf ''finding user cache dir: %w'' [FErr e]) (lift_res (user_cache_dir sys)))
      (\<lambda>cache_dir.
         bindE (wrapE (\<lambda>e. Errorf ''creating resized disk cache dir: %w'' [FErr e])
              (call (MkdirAll (join_path [cache_dir, ''podvirt'', ''resized-disks'', vm_name vm]))
                 (os_mkdir_all sys (join_path [cache_dir, ''podvirt'', ''resized-disks'', vm_name vm])))) (\<lambda>_.
         bindE (forE (vm_disks vm) (prepare_sized_disk sys li (join_path [cache_dir, ''podvirt'', ''resized-disks'', vm_name vm])))
           (\<lambda>disks. ok (set_disks disks vm)))) s)) = log s @ t
      \<and> list_all (resizing ?bd (vm_disks vm)) t"
    unfolding only_events_def by (simp add: assms run_bindE [of "wrapE _ (lift_res _)"] run_wrapE [of _ "lift_res _"])
qed

section \<open>A disk to resize in the sample world\<close>

definition sized_sample :: "string \<Rightarrow> disk_spec" where
  "sized_sample name = (sample_disk name ''/a.img'')\<lparr>disk_size := ''2Gi''\<rparr>"

lemma sized_sample_parts: "disk_name (sized_sample n) = n" "disk_size (sized_sample n) = ''2Gi''"
  by (simp_all add: sized_sample_def sample_disk_def)

lemma sample_log: "log (sample_st w) = []"
  by (simp add: sample_st_def)

lemma sample_size: "parse_quantity_bytes ''2Gi'' = Inr 2147483648"
proof -
  have "parse_quantity_bytes (format_uint 2 @ ''Gi'') = Inr (word_of_nat 2 * push_bit 30 1)"
    by (rule parse_quantity_printed) (simp_all add: quantity_units_def quantity_suffixes_def)
  moreover have "format_uint 2 = ''2''" by code_simp
  ultimately show ?thesis by simp
qed

section \<open>Properties\<close>

text \<open>
  C4: \<open>podvirt create\<close> creates the container of a VM at most once and never lightly: a run that
  succeeds creates exactly one container that has a name, a run that fails creates at most
  one, and whenever it is created the configuration had passed validation, Podman had just
  answered that no container of that name exists, the launcher image was present, and the
  container is the one that the validated configuration, with its disks resized, describes.
\<close>

theorem create_guarded:
  "\<exists>t. log (snd (run_create sys fl s)) = log s @ t
     \<and> one_named (justified sys fl s) (isl (fst (run_create sys fl s))) t"
  using run_create_creates [of sys fl s] by (simp add: creates_at_def)

text \<open>
  C19: The configuration that passed validation converts: no disk of it has a container image left
  (so the check that only one source is set can no longer fail there), and after the resizing
  \<open>ToVMI\<close> fails only if the YAML library refuses the cloud-init document.
\<close>

theorem assembled_converts:
  assumes "assemble_vm sys opts s = (Inr vm, s1)" and "valid_vm missing vm"
    and "prepare_sized_disks sys vm li s2 = (Inr vm', s3)"
  shows "list_all (\<lambda>d. disk_container_image d = []) (vm_disks vm)
    \<and> ((\<exists>result. to_vmi sys w vm' = Inr result) \<longleftrightarrow>
        (case vm_cloud_init vm of None \<Rightarrow> True | Some ci \<Rightarrow> \<not> isl (yaml_marshal_cc sys (cloud_config_of ci))))"
proof -
  have c: "\<forall>d\<in>set (vm_disks vm). disk_container_image d = []"
    using assms(1) by (rule assemble_vm_extracted)
  have img: "\<forall>d\<in>set (vm_disks vm). disk_image d \<noteq> []"
    using c assms(2) by (auto simp: valid_vm_def valid_disk_def)
  obtain cache ds where vm': "vm' = set_disks ds vm"
    and ds: "list_all2 (sized (join_path [cache, ''podvirt'', ''resized-disks'', vm_name vm])) (vm_disks vm) ds"
    using prepare_sized_disks_Inr [OF assms(3)] by blast
  have "list_all (\<lambda>d. disk_image d \<noteq> []) ds"
    using ds img sized_image_nonempty by (fastforce simp: list_all2_conv_all_nth list_all_length)
  then show ?thesis using c by (simp add: to_vmi_Inr_iff vm' list_all_iff)
qed

theorem assembled_converts_witness:
  "\<exists>vm s1 result. assemble_vm sample_sys sample_opts (sample_st []) = (Inr vm, s1)
     \<and> (\<exists>vm' s2. prepare_sized_disks sample_sys vm ''launcher'' s1 = (Inr vm', s2) \<and> to_vmi sample_sys [] vm' = Inr result)"
proof -
  have "\<exists>vm s1. assemble_vm sample_sys sample_opts (sample_st []) = (Inr vm, s1) \<and> valid_vm (\<lambda>_. False) vm
      \<and> length (vm_disks vm) = 1 \<and> list_all (\<lambda>d. disk_size d = []) (vm_disks vm)"
    using sample_label valid_default_memory
    by (simp add: assemble_vm_def sample_opts_def load_create_vm_def load_from_flags_def set_flag_disks flag_disks_def
        apply_create_ports_def apply_cloud_init_flags_def resolve_ssh_keys_def merge_cloud_init_def
        apply_create_disk_size_def extract_container_disks_def extract_disk_def user_home_dir_def apply_defaults_def
        default_disk_bus_def valid_vm_def valid_disk_def valid_network_def word_le_def sample_run)
  then obtain vm and s1 :: "string st" where a: "assemble_vm sample_sys sample_opts (sample_st []) = (Inr vm, s1)"
    and v: "valid_vm (\<lambda>_. False) vm" and d: "list_all (\<lambda>d. disk_size d = []) (vm_disks vm)" by blast
  have "forE ds (prepare_sized_disk sample_sys li bd) s = (Inr ds, s)" if "list_all (\<lambda>d. disk_size d = []) ds"
    for ds li bd and s :: "string st"
    using that by (induction ds) (simp_all add: prepare_sized_disk_def run_bindE)
  then obtain vm' s2 where p: "prepare_sized_disks sample_sys vm ''launcher'' s1 = (Inr vm', s2)"
    using d by (auto simp: prepare_sized_disks_def user_cache_dir_def sample_run)
  have "\<exists>result. to_vmi sample_sys [] vm' = Inr result"
    using assembled_converts [OF a v p, of "[]"] by (auto simp: sample_sys_def always_def split: option.splits)
  then show ?thesis using a p by blast
qed






end
