(* ===== verification/ExtractionProps.thy ===== *)
theory ExtractionProps
  imports CreateProps
begin

text \<open>
  The cache of extracted container disks: what is found in it is used as it is, whatever left it
  there.
\<close>

definition removal :: "event \<Rightarrow> bool" where
  "removal e \<longleftrightarrow> (case e of RemoveFile _ \<Rightarrow> True | RemoveTree _ \<Rightarrow> True | _ \<Rightarrow> False)"

lemma extract_disk_removes_nothing: "only_events (\<lambda>e. \<not> removal e) (extract_disk sys cache d)"
proof -
  have f: "only_events (\<lambda>e. \<not> removal e) (find_extracted_disk sys p)" for p
    unfolding find_extracted_disk_def Let_def by (intro only_intros) (simp_all add: removal_def)
  show ?thesis
    unfolding extract_disk_def pull_and_extract_def podman_cmd_def Let_def
    by (intro only_intros f) (simp_all add: removal_def)
qed

text \<open>The file that extraction looks for first.\<close>

definition cached_qcow2 :: "string \<Rightarrow> disk_spec \<Rightarrow> string" where
  "cached_qcow2 cache d = join_path [join_path [cache, sanitize_image (disk_container_image d)], ''disk.qcow2'']"

lemma cached_disk_used:
  assumes "disk_container_image d \<noteq> []" and "os_stat sys (ext s) (cached_qcow2 cache d) = Inr ()"
  shows "extract_disk sys cache d s =
    (Inr (d\<lparr>disk_src := \<lparr>src_image = cached_qcow2 cache d, src_container_image = []\<rparr>\<rparr>),
     s\<lparr>log := log s @ [Stdout ''Using cached containerdisk: %s\<newline>'' [FStr (cached_qcow2 cache d)]]\<rparr>)"
proof -
  have "cached_qcow2 cache d \<noteq> []" unfolding cached_qcow2_def by (rule join_path_nonempty) simp
  then show ?thesis
    using assms unfolding cached_qcow2_def
    by (simp add: extract_disk_def find_extracted_disk_def Let_def run_bindE query_def say_def emit_def)
qed

text \<open>Different images can share a cache directory.\<close>

lemma sanitize_collision:
  "sanitize_image ''quay.io/a/b:1'' = sanitize_image ''quay.io/a_b:1''"
  by (simp add: sanitize_image_def)

section \<open>A copy that is interrupted\<close>

text \<open>A world in which \<open>podman cp\<close> writes a part of the disk and then fails; \<open>full\<close> is the disk that ran full.\<close>

definition torn_sys :: "string sys" where
  "torn_sys = sample_sys\<lparr>
     os_stat := (\<lambda>w p. if w = ''full'' then Inr () else Inl NotExist),
     exec_output := (\<lambda>p as w. if take 1 as = [''cp''] then (Inl (ExtError ''no space left on device''), 1, ''full'')
       else (Inr ''0123456789abcdef'', 1, w))\<rparr>"

definition image_disk :: disk_spec where
  "image_disk = \<lparr>disk_name = ''root'', disk_src = \<lparr>src_image = [], src_container_image = ''fedora''\<rparr>, disk_size = [], disk_bus = []\<rparr>"

section \<open>Properties\<close>

text \<open>
  C29: A failed extraction is not undone, and what it left is used. When extracting the disk of a
  container image fails and \<open>disk.qcow2\<close> is in the cache directory all the same, as after a
  \<open>podman cp\<close> that failed in the middle, nothing has been removed, and every later run that finds the
  world as it was left succeeds with this file: it neither pulls the image nor extracts again.
\<close>

theorem torn_extraction_reused:
  assumes "extract_disk sys cache d s = (Inl e, s1)" and "disk_container_image d \<noteq> []"
    and "os_stat sys (ext s1) (cached_qcow2 cache d) = Inr ()" and "ext s2 = ext s1"
  shows "(\<exists>t. log s1 = log s @ t \<and> list_all (\<lambda>e. \<not> removal e) t)
    \<and> extract_disk sys cache d s2 =
      (Inr (d\<lparr>disk_src := \<lparr>src_image = cached_qcow2 cache d, src_container_image = []\<rparr>\<rparr>),
       s2\<lparr>log := log s2 @ [Stdout ''Using cached containerdisk: %s\<newline>'' [FStr (cached_qcow2 cache d)]]\<rparr>)"
proof
  show "\<exists>t. log s1 = log s @ t \<and> list_all (\<lambda>e. \<not> removal e) t"
    using extract_disk_removes_nothing [of sys cache d] assms(1) unfolding only_events_def by (metis snd_conv)
  show "extract_disk sys cache d s2 =
      (Inr (d\<lparr>disk_src := \<lparr>src_image = cached_qcow2 cache d, src_container_image = []\<rparr>\<rparr>),
       s2\<lparr>log := log s2 @ [Stdout ''Using cached containerdisk: %s\<newline>'' [FStr (cached_qcow2 cache d)]]\<rparr>)"
    using cached_disk_used [of d sys s2 cache] assms(2-4) by simp
qed

theorem torn_extraction_reused_witness:
  "\<exists>e s1. extract_disk torn_sys ''/c'' image_disk (sample_st []) = (Inl e, s1)
     \<and> fst (extract_disk torn_sys ''/c'' image_disk s1) =
       Inr (image_disk\<lparr>disk_src := \<lparr>src_image = cached_qcow2 ''/c'' image_disk, src_container_image = []\<rparr>\<rparr>)"
proof -
  have "\<exists>e s1. extract_disk torn_sys ''/c'' image_disk (sample_st []) = (Inl e, s1) \<and> ext s1 = ''full''"
    by (simp add: extract_disk_def find_extracted_disk_def pull_and_extract_def podman_cmd_def torn_sys_def image_disk_def
        sample_run split: prod.splits)
  then obtain e s1 where r: "extract_disk torn_sys ''/c'' image_disk (sample_st []) = (Inl e, s1)" "ext s1 = ''full''"
    by blast
  moreover have "disk_container_image image_disk \<noteq> []" by (simp add: image_disk_def)
  moreover have "os_stat torn_sys (ext s1) (cached_qcow2 ''/c'' image_disk) = Inr ()" using r(2) by (simp add: torn_sys_def)
  ultimately show ?thesis using torn_extraction_reused [OF r(1)] by simp
qed

end
