(* ===== verification/CmdRoot.thy ===== *)
theory CmdRoot
  imports CreateDisks
begin

text \<open>
  \<open>main.go\<close>, \<open>cmd/root.go\<close> and \<open>cmd/version.go\<close>: one run of the program. The flag library parses
  the command line; its result, the command with the values of its arguments and flags, is
  an \<open>invocation\<close>.
\<close>

definition main_version :: string where
  "main_version = ''dev''"

definition run_version :: "string \<Rightarrow> ('w st, unit) act" where
  "run_version app_version = say ''podvirt version %s\<newline>'' [FStr app_version]"

datatype invocation =
    Create flags
  | Start string bool int
  | Stop string bool bool int
  | Delete string bool
  | Status string bool
  | Console string
  | ListVMs string string
  | Ssh "string list" string int string
  | CleanCache bool
  | Version

text \<open>What the library calls; \<open>None\<close> for a command that runs for ever.\<close>

fun dispatch :: "'w sys \<Rightarrow> string \<Rightarrow> invocation \<Rightarrow> 'w st \<Rightarrow> ((go_error + unit) \<times> 'w st) option" where
  "dispatch sys ver (Create fl) s = Some (run_create sys fl s)"
| "dispatch sys ver (Start v w t) s = Some (run_start sys v w t s)"
| "dispatch sys ver (Stop v f g t) s = Some (run_stop sys v f g t s)"
| "dispatch sys ver (Delete v f) s = Some (run_delete sys v f s)"
| "dispatch sys ver (Status v w) s = run_status sys v w s"
| "dispatch sys ver (Console v) s = Some (run_console sys v s)"
| "dispatch sys ver (ListVMs flt fmt) s = Some (run_list sys flt fmt s)"
| "dispatch sys ver (Ssh args u p i) s = Some (run_ssh sys args u p i s)"
| "dispatch sys ver (CleanCache f) s = Some (run_clean_cache sys f s)"
| "dispatch sys ver Version s = Some (run_version ver s)"

text \<open>The exit code: 1 for an error; a panic ends the program with 2.\<close>

definition exit_code :: "go_error + unit \<Rightarrow> nat" where
  "exit_code r = (case r of Inr _ \<Rightarrow> 0 | Inl (GoPanic _) \<Rightarrow> 2 | Inl _ \<Rightarrow> 1)"

definition execute :: "'w sys \<Rightarrow> string \<Rightarrow> invocation \<Rightarrow> 'w st \<Rightarrow> (nat \<times> 'w st) option" where
  "execute sys version cmd s = map_option (\<lambda>(r, s'). (exit_code r, s')) (dispatch sys version cmd s)"

lemma exit_code_0 [simp]: "exit_code r = 0 \<longleftrightarrow> \<not> isl r"
  by (auto simp: exit_code_def split: sum.splits go_error.splits)

lemma execute_0: "execute sys ver cmd s = Some (0, s') \<longleftrightarrow> (\<exists>u. dispatch sys ver cmd s = Some (Inr u, s'))"
proof -
  have "exit_code r = 0 \<longleftrightarrow> (\<exists>u. r = Inr u)" for r by (cases r) simp_all
  then show ?thesis by (auto simp: execute_def)
qed

end
