(* ===== verification/ContainerTable.thy ===== *)
theory ContainerTable
  imports CmdRoot CreateProps
begin

text \<open>
  What podvirt relies on of Podman: the table of containers, and which operations change it.
  Everything else podvirt calls leaves the table alone, and so do all its own operations but
  \<open>create_vm\<close> and \<open>remove_vm\<close>: of the helper containers they create none is left under a name
  that a VM could have.
\<close>

section \<open>The table of containers\<close>

text \<open>What is recorded of a container, under its identifier.\<close>

record container =
  ct_name :: string
  ct_labels :: "(string \<times> string) list"
  ct_ports :: "port_mapping list"

type_synonym container_table = "string \<rightharpoonup> container"

definition reserved :: "string \<Rightarrow> bool" where
  "reserved n \<longleftrightarrow> prefix container_prefix n"

text \<open>
  A new container has a fresh identifier and a name of its own: the one asked for, or else one
  that Podman makes up, which is not of podvirt's form. It has the labels and the ports asked
  for; more labels may come from the image.
\<close>

definition adds_container :: "spec_generator \<Rightarrow> container_table \<Rightarrow> string \<Rightarrow> container_table \<Rightarrow> bool" where
  "adds_container sp t cid t' \<longleftrightarrow> cid \<notin> dom t \<and> (\<exists>c. t' = t(cid \<mapsto> c)
     \<and> ct_name c \<notin> ct_name ` ran t
     \<and> (if sg_name sp = [] then \<not> reserved (ct_name c) else ct_name c = sg_name sp)
     \<and> map_of (sg_labels sp) \<subseteq>\<^sub>m map_of (ct_labels c) \<and> ct_ports c = sg_port_mappings sp)"

text \<open>A container is removed under its identifier or its name.\<close>

definition drops_container :: "string \<Rightarrow> container_table \<Rightarrow> container_table \<Rightarrow> bool" where
  "drops_container n t t' \<longleftrightarrow> (\<exists>i c. t i = Some c \<and> (i = n \<or> ct_name c = n) \<and> t' = t(i := None))"

definition keeps_op :: "('w \<Rightarrow> 'n) \<Rightarrow> ('w, 'a) op \<Rightarrow> bool" where
  "keeps_op N f \<longleftrightarrow> (\<forall>w. N (snd (snd (f w))) = N w)"

text \<open>The programs podvirt runs that are not \<open>podman create\<close> or \<open>podman rm\<close>.\<close>

definition harmless :: "string \<Rightarrow> string list \<Rightarrow> bool" where
  "harmless p args \<longleftrightarrow> p = ''podman'' \<longrightarrow> args \<noteq> [] \<and> hd args \<in> {''pull'', ''cp'', ''exec''}"

definition leaves :: "('w \<Rightarrow> 'n) \<Rightarrow> 'w sys \<Rightarrow> bool" where
  "leaves N sys \<longleftrightarrow>
     (\<forall>p. keeps_op N (os_mkdir_all sys p)) \<and> (\<forall>p c. keeps_op N (os_write_file sys p c))
     \<and> (\<forall>p. keeps_op N (os_create sys p)) \<and> (\<forall>p c. keeps_op N (io_copy sys p c))
     \<and> (\<forall>p. keeps_op N (os_remove sys p)) \<and> (\<forall>p. keeps_op N (os_remove_all sys p))
     \<and> (\<forall>p q. keeps_op N (os_rename sys p q))
     \<and> (\<forall>p as. harmless p as \<longrightarrow> keeps_op N (exec_output sys p as))
     \<and> keeps_op N (stdin_line sys) \<and> (\<forall>t. keeps_op N (sleep_more sys t))
     \<and> (\<forall>u. keeps_op N (pod_connect sys u)) \<and> (\<forall>n. keeps_op N (ctr_exists sys n))
     \<and> (\<forall>n. keeps_op N (ctr_start sys n)) \<and> (\<forall>n t. keeps_op N (ctr_stop sys n t))
     \<and> (\<forall>n. keeps_op N (ctr_inspect_image sys n)) \<and> (\<forall>f. keeps_op N (ctr_list sys f))
     \<and> (\<forall>n. keeps_op N (ctr_wait sys n)) \<and> (\<forall>n. keeps_op N (ctr_logs sys n))
     \<and> (\<forall>n p. keeps_op N (ctr_copy sys n p)) \<and> (\<forall>i. keeps_op N (image_exists sys i))
     \<and> (\<forall>i. keeps_op N (image_pull sys i)) \<and> (\<forall>n as. keeps_op N (exec_create sys n as))
     \<and> (\<forall>i. keeps_op N (exec_attach sys i))"

text \<open>
  The documented behaviour of Podman, while nobody else uses it: names are unique; identifiers
  are hexadecimal numbers of 64 digits, so none of them looks like the name of a VM; a question
  for a name is answered by the table; an operation that reports an error has not changed it.
\<close>

definition well_formed :: "container_table \<Rightarrow> bool" where
  "well_formed t \<longleftrightarrow>
     (\<forall>i j c d. t i = Some c \<longrightarrow> t j = Some d \<longrightarrow> ct_name c = ct_name d \<longrightarrow> i = j)
     \<and> (\<forall>i\<in>dom t. \<not> reserved i \<and> 12 \<le> length i)"

definition answers :: "('w \<Rightarrow> container_table) \<Rightarrow> 'w sys \<Rightarrow> bool" where
  "answers tbl sys \<longleftrightarrow> (\<forall>n w b d w'.
     ctr_exists sys n w = (Inr b, d, w') \<longrightarrow> b = (n \<in> dom (tbl w) \<or> n \<in> ct_name ` ran (tbl w)))"

definition creating :: "('w \<Rightarrow> container_table) \<Rightarrow> spec_generator \<Rightarrow> (string \<Rightarrow> string) \<Rightarrow> ('w, string) op \<Rightarrow> bool" where
  "creating tbl sp cid f \<longleftrightarrow> (\<forall>w. case f w of
     (Inl _, _, w') \<Rightarrow> tbl w' = tbl w | (Inr x, _, w') \<Rightarrow> adds_container sp (tbl w) (cid x) (tbl w'))"

definition removing :: "('w \<Rightarrow> container_table) \<Rightarrow> string \<Rightarrow> ('w, 'a) op \<Rightarrow> bool" where
  "removing tbl n f \<longleftrightarrow> (\<forall>w. case f w of
     (Inl _, _, w') \<Rightarrow> tbl w' = tbl w | (Inr _, _, w') \<Rightarrow> drops_container n (tbl w) (tbl w'))"

definition container_tables :: "'w sys \<Rightarrow> ('w \<Rightarrow> container_table) \<Rightarrow> bool" where
  "container_tables sys tbl \<longleftrightarrow>
     (\<forall>w. well_formed (tbl w)) \<and> answers tbl sys \<and> leaves tbl sys
     \<and> (\<forall>sp. creating tbl sp (\<lambda>x. x) (ctr_create sys sp))
     \<and> (\<forall>img. creating tbl empty_spec_generator trim_space (exec_output sys ''podman'' [''create'', img]))
     \<and> (\<forall>n force. removing tbl n (ctr_remove sys n force))
     \<and> (\<forall>c. removing tbl c (exec_output sys ''podman'' [''rm'', c]))
     \<and> (\<forall>w. look_path sys w ''ssh'' \<noteq> Inr ''podman'')"

text \<open>
  A listing shows each container that passes the filter once: with its name, its labels and
  its ports. A filter for a label wants the label to have this value; a filter for a name is
  a regular expression, so a name of letters, digits and dashes is looked for anywhere in the
  names of the containers.
\<close>

definition lists :: "(container \<Rightarrow> bool) \<Rightarrow> container_table \<Rightarrow> list_container list \<Rightarrow> bool" where
  "lists P t ls \<longleftrightarrow> distinct (map lc_id ls)
     \<and> lc_id ` set ls = {i. \<exists>c. t i = Some c \<and> P c}
     \<and> (\<forall>l\<in>set ls. \<exists>c. t (lc_id l) = Some c \<and> lc_names l = [ct_name c]
          \<and> lc_labels l = ct_labels c \<and> lc_ports l = ct_ports c)"

definition listings :: "'w sys \<Rightarrow> ('w \<Rightarrow> container_table) \<Rightarrow> bool" where
  "listings sys tbl \<longleftrightarrow>
     (\<forall>w ls d w'. ctr_list sys [(''label'', ''app=podvirt'')] w = (Inr ls, d, w') \<longrightarrow>
        lists (\<lambda>c. map_of (ct_labels c) ''app'' = Some ''podvirt'') (tbl w) ls)
     \<and> (\<forall>v w ls d w'. dns_label v \<longrightarrow> ctr_list sys [(''name'', container_name v)] w = (Inr ls, d, w') \<longrightarrow>
        lists (\<lambda>c. sublist (container_name v) (ct_name c)) (tbl w) ls)"

text \<open>
  What podvirt has to do with: the containers under reserved names. The VMs are their names
  without the prefix.
\<close>

definition vm_view :: "container_table \<Rightarrow> container_table" where
  "vm_view t i = (case t i of None \<Rightarrow> None | Some c \<Rightarrow> if reserved (ct_name c) then Some c else None)"

definition vms_of :: "container_table \<Rightarrow> string set" where
  "vms_of t = {v. container_name v \<in> ct_name ` ran t}"

definition view_at :: "('w \<Rightarrow> container_table) \<Rightarrow> 'w \<Rightarrow> container_table" where
  "view_at tbl w = vm_view (tbl w)"

section \<open>Changes of the table, seen from the VMs\<close>

lemma reserved_container_name [simp]: "reserved (container_name v)"
  by (simp add: reserved_def container_name_def)

lemma reserved_vm: "reserved n \<Longrightarrow> \<exists>v. n = container_name v"
  by (auto simp: reserved_def container_name_def prefix_def)

lemma container_name_inject [simp]: "container_name v = container_name v' \<longleftrightarrow> v = v'"
  by (simp add: container_name_def)

lemma vm_view_Some: "vm_view t i = Some c \<longleftrightarrow> t i = Some c \<and> reserved (ct_name c)"
  by (auto simp: vm_view_def split: option.splits)

lemma vm_view_upd:
  "vm_view (t(i \<mapsto> c)) = (if reserved (ct_name c) then (vm_view t)(i \<mapsto> c) else (vm_view t)(i := None))"
  "vm_view (t(i := None)) = (vm_view t)(i := None)"
  by (auto simp: vm_view_def fun_eq_iff)

lemma vm_view_None: "t i = None \<Longrightarrow> vm_view t i = None"
  by (simp add: vm_view_def)

lemma vms_of_iff: "v \<in> vms_of t \<longleftrightarrow> (\<exists>i c. t i = Some c \<and> ct_name c = container_name v)"
  unfolding vms_of_def ran_def image_def by force

lemma vms_of_view [simp]: "vms_of (vm_view t) = vms_of t"
  using reserved_container_name by (fastforce simp: vms_of_iff vm_view_Some)

lemma fun_upd_None: "t i = None \<Longrightarrow> t(i := None) = t"
  by (rule fun_upd_idem)

lemma adds_helper: "adds_container sp t cid t' \<Longrightarrow> sg_name sp = [] \<Longrightarrow> vm_view t' = vm_view t"
  unfolding adds_container_def by (auto simp: vm_view_upd fun_upd_None vm_view_None domIff)

text \<open>The container of a VM, as its specification asked for it.\<close>

definition made_from :: "spec_generator \<Rightarrow> container \<Rightarrow> bool" where
  "made_from sp c \<longleftrightarrow> ct_name c = sg_name sp \<and> map_of (sg_labels sp) \<subseteq>\<^sub>m map_of (ct_labels c)
     \<and> ct_ports c = sg_port_mappings sp"

lemma adds_vm:
  assumes "adds_container sp t cid t'" and "sg_name sp = container_name v"
  obtains c where "v \<notin> vms_of t" and "vm_view t cid = None" and "made_from sp c"
    and "vm_view t' = (vm_view t)(cid \<mapsto> c)"
proof -
  obtain c where c: "cid \<notin> dom t" "t' = t(cid \<mapsto> c)" "ct_name c \<notin> ct_name ` ran t" "made_from sp c"
    using assms unfolding adds_container_def made_from_def by (metis container_name_nonempty)
  moreover have "vm_view t' = (vm_view t)(cid \<mapsto> c)"
    using c(2,4) assms(2) by (simp add: vm_view_upd made_from_def)
  ultimately show ?thesis
    using that [of c] assms(2) by (auto simp: vms_of_def made_from_def vm_view_None domIff)
qed

lemma drops_other:
  assumes "drops_container n t t'" and "\<not> reserved n" and "\<forall>c. t n = Some c \<longrightarrow> \<not> reserved (ct_name c)"
  shows "vm_view t' = vm_view t"
proof -
  obtain i c where t': "t i = Some c" "i = n \<or> ct_name c = n" "t' = t(i := None)"
    using assms(1) unfolding drops_container_def by blast
  then have "\<not> reserved (ct_name c)" using assms(2,3) by auto
  then have "vm_view t i = None" using t'(1) by (simp add: vm_view_def)
  then show ?thesis using t'(3) by (simp add: vm_view_upd fun_upd_None)
qed

lemma drops_vm:
  assumes "drops_container (container_name v) t t'" and "well_formed t"
  obtains i c where "vm_view t i = Some c" and "ct_name c = container_name v" and "vm_view t' = (vm_view t)(i := None)"
proof -
  obtain i c where t': "t i = Some c" "i = container_name v \<or> ct_name c = container_name v" "t' = t(i := None)"
    using assms(1) unfolding drops_container_def by blast
  moreover have "\<not> reserved i" using assms(2) t'(1) by (auto simp: well_formed_def)
  then have "ct_name c = container_name v" using t'(2) by auto
  ultimately show ?thesis using that [of i c] by (simp add: vm_view_Some vm_view_upd)
qed

section \<open>Actions that leave a part of the world alone\<close>

definition keeps :: "('w \<Rightarrow> 'n) \<Rightarrow> ('w st, 'a) act \<Rightarrow> bool" where
  "keeps N m \<longleftrightarrow> (\<forall>s. N (ext (snd (m s))) = N (ext s))"

named_theorems keeps_intros \<open>actions that leave the names of VM containers alone\<close>

lemma keepsD: "keeps N m \<Longrightarrow> m s = (r, s') \<Longrightarrow> N (ext s') = N (ext s)"
  by (metis keeps_def snd_conv)

lemma keeps_prims [keeps_intros]:
  "keeps N (ok x)" "keeps N (fail e)" "keeps N (lift_res r)" "keeps N (query g)" "keeps N now"
  "keeps N (emit ev)" "keeps N (say f as)" "keeps N (warn f as)" "keeps N (slice12 cid)"
  by (simp_all add: keeps_def query_def now_def emit_def say_def warn_def slice12_def)

lemma keeps_call [keeps_intros]: "keeps_op N f \<Longrightarrow> keeps N (call e f)"
  by (auto simp: keeps_def keeps_op_def call_def split: prod.splits) (metis snd_conv)

lemma keeps_bindE_val:
  assumes "keeps N m" and "\<And>s x s'. m s = (Inr x, s') \<Longrightarrow> keeps N (f x)"
  shows "keeps N (bindE m f)"
  unfolding keeps_def
proof
  fix s
  obtain r s1 where m: "m s = (r, s1)" by fastforce
  then show "N (ext (snd (bindE m f s))) = N (ext s)"
    using keepsD [OF assms(1) m] assms(2) by (cases r) (auto simp: run_bindE keeps_def)
qed

lemma keeps_bindE [keeps_intros]: "keeps N m \<Longrightarrow> (\<And>x. keeps N (f x)) \<Longrightarrow> keeps N (bindE m f)"
  by (rule keeps_bindE_val)

lemma keeps_wrapE [keeps_intros]: "keeps N m \<Longrightarrow> keeps N (wrapE w m)"
  by (auto simp: keeps_def run_wrapE split: prod.splits sum.splits) (metis snd_conv)+

lemma keeps_attempt [keeps_intros]: "keeps N m \<Longrightarrow> keeps N (attempt m)"
  by (auto simp: keeps_def run_attempt split: prod.splits) (metis snd_conv)

lemma keeps_deferE [keeps_intros]: "keeps N m \<Longrightarrow> keeps N c \<Longrightarrow> keeps N (deferE m c)"
  unfolding deferE_def by (intro keeps_intros)

lemma keeps_if [keeps_intros]: "keeps N m \<Longrightarrow> keeps N m' \<Longrightarrow> keeps N (if b then m else m')"
  by simp

lemma keeps_case_sum [keeps_intros]:
  "(\<And>e. keeps N (f e)) \<Longrightarrow> (\<And>x. keeps N (g x)) \<Longrightarrow> keeps N (case r of Inl e \<Rightarrow> f e | Inr x \<Rightarrow> g x)"
  by (cases r) auto

lemma keeps_case_option [keeps_intros]:
  "keeps N m \<Longrightarrow> (\<And>x. keeps N (g x)) \<Longrightarrow> keeps N (case r of None \<Rightarrow> m | Some x \<Rightarrow> g x)"
  by (cases r) auto

lemma keeps_case_prod [keeps_intros]: "(\<And>x y. keeps N (f x y)) \<Longrightarrow> keeps N (case p of (x, y) \<Rightarrow> f x y)"
  by (cases p) auto

lemma keeps_case_list [keeps_intros]:
  "keeps N m \<Longrightarrow> (\<And>x xs. keeps N (g x xs)) \<Longrightarrow> keeps N (case l of [] \<Rightarrow> m | x # xs \<Rightarrow> g x xs)"
  by (cases l) auto

lemma keeps_forE [keeps_intros]: "(\<And>x. keeps N (f x)) \<Longrightarrow> keeps N (forE xs f)"
  by (induction xs) (auto intro!: keeps_intros)

section \<open>The operations of the world\<close>

lemma keeps_op_comp: "keeps_op N f \<Longrightarrow> keeps_op (\<lambda>w. g (N w)) f"
  by (simp add: keeps_op_def)

lemma leaves_comp: "leaves N sys \<Longrightarrow> leaves (\<lambda>w. g (N w)) sys"
  unfolding leaves_def by (simp add: keeps_op_comp)

lemma leaves_ops [keeps_intros]:
  assumes "leaves N sys"
  shows "keeps_op N (os_mkdir_all sys p)" "keeps_op N (os_write_file sys p c)" "keeps_op N (os_create sys p)"
    "keeps_op N (io_copy sys p cr)" "keeps_op N (os_remove sys p)" "keeps_op N (os_remove_all sys p)"
    "keeps_op N (os_rename sys p q)" "keeps_op N (stdin_line sys)"
    "keeps_op N (sleep_more sys t)" "keeps_op N (pod_connect sys u)" "keeps_op N (ctr_exists sys n)"
    "keeps_op N (ctr_start sys n)" "keeps_op N (ctr_stop sys n tmo)" "keeps_op N (ctr_inspect_image sys n)"
    "keeps_op N (ctr_list sys f)" "keeps_op N (ctr_wait sys n)" "keeps_op N (ctr_logs sys n)"
    "keeps_op N (ctr_copy sys n p)" "keeps_op N (image_exists sys i)" "keeps_op N (image_pull sys i)"
    "keeps_op N (exec_create sys n as)" "keeps_op N (exec_attach sys i)"
  using assms by (simp_all add: leaves_def)

lemma leaves_exec: "leaves N sys \<Longrightarrow> harmless p as \<Longrightarrow> keeps_op N (exec_output sys p as)"
  unfolding leaves_def by blast

lemma container_tablesD:
  assumes "container_tables sys tbl"
  shows "well_formed (tbl w)" and "answers tbl sys" and "leaves tbl sys"
    and "creating tbl sp (\<lambda>x. x) (ctr_create sys sp)"
    and "creating tbl empty_spec_generator trim_space (exec_output sys ''podman'' [''create'', img])"
    and "removing tbl n (ctr_remove sys n force)"
    and "removing tbl n (exec_output sys ''podman'' [''rm'', n])"
    and "look_path sys w0 ''ssh'' \<noteq> Inr ''podman''"
  using assms by (simp_all add: container_tables_def)

lemma creating_call:
  assumes "creating tbl sp cid f" and "call e f s = (r, s')"
  shows "case r of Inl _ \<Rightarrow> tbl (ext s') = tbl (ext s)
     | Inr x \<Rightarrow> adds_container sp (tbl (ext s)) (cid x) (tbl (ext s'))"
  using assms(2) assms(1) [unfolded creating_def, THEN spec, of "ext s"]
  by (auto simp: call_def split: prod.splits sum.splits)

lemma removing_call:
  assumes "removing tbl n f" and "call e f s = (r, s')"
  shows "case r of Inl _ \<Rightarrow> tbl (ext s') = tbl (ext s) | Inr x \<Rightarrow> drops_container n (tbl (ext s)) (tbl (ext s'))"
  using assms(2) assms(1) [unfolded removing_def, THEN spec, of "ext s"]
  by (auto simp: call_def split: prod.splits sum.splits)

lemma leaves_vms: "container_tables sys tbl \<Longrightarrow> leaves (view_at tbl) sys"
  unfolding view_at_def by (rule leaves_comp [where g = vm_view, OF container_tablesD(3)])

lemma keeps_vms: "keeps tbl m \<Longrightarrow> keeps (view_at tbl) m"
  by (simp add: keeps_def view_at_def)

text \<open>A helper container: what is created without a name and removed at the end.\<close>

lemma helper_gone:
  assumes ct: "container_tables sys tbl" and n: "sg_name sp = []"
    and a: "adds_container sp (tbl w0) cid (tbl (ext s))"
    and b: "keeps tbl body"
    and r: "\<And>s s' r. remove s = (r, s') \<Longrightarrow> tbl (ext s') = tbl (ext s) \<or> drops_container cid (tbl (ext s)) (tbl (ext s'))"
  shows "view_at tbl (ext (snd (deferE body remove s))) = view_at tbl w0"
proof -
  obtain r1 s1 where b1: "body s = (r1, s1)" by fastforce
  obtain r2 s2 where r2: "remove s1 = (r2, s2)" by fastforce
  have k: "tbl (ext s1) = tbl (ext s)" using keepsD [OF b b1] .
  obtain c where c: "tbl (ext s) cid = Some c" "\<not> reserved (ct_name c)"
    using a n by (auto simp: adds_container_def)
  moreover have "\<not> reserved cid" using container_tablesD(1) [OF ct] c(1) unfolding well_formed_def by blast
  ultimately have "drops_container cid (tbl (ext s)) t' \<Longrightarrow> vm_view t' = vm_view (tbl (ext s))" for t'
    using drops_other by simp
  then have "vm_view (tbl (ext s2)) = vm_view (tbl (ext s))" using r [OF r2] k by auto
  then show ?thesis using b1 r2 adds_helper [OF a n] by (simp add: run_deferE view_at_def)
qed

lemma remove_helper:
  assumes "container_tables sys tbl" and "call e (ctr_remove sys cid f) s = (r, s')"
  shows "tbl (ext s') = tbl (ext s) \<or> drops_container cid (tbl (ext s)) (tbl (ext s'))"
  using removing_call [OF container_tablesD(6) [OF assms(1)] assms(2)] by (auto split: sum.splits)

text \<open>An action that begins with the creation of a helper container.\<close>

lemma keeps_helper:
  assumes ct: "container_tables sys tbl" and c: "creating tbl sp cid f" and n: "sg_name sp = []"
    and e: "\<And>err. keeps (view_at tbl) (g (Inl err))"
    and i: "\<And>x. g (Inr x) = deferE (body x) (remove x)"
    and b: "\<And>x. keeps tbl (body x)"
    and r: "\<And>x s s' r. remove x s = (r, s') \<Longrightarrow>
      tbl (ext s') = tbl (ext s) \<or> drops_container (cid x) (tbl (ext s)) (tbl (ext s'))"
  shows "keeps (view_at tbl) (bindE (attempt (call ev f)) g)"
  unfolding keeps_def
proof
  fix s
  obtain r0 s1 where c1: "call ev f s = (r0, s1)" by fastforce
  show "view_at tbl (ext (snd (bindE (attempt (call ev f)) g s))) = view_at tbl (ext s)"
  proof (cases r0)
    case (Inl err)
    then have "view_at tbl (ext s1) = view_at tbl (ext s)"
      using creating_call [OF c c1] by (simp add: view_at_def)
    then show ?thesis using c1 Inl e [of err] by (simp add: run_bindE run_attempt keeps_def)
  next
    case (Inr x)
    then have "adds_container sp (tbl (ext s)) (cid x) (tbl (ext s1))" using creating_call [OF c c1] by simp
    from helper_gone [OF ct n this b r] show ?thesis
      using c1 Inr by (simp add: run_bindE run_attempt i)
  qed
qed

text \<open>The same where the error of the creation is wrapped and returned.\<close>

lemma bindE_wrapE_attempt: "bindE (wrapE w m) f = bindE (attempt m) (\<lambda>r. case r of Inl e \<Rightarrow> fail (w e) | Inr x \<Rightarrow> f x)"
  by (auto simp: fun_eq_iff run_bindE run_wrapE run_attempt split: prod.splits sum.splits)

section \<open>podvirt's operations\<close>

lemma keeps_sleep [keeps_intros]: "leaves N sys \<Longrightarrow> keeps N (sleep sys d)"
  using keepsD [OF keeps_call [OF leaves_ops(9)]]
  by (fastforce simp: keeps_def sleep_def split: prod.splits)

lemma keeps_collect_container_logs [keeps_intros]: "leaves N sys \<Longrightarrow> keeps N (collect_container_logs sys cid)"
  unfolding collect_container_logs_def by (intro keeps_intros)

lemma keeps_run_one_shot_container [keeps_intros]:
  assumes ct: "container_tables sys tbl"
  shows "keeps (view_at tbl) (run_one_shot_container sys img mounts entrypoint command)"
proof -
  note lv = container_tablesD(3) [OF ct]
  note h = keeps_helper [OF ct container_tablesD(4) [OF ct] helper_spec_names(1)]
  show ?thesis
    unfolding run_one_shot_container_def Let_def
    by (rule h, simp_all only: sum.case) (intro keeps_intros lv remove_helper [OF ct]; assumption?)+
qed

lemma keeps_write_qemu_binary [keeps_intros]: "leaves N sys \<Longrightarrow> keeps N (write_qemu_binary sys rp sp img c)"
  unfolding write_qemu_binary_def by (intro keeps_intros)

lemma keeps_extract_qemu [keeps_intros]: "leaves N sys \<Longrightarrow> keeps N (extract_qemu sys rp sp img es tend)"
  by (induction sys rp sp img es tend rule: extract_qemu.induct)
    (auto intro!: keeps_intros split: option.splits)

lemma keeps_clear_caps_cache [keeps_intros]: "leaves N sys \<Longrightarrow> keeps N (clear_caps_cache sys)"
  unfolding clear_caps_cache_def Let_def by (intro keeps_intros)

lemma keeps_ensure_qemu_binary [keeps_intros]:
  assumes ct: "container_tables sys tbl"
  shows "keeps (view_at tbl) (ensure_qemu_binary sys img d)"
proof -
  note lv = container_tablesD(3) [OF ct] leaves_vms [OF ct]
  note h = keeps_helper [OF ct container_tablesD(4) [OF ct] helper_spec_names(2)]
  show ?thesis
    unfolding ensure_qemu_binary_def Let_def bindE_wrapE_attempt [of _ "call (CtrCreate _) _"]
    apply (rule keeps_bindE, intro keeps_intros)
    apply (rule keeps_bindE, intro keeps_intros)
    apply (rule keeps_if, intro keeps_intros)
    apply (rule keeps_bindE, intro keeps_intros lv)
    apply (rule keeps_bindE, intro keeps_intros lv)
    apply (rule h, simp_all only: sum.case)
      apply (intro keeps_intros lv)+
    apply (rule remove_helper [OF ct], assumption)
    done
qed

lemma keeps_runtime_support [keeps_intros]:
  assumes "leaves N sys"
  shows "keeps N (write_qemu_support sys)" "keeps N (libvirt_logs_dir sys)"
  unfolding write_qemu_support_def libvirt_logs_dir_def Let_def by (intro keeps_intros assms)+

lemma keeps_restore_runtime_support [keeps_intros]:
  "container_tables sys tbl \<Longrightarrow> keeps (view_at tbl) (restore_runtime_support sys img b)"
  unfolding restore_runtime_support_def by (intro keeps_intros leaves_vms)

lemma keeps_podman_pkg [keeps_intros]:
  assumes "leaves N sys"
  shows "keeps N (podman_new sys)" "keeps N (ensure_image sys img)"
  "keeps N (stop_vm sys v t)" "keeps N (inspect_vm sys v)"
  "keeps N (list_vms sys)" "keeps N (exists_vm sys v)"
  unfolding podman_new_def ensure_image_def image_exists_op_def pull_image_def stop_vm_def
    inspect_vm_def list_vms_def exists_vm_def Let_def
  by (intro keeps_intros assms)+

lemma keeps_start_vm [keeps_intros]: "container_tables sys tbl \<Longrightarrow> keeps (view_at tbl) (start_vm sys v)"
  unfolding start_vm_def by (intro keeps_intros leaves_vms)

lemma keeps_libvirt [keeps_intros]:
  assumes "leaves N sys"
  shows "keeps N (virsh sys c args)" "keeps N (get_state sys c v)"
  "keeps N (get_info sys c v)" "keeps N (shutdown sys c v)"
  "keeps N (destroy sys c v)"
  unfolding get_state_def get_info_def shutdown_def destroy_def virsh_def Let_def
  by (intro keeps_intros assms)+

lemma keeps_cmd_helpers [keeps_intros]:
  assumes "leaves N sys"
  shows "keeps N (new_podman_client sys)" "keeps N (vm_guard sys v)"
  "keeps N (confirm_action sys prompt as)"
  unfolding new_podman_client_def vm_guard_def confirm_action_def Let_def by (intro keeps_intros assms)+

lemma vm_guard_answer:
  assumes "container_tables sys tbl" and "vm_guard sys v s = (Inr b, s')"
  shows "b = (v \<in> vms_of (view_at tbl (ext s))) \<and> view_at tbl (ext s') = view_at tbl (ext s)"
proof -
  obtain u s1 where n: "new_podman_client sys s = (Inr u, s1)" and e: "exists_vm sys v s1 = (Inr b, s')"
    using assms(2) unfolding vm_guard_def by (rule bindE_Inr_E)
  obtain d where "ctr_exists sys (container_name v) (ext s1) = (Inr b, d, ext s')"
    using e unfolding exists_vm_def by (auto simp: wrapE_Inr dest: call_ext)
  then have "b = (container_name v \<in> dom (tbl (ext s1)) \<or> container_name v \<in> ct_name ` ran (tbl (ext s1)))"
    using container_tablesD(2) [OF assms(1)] unfolding answers_def by blast
  moreover have "container_name v \<notin> dom (tbl (ext s1))"
    using container_tablesD(1) [OF assms(1)] reserved_container_name unfolding well_formed_def by blast
  ultimately have "b = (v \<in> vms_of (view_at tbl (ext s1)))" by (simp add: view_at_def vms_of_def [of "tbl _"])
  moreover have "view_at tbl (ext s1) = view_at tbl (ext s)" "view_at tbl (ext s') = view_at tbl (ext s1)"
    using keepsD [OF keeps_cmd_helpers(1) [OF leaves_vms [OF assms(1)]] n]
      keepsD [OF keeps_podman_pkg(6) [OF leaves_vms [OF assms(1)]] e] by blast+
  ultimately show ?thesis by simp
qed

end
