(* ===== verification/CommandTables.thy ===== *)
theory CommandTables
  imports ContainerTable
begin

text \<open>
  What each command does to the VMs: all leave them alone but \<open>create\<close>, which adds the one it
  names, and \<open>delete\<close>, which takes away the one it names.
\<close>

section \<open>Polling and watching\<close>

context poll_loop
begin

lemma loop_keeps:
  assumes "keeps N probe" and "leaves N sys"
  shows "keeps N (loop d)"
  unfolding keeps_def
proof
  fix s show "N (ext (snd (loop d s))) = N (ext s)"
  proof (induction s rule: loop_induct [where d = d])
    case (turn s)
    show ?case
    proof (cases rule: loop_turn [of d s])
      case over then show ?thesis by simp
    next
      case found then show ?thesis using keepsD [OF assms(1)] by simp
    next
      case (again x s1 s2)
      have "N (ext s2) = N (ext s1)"
        using keeps_sleep [OF assms(2), of poll_interval] again(4) by (simp add: keeps_def)
      then show ?thesis using keepsD [OF assms(1) again(2)] again turn [of s2] by simp
    qed
  qed
qed

end

lemma keeps_poll_loops [keeps_intros]:
  assumes "leaves N sys"
  shows "keeps N (start_wait_loop sys lv v d)" "keeps N (stop_poll_loop sys lv v d)"
  by (intro start_poll.loop_keeps stop_poll.loop_keeps keeps_intros assms)+

lemma keeps_print_status [keeps_intros]: "leaves N sys \<Longrightarrow> keeps N (print_status sys v)"
  unfolding print_status_def by (intro keeps_intros)

lemma keeps_watch_round: "leaves N sys \<Longrightarrow> keeps N (watch_round sys v)"
  unfolding watch_round_def by (intro keeps_intros)

lemma watch_rounds_keeps:
  assumes "leaves N sys"
  shows "watch_rounds sys v n s = Some s' \<Longrightarrow> N (ext s') = N (ext s)"
proof (induction n arbitrary: s)
  case (Suc n)
  then obtain u s1 where w: "watch_round sys v s = (Inr u, s1)"
    and r: "watch_rounds sys v n (snd (sleep sys poll_interval s1)) = Some s'"
    by (auto split: prod.splits sum.splits)
  have "N (ext (snd (sleep sys poll_interval s1))) = N (ext s1)"
    using keeps_sleep [OF assms, of poll_interval] by (simp add: keeps_def)
  then show ?case using Suc.IH [OF r] keepsD [OF keeps_watch_round [OF assms] w] by simp
qed simp

lemma watch_loop_keeps:
  assumes "leaves N sys" and "watch_loop sys v s = Some (r, s')"
  shows "N (ext s') = N (ext s) \<and> isl r"
  using watch_loop_Some [OF assms(2)] watch_rounds_keeps [OF assms(1)]
    keepsD [OF keeps_watch_round [OF assms(1)]] by fastforce

section \<open>Commands on an existing VM\<close>

lemma keeps_bodies [keeps_intros]:
  assumes "container_tables sys tbl"
  shows "keeps (view_at tbl) (start_body sys v w t)" "keeps (view_at tbl) (stop_body sys v f g t)"
    "keeps (view_at tbl) (handle_serial sys v)" "keeps (view_at tbl) (delete_stop sys v info)"
  unfolding start_body_def stop_body_def stop_gracefully_def stop_forced_def handle_serial_def
    delete_stop_def Let_def
  by (intro keeps_intros leaves_exec leaves_vms [OF assms] assms; simp add: harmless_def console_args_def)+

context vm_command
begin

lemma run_vms:
  assumes "container_tables sys tbl" and "keeps (view_at tbl) body" and "run s = (r, s')"
  shows "view_at tbl (ext s') = view_at tbl (ext s) \<and> (\<not> isl r \<longrightarrow> vmname \<in> vms_of (view_at tbl (ext s)))"
proof -
  have k: "keeps (view_at tbl) run"
    unfolding run_guard by (intro keeps_intros assms(2) leaves_vms [OF assms(1)])
  moreover have "vmname \<in> vms_of (view_at tbl (ext s))" if "\<not> isl r"
  proof -
    obtain u where "run s = (Inr u, s')" using assms(3) \<open>\<not> isl r\<close> by (cases r) auto
    then obtain s1 where "vm_guard sys vmname s = (Inr True, s1)" by (rule success_present)
    then show ?thesis using vm_guard_answer [OF assms(1)] by blast
  qed
  ultimately show ?thesis using keepsD [OF k assms(3)] by blast
qed

end

lemma keeps_list_ssh_clean:
  assumes "container_tables sys tbl"
  shows "keeps (view_at tbl) (run_list sys flt fmt)" "keeps (view_at tbl) (run_clean_cache sys f)"
  unfolding run_list_def list_entry_def print_list_table_def run_clean_cache_def do_clean_cache_def
    remove_target_def Let_def
  by (intro keeps_intros leaves_vms [OF assms])+

lemma keeps_run_ssh:
  assumes "container_tables sys tbl"
  shows "keeps (view_at tbl) (run_ssh sys args user port identity)"
proof -
  have h: "harmless bin as" if "wrapE w (query (\<lambda>w. look_path sys w ''ssh'')) s = (Inr bin, s')" for w s bin as s'
    using that container_tablesD(8) [OF assms]
    by (auto simp: harmless_def run_wrapE query_def split: sum.splits)
  show ?thesis
    unfolding run_ssh_def Let_def
    apply (intro keeps_case_list keeps_if keeps_prims keeps_bindE [of _ "new_podman_client _"]
        keeps_bindE [of _ "inspect_vm _ _"] keeps_bindE [of _ "if _ then _ else _"] keeps_cmd_helpers keeps_podman_pkg
        leaves_vms [OF assms])
    apply (rule keeps_bindE_val, intro keeps_intros)
    apply (rule keeps_bindE, intro keeps_intros)
    apply (rule keeps_bindE, rule keeps_call, rule leaves_exec, rule leaves_vms [OF assms])
     apply (erule h)
    apply (intro keeps_intros)
    done
qed

section \<open>Delete\<close>

text \<open>One step of a run, for a claim \<open>P\<close> about its end.\<close>

lemma keeps_step:
  assumes "keeps N m" and "\<And>e s1. N (ext s1) = N (ext s) \<Longrightarrow> P (Inl e, s1)"
    and "\<And>x s1. m s = (Inr x, s1) \<Longrightarrow> N (ext s1) = N (ext s) \<Longrightarrow> P (f x s1)"
  shows "P (bindE m f s)"
proof -
  obtain r s1 where m: "m s = (r, s1)" by fastforce
  then show ?thesis using assms(2,3) keepsD [OF assms(1) m] by (cases r) (simp_all add: run_bindE)
qed

text \<open>The removal of the container of a VM from a table.\<close>

definition vm_removed :: "string \<Rightarrow> container_table \<Rightarrow> container_table \<Rightarrow> bool" where
  "vm_removed v A B \<longleftrightarrow> (\<exists>i c. A i = Some c \<and> ct_name c = container_name v \<and> B = A(i := None))"

lemma remove_vm_view:
  assumes ct: "container_tables sys tbl" and "remove_vm sys v f s = (r, s')"
  shows "if isl r then view_at tbl (ext s') = view_at tbl (ext s)
    else vm_removed v (view_at tbl (ext s)) (view_at tbl (ext s'))"
proof -
  obtain r1 where r1: "call (CtrRemove (container_name v) f) (ctr_remove sys (container_name v) f) s = (r1, s')"
    and i: "isl r1 = isl r"
    using assms(2) by (auto simp: remove_vm_def run_wrapE split: prod.splits sum.splits)
  have "vm_removed v (vm_view (tbl (ext s))) (vm_view t')" if "drops_container (container_name v) (tbl (ext s)) t'" for t'
    using that container_tablesD(1) [OF ct] by (rule drops_vm) (auto simp: vm_removed_def)
  then show ?thesis
    using removing_call [OF container_tablesD(6) [OF ct] r1] i by (cases r1) (auto simp: view_at_def)
qed

lemma delete_body_view:
  assumes ct: "container_tables sys tbl"
  shows "case delete_body sys v force s of (r, s') \<Rightarrow>
     (if isl r then view_at tbl (ext s') = view_at tbl (ext s)
      else vm_removed v (view_at tbl (ext s)) (view_at tbl (ext s'))
        \<or> \<not> force \<and> view_at tbl (ext s') = view_at tbl (ext s))"
    (is "?P (delete_body sys v force s)")
proof -
  note lv = leaves_vms [OF ct]
  have last: "?P (bindE (remove_vm sys v True) (\<lambda>_. say ''VM %q deleted.\<newline>'' [FStr v]) s1)"
    if "view_at tbl (ext s1) = view_at tbl (ext s)" for s1
  proof -
    obtain r s2 where r: "remove_vm sys v True s1 = (r, s2)" by fastforce
    then show ?thesis using remove_vm_view [OF ct r] that
      by (auto simp: run_bindE say_def emit_def split: sum.splits)
  qed
  show ?thesis
    unfolding delete_body_def
    apply (rule keeps_step [where N = "view_at tbl"], intro keeps_intros lv, simp)
    subgoal for confirmed s1
      apply (cases confirmed)
       apply (simp only: not_True_eq_False if_False)
       apply (rule keeps_step [where N = "view_at tbl"], intro keeps_intros lv, simp)
       apply (rule keeps_step [where N = "view_at tbl"], intro keeps_intros ct, simp)
       apply (rule keeps_step [where N = "view_at tbl"], intro keeps_intros, simp)
       apply (rule last, simp)
      apply (auto simp: say_def emit_def run_bindE split: if_splits)
      done
    done
qed

section \<open>Create\<close>

lemma keeps_find_extracted_disk [keeps_intros]: "leaves N sys \<Longrightarrow> keeps N (find_extracted_disk sys d)"
  unfolding find_extracted_disk_def Let_def by (intro keeps_intros)

text \<open>The container that a disk is copied from is a helper made with the \<open>podman\<close> program.\<close>

lemma keeps_pull_and_extract [keeps_intros]:
  assumes ct: "container_tables sys tbl"
  shows "keeps (view_at tbl) (pull_and_extract sys img dest)"
proof -
  note lv = leaves_vms [OF ct] container_tablesD(3) [OF ct]
  have k: "leaves N sys \<Longrightarrow> as \<noteq> [] \<Longrightarrow> hd as \<in> {''pull'', ''cp''} \<Longrightarrow> keeps N (podman_cmd sys as)" for N as
    unfolding podman_cmd_def by (intro keeps_call leaves_exec) (auto simp: harmless_def)
  have r: "tbl (ext s') = tbl (ext s) \<or> drops_container (trim_space out) (tbl (ext s)) (tbl (ext s'))"
    if "bindE (attempt (podman_cmd sys [''rm'', trim_space out])) (\<lambda>r. case r of
        Inl e \<Rightarrow> warn ''Warning: cleaning up temporary container %q failed: %v\<newline>'' [FStr (trim_space out), FErr e]
      | Inr _ \<Rightarrow> ok ()) s = (r, s')" for out s r s'
  proof -
    obtain r1 s1 where c: "podman_cmd sys [''rm'', trim_space out] s = (r1, s1)" by fastforce
    then have "ext s' = ext s1"
      using that by (cases r1) (auto simp: run_bindE run_attempt warn_def emit_def)
    then show ?thesis
      using removing_call [OF container_tablesD(7) [OF ct] c [unfolded podman_cmd_def]] by (cases r1) auto
  qed
  show ?thesis
    unfolding pull_and_extract_def Let_def bindE_wrapE_attempt [of _ "podman_cmd sys [''create'', img]"]
    apply (rule keeps_bindE, intro keeps_intros lv)
    apply (rule keeps_bindE, intro keeps_intros)
    apply (rule keeps_bindE, rule keeps_wrapE, rule k, rule lv, simp, simp)
    apply (rule keeps_bindE, intro keeps_intros)
    unfolding podman_cmd_def [of sys "[''create'', img]"]
    apply (rule keeps_helper [OF ct container_tablesD(5) [OF ct]], simp add: empty_spec_generator_def, simp_all only: sum.case)
      apply (intro keeps_intros)
     apply (intro keeps_bindE keeps_wrapE k lv keeps_if keeps_prims keeps_find_extracted_disk; simp)
    apply (rule r, assumption)
    done
qed

lemma keeps_first_ssh_key [keeps_intros]: "keeps N (first_ssh_key sys ps)"
  by (induction ps; unfold first_ssh_key.simps Let_def) (intro keeps_intros; assumption)+

lemma keeps_assemble_vm [keeps_intros]:
  assumes "container_tables sys tbl"
  shows "keeps (view_at tbl) (assemble_vm sys opts)"
  unfolding assemble_vm_def apply_cloud_init_flags_def resolve_ssh_keys_def extract_container_disks_def
    extract_disk_def Let_def
  by (intro keeps_intros leaves_vms [OF assms] assms)

lemma keeps_prepare_sized_disks [keeps_intros]:
  assumes "container_tables sys tbl"
  shows "keeps (view_at tbl) (prepare_sized_disks sys vm li)"
  unfolding prepare_sized_disks_def prepare_sized_disk_def build_sized_disk_image_def copy_resized_def
    inspect_disk_image_def run_qemu_img_def run_qemu_img_output_def Let_def
  by (intro keeps_intros leaves_vms [OF assms] assms)

text \<open>Creating the container of a VM adds the VM, which was not there, or fails and adds nothing.\<close>

definition vm_added :: "(spec_generator \<Rightarrow> bool) \<Rightarrow> string \<Rightarrow> container_table \<Rightarrow> container_table \<Rightarrow> bool" where
  "vm_added P v A B \<longleftrightarrow> (\<exists>i c sp. v \<notin> vms_of A \<and> A i = None \<and> P sp \<and> sg_name sp = container_name v
     \<and> made_from sp c \<and> B = A(i \<mapsto> c))"

lemma create_vm_view:
  assumes ct: "container_tables sys tbl" and P: "\<And>dirs. P (vm_container_spec sys v img result dirs)"
  shows "case create_vm sys v img result s of
      (Inl e, s') \<Rightarrow> view_at tbl (ext s') = view_at tbl (ext s)
    | (Inr cid, s') \<Rightarrow> 12 \<le> length cid \<and> vm_added P v (view_at tbl (ext s)) (view_at tbl (ext s'))"
    (is "?P (create_vm sys v img result s)")
proof -
  have last: "?P (wrapE w (call e (ctr_create sys sp)) s1)"
    if sp: "sg_name sp = container_name v" "P sp" and v: "view_at tbl (ext s1) = view_at tbl (ext s)" for w e sp s1
  proof -
    obtain r s2 where c: "call e (ctr_create sys sp) s1 = (r, s2)" by fastforce
    note a = creating_call [OF container_tablesD(4) [OF ct] c]
    show ?thesis
    proof (cases r)
      case (Inl err)
      then show ?thesis using a c v by (simp add: run_wrapE view_at_def)
    next
      case (Inr cid)
      then have ad: "adds_container sp (tbl (ext s1)) cid (tbl (ext s2))" using a by simp
      then have "cid \<in> dom (tbl (ext s2))" by (auto simp: adds_container_def)
      then have "12 \<le> length cid" using container_tablesD(1) [OF ct] unfolding well_formed_def by blast
      moreover have "vm_added P v (view_at tbl (ext s1)) (view_at tbl (ext s2))"
        using ad sp(1)
      proof (rule adds_vm)
        fix c assume "v \<notin> vms_of (tbl (ext s1))" "vm_view (tbl (ext s1)) cid = None" "made_from sp c"
          "vm_view (tbl (ext s2)) = (vm_view (tbl (ext s1)))(cid \<mapsto> c)"
        then show ?thesis unfolding vm_added_def view_at_def using sp by (metis vms_of_view)
      qed
      ultimately show ?thesis using c v Inr by (simp add: run_wrapE)
    qed
  qed
  show ?thesis
    unfolding create_vm_def Let_def
    apply (rule keeps_step [where N = "view_at tbl"], intro keeps_intros ct, simp)
    apply (rule last, simp, rule P, simp)
    done
qed

text \<open>An action that cannot fail and leaves the world as it is, as printing does.\<close>

definition smooth :: "('w st, 'a) act \<Rightarrow> bool" where
  "smooth m \<longleftrightarrow> (\<forall>s. \<not> isl (fst (m s)) \<and> ext (snd (m s)) = ext s)"

lemma smooth_run: "smooth m \<Longrightarrow> m s = (r, s') \<Longrightarrow> \<not> isl r \<and> ext s' = ext s"
  unfolding smooth_def by (metis fst_conv snd_conv)

lemma smooth_say: "smooth (say f as)"
  by (simp add: smooth_def say_def emit_def)

lemma smooth_ok: "smooth (ok x)"
  by (simp add: smooth_def)

lemma smooth_bindE: "smooth m \<Longrightarrow> (\<And>x. smooth (f x)) \<Longrightarrow> smooth (bindE m f)"
  unfolding smooth_def run_bindE by (auto split: prod.splits sum.splits) (metis fst_conv snd_conv isl_def)+

lemma smooth_forE: "(\<And>x. smooth (f x)) \<Longrightarrow> smooth (forE xs f)"
  by (induction xs) (auto intro!: smooth_bindE smooth_ok)

lemma smooth_summary: "12 \<le> length cid \<Longrightarrow> smooth (print_create_summary vm result cid)"
  unfolding print_create_summary_def Let_def slice12_def
  by (simp add: smooth_bindE smooth_forE smooth_say)

text \<open>The name of a VM is that of the flag \<open>--name\<close> where it is given.\<close>

lemma apply_defaults_metadata: "vm_metadata (apply_defaults vm) = vm_metadata vm"
  by (simp add: apply_defaults_def Let_def)

lemma load_create_vm_name:
  "load_create_vm sys w opts = Inr vm \<Longrightarrow> co_name opts \<noteq> [] \<Longrightarrow> vm_name vm = co_name opts"
  by (auto simp: load_create_vm_def load_from_flags_def merge_flags_def Let_def set_disk_frames
      apply_defaults_metadata split: if_splits)

lemma assemble_vm_name:
  assumes "assemble_vm sys opts s = (Inr vm, s')" and "co_name opts \<noteq> []"
  shows "vm_name vm = co_name opts"
proof -
  obtain vm0 vm1 vm2 vm3 sa sb sc where l: "load_create_vm sys (ext s) opts = Inr vm0"
    and p: "apply_create_ports sys vm0 (co_port_strs opts) = Inr vm1"
    and c: "apply_cloud_init_flags sys vm1 opts sa = (Inr vm2, sb)"
    and d: "apply_create_disk_size vm2 (co_disk_size opts) = Inr vm3"
    and e: "extract_container_disks sys vm3 sc = (Inr vm, s')"
    using assms(1) unfolding assemble_vm_def by (auto simp: query_def elim!: bindE_Inr_E)
  have "vm_name vm0 = co_name opts"
    using load_create_vm_name [OF l assms(2)] .
  moreover have "vm_name vm1 = vm_name vm0" using p
    by (auto simp: apply_create_ports_def apply_port_forwards_def Let_def split: if_splits option.splits)
  moreover have "vm_name vm2 = vm_name vm1"
    using c by (auto simp: apply_cloud_init_flags_def elim!: bindE_Inr_E split: if_splits)
  moreover have "vm_name vm3 = vm_name vm2"
    using d by (auto simp: apply_create_disk_size_def split: if_splits list.splits)
  moreover have "vm_name vm = vm_name vm3" using extract_container_disks_extracted [OF e] by auto
  ultimately show ?thesis by simp
qed

end
