(* ===== verification/CmdLine.thy ===== *)
theory CmdLine
  imports CmdRoot
begin

text \<open>
  The commands as they are registered with the flag library: their names, how many arguments
  they take, their flags with types and defaults, and how each reads its arguments and flags.
  The library splits the command line into the name of a command, the flags that were given
  and the remaining arguments; that it gives a flag no value of another type is \<open>well_typed\<close>.
\<close>

section \<open>Flags and arguments\<close>

datatype flag_value = VString string | VInt int | VBool bool | VStrings "string list"

fun same_type :: "flag_value \<Rightarrow> flag_value \<Rightarrow> bool" where
  "same_type (VString _) (VString _) \<longleftrightarrow> True"
| "same_type (VInt _) (VInt _) \<longleftrightarrow> True"
| "same_type (VBool _) (VBool _) \<longleftrightarrow> True"
| "same_type (VStrings _) (VStrings _) \<longleftrightarrow> True"
| "same_type _ _ \<longleftrightarrow> False"

text \<open>The flags of a command by their names, with the short form and the default of each.\<close>

type_synonym flag_table = "(string \<times> string \<times> flag_value) list"

type_synonym given = "(string \<times> flag_value) list"

text \<open>The value of a flag; the library knows none that was not declared.\<close>

definition flag_lookup :: "flag_table \<Rightarrow> given \<Rightarrow> string \<Rightarrow> flag_value option" where
  "flag_lookup tab given name =
     map_option (\<lambda>(_, d). case map_of given name of Some v \<Rightarrow> v | None \<Rightarrow> d) (map_of tab name)"

definition flag_error :: "string \<Rightarrow> go_error + 'a" where
  "flag_error name = Inl (ExtError (''flag accessed but not defined: '' @ name))"

definition flag_string :: "flag_table \<Rightarrow> given \<Rightarrow> string \<Rightarrow> go_error + string" where
  "flag_string tab given name =
     (case flag_lookup tab given name of Some (VString x) \<Rightarrow> Inr x | _ \<Rightarrow> flag_error name)"

definition flag_int :: "flag_table \<Rightarrow> given \<Rightarrow> string \<Rightarrow> go_error + int" where
  "flag_int tab given name =
     (case flag_lookup tab given name of Some (VInt x) \<Rightarrow> Inr x | _ \<Rightarrow> flag_error name)"

definition flag_bool :: "flag_table \<Rightarrow> given \<Rightarrow> string \<Rightarrow> go_error + bool" where
  "flag_bool tab given name =
     (case flag_lookup tab given name of Some (VBool x) \<Rightarrow> Inr x | _ \<Rightarrow> flag_error name)"

definition flag_strings :: "flag_table \<Rightarrow> given \<Rightarrow> string \<Rightarrow> go_error + string list" where
  "flag_strings tab given name =
     (case flag_lookup tab given name of Some (VStrings x) \<Rightarrow> Inr x | _ \<Rightarrow> flag_error name)"

text \<open>\<open>x, _ := ...\<close>: an error leaves the zero value of the type.\<close>

definition or_zero :: "'a \<Rightarrow> go_error + 'a \<Rightarrow> 'a" where
  "or_zero z r = (case r of Inl _ \<Rightarrow> z | Inr x \<Rightarrow> x)"

definition first_arg :: "string list \<Rightarrow> go_error + string" where
  "first_arg args = (case args of [] \<Rightarrow> Inl (GoPanic ''index out of range'') | a # _ \<Rightarrow> Inr a)"

section \<open>The commands\<close>

datatype arg_rule = ExactArgs nat | ArbitraryArgs | NoArgs

text \<open>The rule of a command that states none is that of \<open>ArbitraryArgs\<close>.\<close>

fun args_admitted :: "arg_rule \<Rightarrow> string list \<Rightarrow> bool" where
  "args_admitted (ExactArgs n) args \<longleftrightarrow> length args = n"
| "args_admitted ArbitraryArgs args \<longleftrightarrow> True"
| "args_admitted NoArgs args \<longleftrightarrow> args = []"

record command =
  cd_use :: string
  cd_aliases :: "string list"
  cd_args :: arg_rule
  cd_flags :: flag_table
  cd_run :: "flag_table \<Rightarrow> given \<Rightarrow> string list \<Rightarrow> go_error + invocation"

definition create_flags :: flag_table where
  "create_flags =
     [(''config'', ''c'', VString []), (''name'', [], VString []), (''cpus'', [], VInt 1),
      (''memory'', [], VString ''1Gi''), (''disk'', [], VString []), (''disk-size'', [], VString []),
      (''image'', [], VString []), (''launcher-image'', [], VString default_launcher_image),
      (''port'', ''p'', VStrings []), (''ssh-key'', [], VStrings []), (''password'', [], VString []),
      (''user'', [], VString [])]"

text \<open>What \<open>create\<close> reads of the flags, and which of them were given.\<close>

definition flags_of :: "flag_table \<Rightarrow> given \<Rightarrow> flags" where
  "flags_of tab given =
     \<lparr>get_string = flag_string tab given, get_int = flag_int tab given,
      get_string_array = flag_strings tab given, changed = (\<lambda>k. map_of given k \<noteq> None)\<rparr>"

definition create_command :: command where
  "create_command = \<lparr>cd_use = ''create'', cd_aliases = [], cd_args = ArbitraryArgs, cd_flags = create_flags,
     cd_run = (\<lambda>tab given args. Inr (Create (flags_of tab given)))\<rparr>"

definition start_command :: command where
  "start_command = \<lparr>cd_use = ''start <vm-name>'', cd_aliases = [], cd_args = ExactArgs 1,
     cd_flags = [(''wait'', [], VBool False), (''wait-timeout'', [], VInt 120)],
     cd_run = (\<lambda>tab given args. bindR (first_arg args) (\<lambda>vmname.
       Inr (Start vmname (or_zero False (flag_bool tab given ''wait'')) (or_zero 0 (flag_int tab given ''wait-timeout'')))))\<rparr>"

definition stop_command :: command where
  "stop_command = \<lparr>cd_use = ''stop <vm-name>'', cd_aliases = [], cd_args = ExactArgs 1,
     cd_flags = [(''force'', ''f'', VBool False), (''graceful'', [], VBool False), (''timeout'', [], VInt 5)],
     cd_run = (\<lambda>tab given args. bindR (first_arg args) (\<lambda>vmname.
       Inr (Stop vmname (or_zero False (flag_bool tab given ''force'')) (or_zero False (flag_bool tab given ''graceful''))
         (or_zero 0 (flag_int tab given ''timeout'')))))\<rparr>"

definition delete_command :: command where
  "delete_command = \<lparr>cd_use = ''delete <vm-name>'', cd_aliases = [''rm''], cd_args = ExactArgs 1,
     cd_flags = [(''force'', ''f'', VBool False)],
     cd_run = (\<lambda>tab given args. bindR (first_arg args) (\<lambda>vmname.
       Inr (Delete vmname (or_zero False (flag_bool tab given ''force'')))))\<rparr>"

definition status_command :: command where
  "status_command = \<lparr>cd_use = ''status <vm-name>'', cd_aliases = [], cd_args = ExactArgs 1,
     cd_flags = [(''watch'', [], VBool False)],
     cd_run = (\<lambda>tab given args. bindR (first_arg args) (\<lambda>vmname.
       Inr (Status vmname (or_zero False (flag_bool tab given ''watch'')))))\<rparr>"

definition console_command :: command where
  "console_command = \<lparr>cd_use = ''console <vm-name>'', cd_aliases = [], cd_args = ExactArgs 1, cd_flags = [],
     cd_run = (\<lambda>tab given args. bindR (first_arg args) (\<lambda>vmname. Inr (Console vmname)))\<rparr>"

definition list_command :: command where
  "list_command = \<lparr>cd_use = ''list'', cd_aliases = [''ls''], cd_args = ArbitraryArgs,
     cd_flags = [(''state'', [], VString []), (''output'', ''o'', VString ''table'')],
     cd_run = (\<lambda>tab given args.
       Inr (ListVMs (or_zero [] (flag_string tab given ''state'')) (or_zero [] (flag_string tab given ''output''))))\<rparr>"

definition ssh_command :: command where
  "ssh_command = \<lparr>cd_use = ''ssh <vm-name>'', cd_aliases = [], cd_args = ArbitraryArgs,
     cd_flags = [(''user'', ''u'', VString []), (''port'', ''p'', VInt 0), (''identity'', [], VString [])],
     cd_run = (\<lambda>tab given args.
       Inr (Ssh args (or_zero [] (flag_string tab given ''user'')) (or_zero 0 (flag_int tab given ''port''))
         (or_zero [] (flag_string tab given ''identity''))))\<rparr>"

definition clean_cache_command :: command where
  "clean_cache_command = \<lparr>cd_use = ''clean-cache'', cd_aliases = [], cd_args = ArbitraryArgs,
     cd_flags = [(''force'', ''f'', VBool False)],
     cd_run = (\<lambda>tab given args. Inr (CleanCache (or_zero False (flag_bool tab given ''force''))))\<rparr>"

definition version_command :: command where
  "version_command = \<lparr>cd_use = ''version'', cd_aliases = [], cd_args = NoArgs, cd_flags = [],
     cd_run = (\<lambda>tab given args. Inr Version)\<rparr>"

definition root_commands :: "command list" where
  "root_commands = [create_command, start_command, stop_command, delete_command, status_command,
     console_command, list_command, ssh_command, clean_cache_command, version_command]"

section \<open>One command line\<close>

text \<open>The name of a command is the first word of its usage.\<close>

definition command_name :: "command \<Rightarrow> string" where
  "command_name c = takeWhile (\<lambda>x. x \<noteq> CHR '' '') (cd_use c)"

definition find_command :: "string \<Rightarrow> command option" where
  "find_command name = find (\<lambda>c. command_name c = name \<or> name \<in> set (cd_aliases c)) root_commands"

text \<open>A run of the program for a command line; an error of the library ends it with exit code 1.\<close>

definition run_line :: "'w sys \<Rightarrow> string \<Rightarrow> string \<Rightarrow> given \<Rightarrow> string list \<Rightarrow> 'w st \<Rightarrow> (nat \<times> 'w st) option" where
  "run_line sys ver name given args s =
     (case find_command name of
        None \<Rightarrow> Some (1, s)
      | Some c \<Rightarrow>
          if \<not> args_admitted (cd_args c) args then Some (1, s)
          else (case cd_run c (cd_flags c) given args of
                  Inl e \<Rightarrow> Some (exit_code (Inl e), s)
                | Inr cmd \<Rightarrow> execute sys ver cmd s))"

text \<open>What the library guarantees of the flags that were given.\<close>

definition well_typed :: "command \<Rightarrow> given \<Rightarrow> bool" where
  "well_typed c given \<longleftrightarrow> list_all (\<lambda>(n, v).
     (case map_of (cd_flags c) n of None \<Rightarrow> False | Some (_, d) \<Rightarrow> same_type v d)) given"

section \<open>Reading flags\<close>

lemma same_type_refl [simp]: "same_type v v"
  by (cases v) simp_all

fun_cases same_typeE: "same_type v (VString x)" "same_type v (VInt i)" "same_type v (VBool b)" "same_type v (VStrings xs)"

lemma typed_lookup:
  assumes "well_typed c given" and "map_of (cd_flags c) n = Some (short, d)"
  obtains v where "flag_lookup (cd_flags c) given n = Some v" and "same_type v d"
proof (cases "map_of given n")
  case None
  then show ?thesis using that assms(2) by (simp add: flag_lookup_def)
next
  case (Some v)
  then have "(n, v) \<in> set given" by (rule map_of_SomeD)
  then have "same_type v d" using assms by (auto simp: well_typed_def list_all_iff)
  then show ?thesis using that assms(2) Some by (simp add: flag_lookup_def)
qed

text \<open>A flag that is declared with a type can be read with this type.\<close>

lemma typed_reads:
  assumes "well_typed c given"
  shows "map_of (cd_flags c) n = Some (short, VString x) \<Longrightarrow>
      \<exists>y. flag_lookup (cd_flags c) given n = Some (VString y) \<and> flag_string (cd_flags c) given n = Inr y"
    and "map_of (cd_flags c) n = Some (short, VInt i) \<Longrightarrow>
      \<exists>j. flag_lookup (cd_flags c) given n = Some (VInt j) \<and> flag_int (cd_flags c) given n = Inr j"
    and "map_of (cd_flags c) n = Some (short, VBool b) \<Longrightarrow>
      \<exists>b'. flag_lookup (cd_flags c) given n = Some (VBool b') \<and> flag_bool (cd_flags c) given n = Inr b'"
    and "map_of (cd_flags c) n = Some (short, VStrings xs) \<Longrightarrow>
      \<exists>ys. flag_lookup (cd_flags c) given n = Some (VStrings ys) \<and> flag_strings (cd_flags c) given n = Inr ys"
  by (erule typed_lookup [OF assms], erule same_typeE,
      auto simp: flag_string_def flag_int_def flag_bool_def flag_strings_def)+

text \<open>
  What a command should have read: its arguments as they are and of each flag the value that
  was given, or else its default.
\<close>

fun reads :: "flag_table \<Rightarrow> given \<Rightarrow> string list \<Rightarrow> invocation \<Rightarrow> bool" where
  "reads tab given args (Create fl) \<longleftrightarrow> (\<exists>opts. parse_create_options fl = Inr opts
     \<and> flag_lookup tab given ''config'' = Some (VString (co_config_file opts))
     \<and> flag_lookup tab given ''name'' = Some (VString (co_name opts))
     \<and> flag_lookup tab given ''cpus'' = Some (VInt (co_cpus opts))
     \<and> flag_lookup tab given ''memory'' = Some (VString (co_memory opts))
     \<and> flag_lookup tab given ''disk-size'' = Some (VString (co_disk_size opts))
     \<and> flag_lookup tab given ''disk'' = Some (VString (co_disk opts))
     \<and> flag_lookup tab given ''image'' = Some (VString (co_image opts))
     \<and> flag_lookup tab given ''launcher-image'' = Some (VString (co_launcher_image opts))
     \<and> flag_lookup tab given ''port'' = Some (VStrings (co_port_strs opts))
     \<and> flag_lookup tab given ''ssh-key'' = Some (VStrings (co_ssh_key_files opts))
     \<and> flag_lookup tab given ''password'' = Some (VString (co_password opts))
     \<and> flag_lookup tab given ''user'' = Some (VString (co_user opts))
     \<and> co_cpus_changed opts = (''cpus'' \<in> fst ` set given) \<and> co_memory_changed opts = (''memory'' \<in> fst ` set given)
     \<and> co_ssh_key_explicit opts = (''ssh-key'' \<in> fst ` set given))"
| "reads tab given args (Start v w t) \<longleftrightarrow> args = [v]
     \<and> flag_lookup tab given ''wait'' = Some (VBool w) \<and> flag_lookup tab given ''wait-timeout'' = Some (VInt t)"
| "reads tab given args (Stop v f g t) \<longleftrightarrow> args = [v] \<and> flag_lookup tab given ''force'' = Some (VBool f)
     \<and> flag_lookup tab given ''graceful'' = Some (VBool g) \<and> flag_lookup tab given ''timeout'' = Some (VInt t)"
| "reads tab given args (Delete v f) \<longleftrightarrow> args = [v] \<and> flag_lookup tab given ''force'' = Some (VBool f)"
| "reads tab given args (Status v w) \<longleftrightarrow> args = [v] \<and> flag_lookup tab given ''watch'' = Some (VBool w)"
| "reads tab given args (Console v) \<longleftrightarrow> args = [v]"
| "reads tab given args (ListVMs flt fmt) \<longleftrightarrow> flag_lookup tab given ''state'' = Some (VString flt)
     \<and> flag_lookup tab given ''output'' = Some (VString fmt)"
| "reads tab given args (Ssh as u p i) \<longleftrightarrow> args = as \<and> flag_lookup tab given ''user'' = Some (VString u)
     \<and> flag_lookup tab given ''port'' = Some (VInt p) \<and> flag_lookup tab given ''identity'' = Some (VString i)"
| "reads tab given args (CleanCache f) \<longleftrightarrow> flag_lookup tab given ''force'' = Some (VBool f)"
| "reads tab given args Version \<longleftrightarrow> args = []"

fun invocation_name :: "invocation \<Rightarrow> string" where
  "invocation_name (Create _) = ''create''"
| "invocation_name (Start _ _ _) = ''start''"
| "invocation_name (Stop _ _ _ _) = ''stop''"
| "invocation_name (Delete _ _) = ''delete''"
| "invocation_name (Status _ _) = ''status''"
| "invocation_name (Console _) = ''console''"
| "invocation_name (ListVMs _ _) = ''list''"
| "invocation_name (Ssh _ _ _ _) = ''ssh''"
| "invocation_name (CleanCache _) = ''clean-cache''"
| "invocation_name Version = ''version''"

lemmas command_defs =
  create_command_def start_command_def stop_command_def delete_command_def status_command_def console_command_def
  list_command_def ssh_command_def clean_cache_command_def version_command_def

lemma one_arg: "length args = Suc 0 \<longleftrightarrow> (\<exists>v. args = [v])"
  by (cases args; cases "tl args") auto

lemma create_reads:
  assumes "well_typed create_command given"
  shows "reads create_flags given args (Create (flags_of create_flags given))"
proof -
  note r = typed_reads [OF assms]
  have f: "cd_flags create_command = create_flags" by (simp add: create_command_def)
  have s: "\<exists>y. flag_lookup create_flags given n = Some (VString y) \<and> flag_string create_flags given n = Inr y"
    if "n \<in> {''config'', ''name'', ''memory'', ''disk'', ''disk-size'', ''image'', ''launcher-image'', ''password'', ''user''}" for n
    using that r(1) [of n] unfolding f by (auto simp: create_flags_def)
  have i: "\<exists>y. flag_lookup create_flags given ''cpus'' = Some (VInt y) \<and> flag_int create_flags given ''cpus'' = Inr y"
    using r(2) [of "''cpus''"] unfolding f by (auto simp: create_flags_def)
  have a: "\<exists>y. flag_lookup create_flags given n = Some (VStrings y) \<and> flag_strings create_flags given n = Inr y"
    if "n \<in> {''port'', ''ssh-key''}" for n
    using that r(4) [of n] unfolding f by (auto simp: create_flags_def)
  show ?thesis
    using s [of "''config''"] s [of "''name''"] s [of "''memory''"] s [of "''disk''"] s [of "''disk-size''"]
      s [of "''image''"] s [of "''launcher-image''"] s [of "''password''"] s [of "''user''"] i
      a [of "''port''"] a [of "''ssh-key''"]
    by (auto simp: parse_create_options_def flags_of_def read_flag_def bindR_def map_of_eq_None_iff)
qed

text \<open>Each command reads what it should.\<close>

lemma command_reads:
  assumes "c \<in> set root_commands" and "well_typed c given" and "args_admitted (cd_args c) args"
  shows "\<exists>cmd. cd_run c (cd_flags c) given args = Inr cmd \<and> invocation_name cmd = command_name c
    \<and> reads (cd_flags c) given args cmd"
proof -
  note r = typed_reads [OF assms(2)]
  consider "c = create_command" | "c = start_command" | "c = stop_command" | "c = delete_command" | "c = status_command"
    | "c = console_command" | "c = list_command" | "c = ssh_command" | "c = clean_cache_command" | "c = version_command"
    using assms(1) unfolding root_commands_def by auto
  then show ?thesis
  proof cases
    case 1
    then show ?thesis using create_reads assms(2) by (simp add: create_command_def command_name_def)
  next
    case 2
    then show ?thesis using r(3) [where b = False and n = "''wait''"] r(2) [of "''wait-timeout''"] assms(3)
      by (auto simp: start_command_def command_name_def one_arg first_arg_def or_zero_def)
  next
    case 3
    then show ?thesis using r(3) [where b = False and n = "''force''"] r(3) [where b = False and n = "''graceful''"] r(2) [of "''timeout''"] assms(3)
      by (auto simp: stop_command_def command_name_def one_arg first_arg_def or_zero_def)
  next
    case 4
    then show ?thesis using r(3) [where b = False and n = "''force''"] assms(3)
      by (auto simp: delete_command_def command_name_def one_arg first_arg_def or_zero_def)
  next
    case 5
    then show ?thesis using r(3) [where b = False and n = "''watch''"] assms(3)
      by (auto simp: status_command_def command_name_def one_arg first_arg_def or_zero_def)
  next
    case 6
    then show ?thesis using assms(3)
      by (auto simp: console_command_def command_name_def one_arg first_arg_def)
  next
    case 7
    then show ?thesis using r(1) [of "''state''"] r(1) [of "''output''"]
      by (auto simp: list_command_def command_name_def or_zero_def)
  next
    case 8
    then show ?thesis using r(1) [of "''user''"] r(2) [of "''port''"] r(1) [of "''identity''"]
      by (auto simp: ssh_command_def command_name_def or_zero_def)
  next
    case 9
    then show ?thesis using r(3) [where b = False and n = "''force''"]
      by (auto simp: clean_cache_command_def command_name_def or_zero_def)
  next
    case 10
    then show ?thesis using assms(3) by (auto simp: version_command_def command_name_def)
  qed
qed

section \<open>Properties\<close>

text \<open>
  C26: Every command reads the flags it declares, with the types it declares. For a command line with
  the name or alias of a command, an admitted number of arguments and values of the right
  types, the program runs this command, on the arguments as they are and with the given value
  of each flag or else its default: no handler asks for a flag that does not exist or has
  another type (most drop that error and would go on with a zero value), \<open>create\<close> never
  fails to read its options, and no handler indexes an argument that is not there.
\<close>

theorem command_line_typed:
  assumes "find_command name = Some c" and "well_typed c given" and "args_admitted (cd_args c) args"
  shows "\<exists>cmd. run_line sys ver name given args s = execute sys ver cmd s
    \<and> invocation_name cmd = command_name c \<and> reads (cd_flags c) given args cmd"
proof -
  have "c \<in> set root_commands" using assms(1) unfolding find_command_def by (auto dest: find_SomeD)
  from command_reads [OF this assms(2,3)] show ?thesis using assms(1,3) by (auto simp: run_line_def)
qed

theorem command_line_typed_witness:
  "\<exists>cmd. run_line sample_sys ''dev'' ''rm'' [(''force'', VBool True)] [''vm1''] (sample_st [])
       = execute sample_sys ''dev'' cmd (sample_st [])
     \<and> reads (cd_flags delete_command) [(''force'', VBool True)] [''vm1''] cmd"
proof -
  have "find_command ''rm'' = Some delete_command"
    by (simp add: find_command_def root_commands_def command_defs command_name_def)
  moreover have "well_typed delete_command [(''force'', VBool True)]" "args_admitted (cd_args delete_command) [''vm1'']"
    by (simp_all add: well_typed_def delete_command_def)
  ultimately show ?thesis using command_line_typed by blast
qed

end
