(* ===== verification/Ledger.thy ===== *)
theory Ledger
  imports CommandTables CmdLine
begin

text \<open>
  A second concrete world, for the witnesses about the VMs: it consists of the containers. The
  identifier of a container is its name after twelve zeros; a container without a name is given
  one of letters \<open>a\<close> that is not in use. Everything else succeeds at once, every container
  and every domain is running and the user answers \<open>y\<close>.
\<close>

definition zeros :: string where
  "zeros = replicate 12 CHR ''0''"

definition made_up :: "container list \<Rightarrow> string" where
  "made_up w = replicate (Suc (sum_list (map (length \<circ> ct_name) w))) CHR ''a''"

definition named :: "container list \<Rightarrow> string \<Rightarrow> container option" where
  "named w n = find (\<lambda>c. ct_name c = n) w"

definition ledger_tbl :: "container list \<Rightarrow> container_table" where
  "ledger_tbl w i = (if prefix zeros i then named w (drop 12 i) else None)"

definition ledger_create :: "spec_generator \<Rightarrow> (container list, string) op" where
  "ledger_create sp w =
     (let n = (if sg_name sp = [] then made_up w else sg_name sp)
      in if named w n \<noteq> None then (Inl (ExtError ''name in use''), 1, w)
         else (Inr (zeros @ n), 1, \<lparr>ct_name = n, ct_labels = sg_labels sp, ct_ports = sg_port_mappings sp\<rparr> # w))"

definition ledger_remove :: "string \<Rightarrow> (container list, unit) op" where
  "ledger_remove n w =
     (if named w n \<noteq> None then (Inr (), 1, filter (\<lambda>c. ct_name c \<noteq> n) w)
      else if prefix zeros n \<and> named w (drop 12 n) \<noteq> None then (Inr (), 1, filter (\<lambda>c. ct_name c \<noteq> drop 12 n) w)
      else (Inl (ExtError ''no such container''), 1, w))"

definition passes :: "(string \<times> string) list \<Rightarrow> container \<Rightarrow> bool" where
  "passes fs c = list_all (\<lambda>(k, x).
     if k = ''name'' then sublist x (ct_name c) else map_of (ct_labels c) ''app'' = Some ''podvirt'') fs"

definition ledger_entry :: "container \<Rightarrow> list_container" where
  "ledger_entry c = \<lparr>lc_id = zeros @ ct_name c, lc_names = [ct_name c], lc_state = ''running'',
     lc_image = ''launcher'', lc_labels = ct_labels c, lc_ports = ct_ports c\<rparr>"

definition ledger_list :: "(string \<times> string) list \<Rightarrow> (container list, list_container list) op" where
  "ledger_list fs w = (Inr (map ledger_entry
     (filter (passes fs) (map (\<lambda>n. the (named w n)) (remdups (map ct_name w))))), 1, w)"

definition ledger_podman :: "string \<Rightarrow> string list \<Rightarrow> (container list, string) op" where
  "ledger_podman p args w =
     (if p = ''podman'' then
        (case args of
           [c, x] \<Rightarrow> if c = ''create'' then ledger_create empty_spec_generator w
             else if c = ''rm'' then (case ledger_remove x w of (r, d, w') \<Rightarrow> (case r of Inl e \<Rightarrow> Inl e | Inr _ \<Rightarrow> Inr x, d, w'))
             else (Inr [], 1, w)
         | _ \<Rightarrow> (Inr [], 1, w))
      else (Inr [], 1, w))"

definition ledger_sys :: "container list sys" where
  "ledger_sys =
     \<lparr>sys_env = (\<lambda>k. if k = ''HOME'' then Some ''/home/u'' else None),
      uni_lower = (\<lambda>s. s), uni_upper = (\<lambda>s. s), map_order = (\<lambda>xs. xs), qemu_wrapper = ''wrapper'',
      yaml_unmarshal_vm = (\<lambda>_. Inl (ExtError ''yaml'')),
      yaml_marshal_cc = (\<lambda>_. Inr ''users: []''),
      json_unmarshal_info = (\<lambda>_. Inr \<lparr>img_format = ''qcow2'', img_virtual_size = 1073741824\<rparr>),
      os_stat = (\<lambda>_ _. Inr ()), os_open = (\<lambda>_ _. Inr ()),
      io_read_full = (\<lambda>_ _ _. Inr [CHR ''Q'', CHR ''F'', CHR ''I'', CHR 0xFB]),
      os_read_file = (\<lambda>_ _. Inl NotExist), os_read_dir = (\<lambda>_ _. Inr []),
      look_path = (\<lambda>_ n. Inr (''/usr/bin/'' @ n)),
      os_mkdir_all = (\<lambda>_. always ()), os_write_file = (\<lambda>_ _. always ()), os_create = (\<lambda>_. always ()),
      io_copy = (\<lambda>_ _. always ()), os_remove = (\<lambda>_. always ()), os_remove_all = (\<lambda>_. always ()),
      os_rename = (\<lambda>_ _. always ()),
      exec_output = ledger_podman,
      stdin_line = always (''y\<newline>'', None), sleep_more = (\<lambda>_. always ()),
      pod_connect = (\<lambda>_. always ()),
      ctr_exists = (\<lambda>n w. (Inr (n \<in> dom (ledger_tbl w) \<or> n \<in> ct_name ` set w), 1, w)),
      ctr_create = ledger_create, ctr_start = (\<lambda>_. always ()),
      ctr_stop = (\<lambda>_ _. always ()), ctr_remove = (\<lambda>n _. ledger_remove n),
      ctr_inspect_image = (\<lambda>_. always ''launcher''),
      ctr_list = ledger_list, ctr_wait = (\<lambda>_. always 0),
      ctr_logs = (\<lambda>_. always ([OutLine ''{}''], None)),
      ctr_copy = (\<lambda>_ _. always \<lparr>tar_entries = [(''qemu-kvm'', Inr ''elf'')], tar_end = None\<rparr>),
      image_exists = (\<lambda>_. always True), image_pull = (\<lambda>_. always ()),
      exec_create = (\<lambda>_ _. always ''session''),
      exec_attach = (\<lambda>_. always (''running'', [], None))\<rparr>"

lemma ledger_fields:
  "sys_env ledger_sys = (\<lambda>k. if k = ''HOME'' then Some ''/home/u'' else None)"
  "uni_lower ledger_sys = (\<lambda>s. s)"
  "uni_upper ledger_sys = (\<lambda>s. s)"
  "map_order ledger_sys = (\<lambda>xs. xs)"
  "qemu_wrapper ledger_sys = ''wrapper''"
  "yaml_unmarshal_vm ledger_sys = (\<lambda>_. Inl (ExtError ''yaml''))"
  "yaml_marshal_cc ledger_sys = (\<lambda>_. Inr ''users: []'')"
  "json_unmarshal_info ledger_sys = (\<lambda>_. Inr \<lparr>img_format = ''qcow2'', img_virtual_size = 1073741824\<rparr>)"
  "os_stat ledger_sys = (\<lambda>_ _. Inr ())"
  "os_open ledger_sys = (\<lambda>_ _. Inr ())"
  "io_read_full ledger_sys = (\<lambda>_ _ _. Inr [CHR ''Q'', CHR ''F'', CHR ''I'', CHR 0xFB])"
  "os_read_file ledger_sys = (\<lambda>_ _. Inl NotExist)"
  "os_read_dir ledger_sys = (\<lambda>_ _. Inr [])"
  "look_path ledger_sys = (\<lambda>_ n. Inr (''/usr/bin/'' @ n))"
  "os_mkdir_all ledger_sys = (\<lambda>_. always ())"
  "os_write_file ledger_sys = (\<lambda>_ _. always ())"
  "os_create ledger_sys = (\<lambda>_. always ())"
  "io_copy ledger_sys = (\<lambda>_ _. always ())"
  "os_remove ledger_sys = (\<lambda>_. always ())"
  "os_remove_all ledger_sys = (\<lambda>_. always ())"
  "os_rename ledger_sys = (\<lambda>_ _. always ())"
  "exec_output ledger_sys = ledger_podman"
  "stdin_line ledger_sys = always (''y\<newline>'', None)"
  "sleep_more ledger_sys = (\<lambda>_. always ())"
  "pod_connect ledger_sys = (\<lambda>_. always ())"
  "ctr_exists ledger_sys = (\<lambda>n w. (Inr (n \<in> dom (ledger_tbl w) \<or> n \<in> ct_name ` set w), 1, w))"
  "ctr_create ledger_sys = ledger_create"
  "ctr_start ledger_sys = (\<lambda>_. always ())"
  "ctr_stop ledger_sys = (\<lambda>_ _. always ())"
  "ctr_remove ledger_sys = (\<lambda>n _. ledger_remove n)"
  "ctr_inspect_image ledger_sys = (\<lambda>_. always ''launcher'')"
  "ctr_list ledger_sys = ledger_list"
  "ctr_wait ledger_sys = (\<lambda>_. always 0)"
  "ctr_logs ledger_sys = (\<lambda>_. always ([OutLine ''{}''], None))"
  "ctr_copy ledger_sys = (\<lambda>_ _. always \<lparr>tar_entries = [(''qemu-kvm'', Inr ''elf'')], tar_end = None\<rparr>)"
  "image_exists ledger_sys = (\<lambda>_. always True)"
  "image_pull ledger_sys = (\<lambda>_. always ())"
  "exec_create ledger_sys = (\<lambda>_ _. always ''session'')"
  "exec_attach ledger_sys = (\<lambda>_. always (''running'', [], None))"
  by (simp_all add: ledger_sys_def)

definition ledger_st :: "container list \<Rightarrow> container list st" where
  "ledger_st w = \<lparr>ext = w, clk = 0, log = []\<rparr>"

lemmas ledger_run =
  ledger_fields ledger_st_def always_def run_bindE run_wrapE run_attempt run_deferE call_def query_def
  emit_def say_def warn_def now_def getenv_def Let_def

section \<open>It behaves as documented\<close>

lemma named_Some: "named w n = Some c \<Longrightarrow> c \<in> set w \<and> ct_name c = n"
  by (auto simp: named_def find_Some_iff)

lemma named_None: "named w n = None \<longleftrightarrow> n \<notin> ct_name ` set w"
  by (auto simp: named_def find_None_iff)

lemma named_simps [simp]:
  "named (c # w) n = (if ct_name c = n then Some c else named w n)"
  "named (filter (\<lambda>c. ct_name c \<noteq> m) w) n = (if n = m then None else named w n)"
proof -
  show "named (filter (\<lambda>c. ct_name c \<noteq> m) w) n = (if n = m then None else named w n)"
    by (induction w) (auto simp: named_def)
qed (simp add: named_def)

lemma ledger_tbl_zeros [simp]: "ledger_tbl w (zeros @ n) = named w n"
  by (simp add: ledger_tbl_def zeros_def)

lemma zeros_prefix: "prefix zeros i \<Longrightarrow> i = zeros @ drop 12 i"
  by (auto simp: zeros_def prefix_def)

lemma ledger_tbl_Some: "ledger_tbl w i = Some c \<longleftrightarrow> i = zeros @ ct_name c \<and> named w (ct_name c) = Some c"
proof
  assume l: "ledger_tbl w i = Some c"
  then have "prefix zeros i" by (simp add: ledger_tbl_def split: if_splits)
  then have i: "i = zeros @ drop 12 i" by (rule zeros_prefix)
  then have n: "named w (drop 12 i) = Some c" using l ledger_tbl_zeros [of w "drop 12 i"] by simp
  then have "ct_name c = drop 12 i" using named_Some by blast
  then show "i = zeros @ ct_name c \<and> named w (ct_name c) = Some c" using i n by simp
qed simp

lemma ledger_names: "ct_name ` ran (ledger_tbl w) = ct_name ` set w"
proof -
  have "n \<in> ct_name ` ran (ledger_tbl w)" if "n \<in> ct_name ` set w" for n
  proof -
    obtain c where "named w n = Some c" using \<open>n \<in> _\<close> named_None [of w n] by (cases "named w n") auto
    then have "c \<in> ran (ledger_tbl w)" "ct_name c = n"
      using ranI [of "ledger_tbl w" "zeros @ n" c] named_Some by (simp_all add: ledger_tbl_def zeros_def)
    then show ?thesis by blast
  qed
  moreover have "ct_name ` ran (ledger_tbl w) \<subseteq> ct_name ` set w"
    by (auto simp: ran_def ledger_tbl_Some dest: named_Some)
  ultimately show ?thesis by blast
qed

lemma zeros_not_reserved [simp]: "\<not> reserved (zeros @ n)"
  by (simp add: reserved_def zeros_def container_prefix_def numeral_eq_Suc)

lemma ledger_well_formed: "well_formed (ledger_tbl w)"
  by (auto simp: well_formed_def ledger_tbl_Some) (simp add: zeros_def)

lemma made_up_fresh: "named w (made_up w) = None" "\<not> reserved (made_up w)"
proof -
  have "c \<in> set w \<Longrightarrow> length (ct_name c) \<le> sum_list (map (length \<circ> ct_name) w)" for c
    by (rule member_le_sum_list) simp_all
  then have "made_up w \<noteq> ct_name c" if "c \<in> set w" for c
    using that by (metis length_replicate made_up_def Suc_n_not_le_n)
  then show "named w (made_up w) = None" by (auto simp: named_None)
  show "\<not> reserved (made_up w)" by (simp add: reserved_def made_up_def container_prefix_def)
qed

lemma ledger_cons: "ledger_tbl (c # w) = (ledger_tbl w)(zeros @ ct_name c \<mapsto> c)"
proof
  fix i show "ledger_tbl (c # w) i = ((ledger_tbl w)(zeros @ ct_name c \<mapsto> c)) i"
    by (rule option.expand) (auto simp: ledger_tbl_def zeros_def prefix_def)
qed

lemma ledger_filter: "ledger_tbl (filter (\<lambda>c. ct_name c \<noteq> n) w) = (ledger_tbl w)(zeros @ n := None)"
proof
  fix i show "ledger_tbl (filter (\<lambda>c. ct_name c \<noteq> n) w) i = ((ledger_tbl w)(zeros @ n := None)) i"
    by (rule option.expand) (auto simp: ledger_tbl_def zeros_def prefix_def)
qed

lemma ledger_adds:
  assumes "named w n = None" and "if sg_name sp = [] then \<not> reserved n else n = sg_name sp"
  shows "adds_container sp (ledger_tbl w) (zeros @ n)
    (ledger_tbl (\<lparr>ct_name = n, ct_labels = sg_labels sp, ct_ports = sg_port_mappings sp\<rparr> # w))"
  unfolding adds_container_def ledger_cons
  using assms iffD1 [OF named_None assms(1)] by (auto simp: ledger_names split: if_splits intro!: exI)

lemma ledger_creating: "creating ledger_tbl sp (\<lambda>x. x) (ledger_create sp)"
  using ledger_adds made_up_fresh by (simp add: creating_def ledger_create_def Let_def)

lemma ledger_removing: "removing ledger_tbl n (ledger_remove n)"
  unfolding removing_def
proof
  fix w
  have drops: "drops_container n (ledger_tbl w) (ledger_tbl (filter (\<lambda>c. ct_name c \<noteq> m) w))"
    if "named w m \<noteq> None" "n = m \<or> n = zeros @ m" for m
  proof -
    obtain c where "named w m = Some c" using \<open>named w m \<noteq> None\<close> by blast
    then show ?thesis
      unfolding drops_container_def ledger_filter using that(2) named_Some [of w m c]
      by (intro exI [of _ "zeros @ m"] exI [of _ c]) auto
  qed
  show "case ledger_remove n w of
      (Inl _, _, w') \<Rightarrow> ledger_tbl w' = ledger_tbl w
    | (Inr _, _, w') \<Rightarrow> drops_container n (ledger_tbl w) (ledger_tbl w')"
    using drops zeros_prefix [of n] by (simp add: ledger_remove_def)
qed

lemma trim_made_up: "trim_space (zeros @ made_up w) = zeros @ made_up w"
  by (rule trim_space_no_space) (simp_all add: zeros_def made_up_def space_byte_def space_runes_def numeral_eq_Suc)

lemma ledger_create_helper:
  "sg_name sp = [] \<Longrightarrow> ledger_create sp w = (Inr (zeros @ made_up w), 1,
     \<lparr>ct_name = made_up w, ct_labels = sg_labels sp, ct_ports = sg_port_mappings sp\<rparr> # w)"
  using made_up_fresh(1) [of w] by (simp add: ledger_create_def Let_def)

lemma ledger_podman_create:
  "creating ledger_tbl empty_spec_generator trim_space (ledger_podman ''podman'' [''create'', img])"
proof -
  have "sg_name empty_spec_generator = []" by (simp add: empty_spec_generator_def)
  then show ?thesis
    using ledger_adds [of _ "made_up _" empty_spec_generator] made_up_fresh
    by (simp add: creating_def ledger_podman_def ledger_create_helper trim_made_up)
qed

lemma ledger_podman_rm: "removing ledger_tbl n (ledger_podman ''podman'' [''rm'', n])"
  unfolding removing_def
proof
  fix w
  obtain r d w' where "ledger_remove n w = (r, d, w')" by (metis prod_cases3)
  then show "case ledger_podman ''podman'' [''rm'', n] w of
      (Inl _, _, w') \<Rightarrow> ledger_tbl w' = ledger_tbl w
    | (Inr _, _, w') \<Rightarrow> drops_container n (ledger_tbl w) (ledger_tbl w')"
    using ledger_removing [of n, unfolded removing_def, THEN spec, of w]
    by (cases r) (simp_all add: ledger_podman_def)
qed

lemma ledger_podman_harmless: "harmless p as \<Longrightarrow> keeps_op ledger_tbl (ledger_podman p as)"
  by (auto simp: harmless_def keeps_op_def ledger_podman_def split: list.splits)

lemma ledger_leaves: "leaves ledger_tbl ledger_sys"
  by (simp add: leaves_def ledger_fields ledger_podman_harmless) (simp add: keeps_op_def always_def ledger_list_def)

lemma ledger_container_tables: "container_tables ledger_sys ledger_tbl"
  unfolding container_tables_def
  using ledger_well_formed ledger_leaves ledger_creating ledger_podman_create ledger_removing ledger_podman_rm
  by (simp add: ledger_fields answers_def ledger_names)

lemma ledger_lists:
  assumes "\<And>c. passes fs c = P c"
  shows "ctr_list ledger_sys fs w = (Inr ls, d, w') \<Longrightarrow> lists P (ledger_tbl w) ls"
proof -
  assume l: "ctr_list ledger_sys fs w = (Inr ls, d, w')"
  have "passes fs = P" using assms by blast
  with l have ls: "ls = map ledger_entry (filter P (map (\<lambda>n. the (named w n)) (remdups (map ct_name w))))"
    by (auto simp: ledger_fields ledger_list_def)
  have n: "named w n = Some (the (named w n)) \<and> ct_name (the (named w n)) = n" if "n \<in> ct_name ` set w" for n
    using that named_None [of w n] named_Some [of w n] by (cases "named w n") auto
  then have "map (ct_name \<circ> (\<lambda>n. the (named w n))) (remdups (map ct_name w)) = remdups (map ct_name w)"
    by (intro map_idI) simp
  then have "distinct (map ct_name (map (\<lambda>n. the (named w n)) (remdups (map ct_name w))))" by simp
  then have "distinct (map ct_name (filter P (map (\<lambda>n. the (named w n)) (remdups (map ct_name w)))))"
    by (rule distinct_map_filter)
  moreover have "map lc_id ls = map ((@) zeros) (map ct_name (filter P (map (\<lambda>n. the (named w n)) (remdups (map ct_name w)))))"
    unfolding ls by (simp add: ledger_entry_def)
  ultimately have d: "distinct (map lc_id ls)" by (simp add: distinct_map inj_on_def)
  have "c \<in> (\<lambda>n. the (named w n)) ` ct_name ` set w \<longleftrightarrow> named w (ct_name c) = Some c" for c
  proof
    assume "c \<in> (\<lambda>n. the (named w n)) ` ct_name ` set w"
    then obtain m where "m \<in> ct_name ` set w" "c = the (named w m)" by blast
    then show "named w (ct_name c) = Some c" using n [of m] by simp
  next
    assume c: "named w (ct_name c) = Some c"
    then have "ct_name c \<in> ct_name ` set w" using named_None [of w "ct_name c"] by (metis option.distinct(1))
    then show "c \<in> (\<lambda>n. the (named w n)) ` ct_name ` set w" using c by (metis image_eqI option.sel)
  qed
  then have "set ls = ledger_entry ` {c. named w (ct_name c) = Some c \<and> P c}" unfolding ls by auto
  with d show ?thesis
    unfolding lists_def by (auto simp: ledger_entry_def ledger_tbl_Some image_image)
qed

lemma ledger_listings: "listings ledger_sys ledger_tbl"
  unfolding listings_def by (auto simp: passes_def intro!: ledger_lists)

lemma ledger_vms: "vms_of (view_at ledger_tbl w) = {v. container_name v \<in> ct_name ` set w}"
  by (simp add: view_at_def vms_of_def [of "ledger_tbl w"] ledger_names)

section \<open>Creating a VM in it\<close>

text \<open>The flags \<open>--name vm1 --disk /images/a.img --port 2222:22\<close>; all others have their defaults.\<close>

definition ledger_flags :: flags where
  "ledger_flags = flags_of create_flags
     [(''name'', VString ''vm1''), (''disk'', VString ''/images/a.img''), (''port'', VStrings [''2222:22''])]"

definition ledger_forward :: port_forward where
  "ledger_forward = \<lparr>pf_host_port = 2222, pf_vm_port = 22, pf_protocol = ''tcp''\<rparr>"

lemma ledger_port: "parse_port_forward u ''2222:22'' = Inr ledger_forward"
proof -
  have "digit_char 2 = CHR ''2''" by code_simp
  then have "format_int 2222 = ''2222''" "format_int 22 = ''22''"
    by (simp_all add: format_int_def format_uint.simps [of 2222] format_uint.simps [of 222]
        format_uint.simps [of 22] format_uint.simps [of 2])
  then have "atoi ''2222'' = Some 2222" "atoi ''22'' = Some 22"
    using atoi_format_int [of 2222] atoi_format_int [of 22] by simp_all
  then show ?thesis
    by (simp add: parse_port_forward_def ledger_forward_def cut_last_def cut_def)
qed

lemma ledger_options:
  "\<exists>opts. parse_create_options ledger_flags = Inr opts \<and> co_name opts = ''vm1'' \<and> co_disk opts = ''/images/a.img''
     \<and> co_config_file opts = [] \<and> co_memory opts = ''1Gi'' \<and> co_cpus opts = 1 \<and> co_disk_size opts = []
     \<and> co_image opts = [] \<and> co_port_strs opts = [''2222:22''] \<and> co_ssh_key_files opts = [] \<and> co_password opts = []"
  by (simp add: parse_create_options_def ledger_flags_def flags_of_def create_flags_def flag_string_def flag_int_def
      flag_strings_def flag_lookup_def read_flag_def bindR_def)

lemma ledger_assemble:
  assumes "parse_create_options ledger_flags = Inr opts"
  shows "\<exists>vm. assemble_vm ledger_sys opts s = (Inr vm, s)
     \<and> vm_name vm = ''vm1'' \<and> vm_cloud_init vm = None
     \<and> list_all (\<lambda>d. disk_size d = [] \<and> disk_image d \<noteq> [] \<and> disk_container_image d = []) (vm_disks vm)
     \<and> concat (map net_port_forwards (vm_networks vm)) = [ledger_forward]
     \<and> valid_vm (\<lambda>_. False) vm"
proof -
  obtain opts' where o: "parse_create_options ledger_flags = Inr opts'" "co_name opts' = ''vm1''"
    "co_disk opts' = ''/images/a.img''" "co_config_file opts' = []" "co_memory opts' = ''1Gi''" "co_cpus opts' = 1"
    "co_disk_size opts' = []" "co_image opts' = []" "co_port_strs opts' = [''2222:22'']" "co_ssh_key_files opts' = []"
    "co_password opts' = []"
    using ledger_options by blast
  then have [simp]: "opts' = opts" using assms by simp
  show ?thesis
    using o(2-) sample_label valid_default_memory
    by (simp add: assemble_vm_def load_create_vm_def load_from_flags_def set_flag_disks flag_disks_def
        apply_create_ports_def ledger_port apply_port_forwards_def add_forwards_def
        apply_cloud_init_flags_def resolve_ssh_keys_def merge_cloud_init_def
        apply_create_disk_size_def extract_container_disks_def extract_disk_def user_home_dir_def apply_defaults_def
        default_disk_bus_def valid_vm_def valid_disk_def valid_network_def
        valid_port_forward_def word_le_def ledger_forward_def ledger_run)
qed

lemma ledger_prepare:
  assumes "list_all (\<lambda>d. disk_size d = []) (vm_disks vm)"
  shows "\<exists>s'. prepare_sized_disks ledger_sys vm li s = (Inr vm, s') \<and> ext s' = ext s"
proof -
  have "forE ds (prepare_sized_disk ledger_sys li bd) s = (Inr ds, s)" if "list_all (\<lambda>d. disk_size d = []) ds"
    for ds li bd and s :: "container list st"
    using that by (induction ds) (simp_all add: prepare_sized_disk_def run_bindE)
  then show ?thesis using assms by (simp add: prepare_sized_disks_def user_cache_dir_def ledger_run)
qed

text \<open>The helper container is gone afterwards.\<close>

lemma ledger_remove_helper [simp]:
  "ledger_remove (zeros @ made_up w) (\<lparr>ct_name = made_up w, ct_labels = ls, ct_ports = ps\<rparr> # w) = (Inr (), 1, w)"
proof -
  have le: "c \<in> set w \<Longrightarrow> length (ct_name c) < length (made_up w)" for c
    using member_le_sum_list [of "length (ct_name c)" "map (length \<circ> ct_name) w"]
    by (simp add: made_up_def less_Suc_eq_le)
  then have "ct_name c \<noteq> made_up w" "ct_name c \<noteq> zeros @ made_up w" if "c \<in> set w" for c
    using that [THEN le] by (auto dest: arg_cong [where f = length])
  then have "named w (zeros @ made_up w) = None" "filter (\<lambda>c. ct_name c \<noteq> made_up w) w = w"
    by (fastforce simp: named_None filter_id_conv)+
  moreover have "made_up w \<noteq> zeros @ made_up w" "drop 12 (zeros @ made_up w) = made_up w"
    by (simp_all add: zeros_def)
  ultimately show ?thesis by (simp add: ledger_remove_def)
qed

lemma ledger_qemu: "smooth (ensure_qemu_binary ledger_sys li d)"
  by (simp add: smooth_def ensure_qemu_binary_def clear_caps_cache_def user_cache_dir_def write_qemu_binary_def
      base_qemu_kvm ledger_run ledger_create_helper)

lemma ledger_support: "smooth (restore_runtime_support ledger_sys li b)"
proof -
  have "smooth (write_qemu_support ledger_sys)" "smooth (libvirt_logs_dir ledger_sys)"
    "smooth (attempt (libvirt_logs_dir ledger_sys))"
    by (simp_all add: smooth_def write_qemu_support_def libvirt_logs_dir_def user_cache_dir_def ledger_run)
  then show ?thesis
    unfolding restore_runtime_support_def
    by (auto intro!: smooth_bindE smooth_ok ledger_qemu split: sum.splits prod.splits)
qed

text \<open>The container that is created for a VM comes before those that were there.\<close>

lemma ledger_create_vm:
  assumes "v \<notin> vms_of (view_at ledger_tbl (ext s))"
  obtains cid s' where "create_vm ledger_sys v img result s = (Inr cid, s')" and "12 \<le> length cid"
    and "ext s' = \<lparr>ct_name = container_name v, ct_labels = sg_labels (vm_container_spec ledger_sys v img result ([], [], [])),
       ct_ports = build_port_mappings ledger_sys result\<rparr> # ext s"
proof -
  obtain r s1 where r: "restore_runtime_support ledger_sys img (getenv ledger_sys ''PODVIRT_DEBUG'' = ''1'') s = (r, s1)"
    by fastforce
  then obtain a b c where d: "r = Inr (a, b, c)" "ext s1 = ext s"
    using smooth_run [OF ledger_support r] by (cases r) auto
  then have "named (ext s1) (container_name v) = None" using assms by (simp add: ledger_vms named_None)
  then show thesis
    using that r d
    by (simp add: create_vm_def run_bindE run_wrapE call_def ledger_fields ledger_create_def Let_def
        vm_container_spec_def zeros_def)
qed

text \<open>The command succeeds when there is no \<open>vm1\<close>, and is refused when there is one.\<close>

lemma ledger_name_not_dom [simp]: "container_name v \<notin> dom (ledger_tbl w)"
  using ledger_well_formed [of w] reserved_container_name [of v] unfolding well_formed_def by blast

lemma ledger_client: "\<exists>s'. new_podman_client ledger_sys s = (Inr (), s') \<and> ext s' = ext s"
  by (simp add: guard_run ledger_run)

lemma ledger_exists:
  "\<exists>s'. exists_vm ledger_sys v s = (Inr (v \<in> vms_of (view_at ledger_tbl (ext s))), s') \<and> ext s' = ext s"
  by (simp add: guard_run ledger_run ledger_vms)

lemma ledger_image: "\<exists>s'. ensure_image ledger_sys img s = (Inr (), s') \<and> ext s' = ext s"
  by (simp add: ensure_image_def image_exists_op_def ledger_run)

definition ledger_vm :: container where
  "ledger_vm = \<lparr>ct_name = container_name ''vm1'',
     ct_labels = [(''app'', ''podvirt''), (''podvirt/vm'', ''vm1''), (''podvirt/ssh-user'', []), (''podvirt/ssh-keys'', ''false'')],
     ct_ports = [\<lparr>pm_host_port = 2222, pm_container_port = 22, pm_protocol = ''tcp''\<rparr>]\<rparr>"

lemma ledger_vm_eq:
  assumes "to_vmi ledger_sys w vm = Inr result" and "concat (map net_port_forwards (vm_networks vm)) = [ledger_forward]"
    and "vm_cloud_init vm = None"
  shows "\<lparr>ct_name = container_name ''vm1'', ct_labels = sg_labels (vm_container_spec ledger_sys ''vm1'' img result ([], [], [])),
     ct_ports = build_port_mappings ledger_sys result\<rparr> = ledger_vm"
proof -
  obtain vmi where "build_vmi ledger_sys w vm = Inr (vmi, res_host_mounts result, res_port_forwards result)"
    using assms(1) by (rule to_vmi_Inr)
  from build_vmi_rest [OF this] have "res_port_forwards result = [ledger_forward]" using assms(2) by simp
  moreover have "res_ssh_user result = [] \<and> \<not> res_ssh_keys_configured result"
    using assms(1,3) by (auto simp: to_vmi_def split: sum.splits prod.splits)
  ultimately show ?thesis
    by (simp add: build_port_mappings_def port_mapping_of_def ledger_vm_def ledger_forward_def vm_container_spec_def
        format_bool_def to_lower_def ascii_lower_def is_ascii_def)
qed

lemma ledger_run_create:
  "case run_create ledger_sys ledger_flags s of (r, s') \<Rightarrow>
     if ''vm1'' \<in> vms_of (view_at ledger_tbl (ext s)) then isl r
     else \<not> isl r \<and> ext s' = ledger_vm # ext s"
proof -
  obtain opts where o: "parse_create_options ledger_flags = Inr opts" using ledger_options by blast
  from ledger_assemble [OF o] obtain vm where a: "assemble_vm ledger_sys opts s = (Inr vm, s)"
    and n: "vm_name vm = ''vm1''" and ci: "vm_cloud_init vm = None"
    and d: "list_all (\<lambda>d. disk_size d = [] \<and> disk_image d \<noteq> [] \<and> disk_container_image d = []) (vm_disks vm)"
    and pf: "concat (map net_port_forwards (vm_networks vm)) = [ledger_forward]"
    and v: "valid_vm (\<lambda>_. False) vm" by blast
  have "stat_missing ledger_sys w' = (\<lambda>_. False)" for w' by (simp add: stat_missing_def fun_eq_iff ledger_fields)
  then have val: "validate_op ledger_sys vm s = (Inr (), s)" for s
    using v by (simp add: validate_op_def query_def iffD2 [OF validate_None])
  obtain s2 where s2: "new_podman_client ledger_sys s = (Inr (), s2)" "ext s2 = ext s"
    using ledger_client [of s] by auto
  obtain s3 where s3: "exists_vm ledger_sys ''vm1'' s2 = (Inr (''vm1'' \<in> vms_of (view_at ledger_tbl (ext s))), s3)" "ext s3 = ext s"
    using ledger_exists [of "''vm1''" s2] s2(2) by auto
  show ?thesis
  proof (cases "''vm1'' \<in> vms_of (view_at ledger_tbl (ext s))")
    case True
    then show ?thesis using s3(1) by (simp add: run_create_def run_bindE o a val s2 n)
  next
    case False
    let ?s3 = "snd (say ''Pulling virt-launcher image (if needed)...\<newline>'' [] s3)"
    obtain s4 where s4: "ensure_image ledger_sys (co_launcher_image opts) ?s3 = (Inr (), s4)" "ext s4 = ext s"
      using ledger_image [of "co_launcher_image opts" ?s3] s3(2) by (auto simp: say_def emit_def)
    obtain s5 where s5: "prepare_sized_disks ledger_sys vm (co_launcher_image opts) s4 = (Inr vm, s5)" "ext s5 = ext s"
      using ledger_prepare [of vm "co_launcher_image opts" s4] d s4(2) by (auto simp: list_all_iff)
    have "list_all (\<lambda>d. disk_image d \<noteq> []) (vm_disks vm)" using d by (simp add: list_all_iff)
    then obtain result where r: "to_vmi ledger_sys (ext s) vm = Inr result"
      using ci to_vmi_Inr_iff [of ledger_sys "ext s" vm] by auto
    let ?s6 = "snd (say ''Creating VM %q...\<newline>'' [FStr ''vm1''] s5)"
    have s6: "ext ?s6 = ext s" using s5(2) by (simp add: say_def emit_def)
    obtain cid s7 where s7: "create_vm ledger_sys ''vm1'' (co_launcher_image opts) result ?s6 = (Inr cid, s7)"
      "12 \<le> length cid" "ext s7 = ledger_vm # ext s"
      using ledger_create_vm [of "''vm1''" ?s6 "co_launcher_image opts" result] False
      unfolding s6 ledger_vm_eq [OF r pf ci] by blast
    obtain r8 s8 where s8: "print_create_summary vm result cid s7 = (r8, s8)" by fastforce
    then have "\<not> isl r8 \<and> ext s8 = ext s7" by (rule smooth_run [OF smooth_summary [OF s7(2)]])
    then show ?thesis
      using s3(1) s4(1) s5 s7 s8 False
      by (simp add: run_create_def run_bindE run_wrapE query_def say_def emit_def o a val s2 n r)
  qed
qed

end
