(* ===== verification/Lifecycle.thy ===== *)
theory Lifecycle
  imports Ledger
begin

text \<open>
  The program as a whole: which VMs exist. Every run of it is a step of an abstract machine on
  the table of VM containers, in which only \<open>create\<close> adds one and only \<open>delete\<close> takes one away.
\<close>

section \<open>The abstract machine\<close>

text \<open>The names that a \<open>create\<close> with these flags may give to its VM.\<close>

definition may_name :: "flags \<Rightarrow> string \<Rightarrow> bool" where
  "may_name fl v = (case parse_create_options fl of
     Inl _ \<Rightarrow> False | Inr opts \<Rightarrow> dns_label v \<and> (co_name opts = [] \<or> v = co_name opts))"

text \<open>The labels by which podvirt finds its containers again.\<close>

definition vm_labels :: "string \<Rightarrow> spec_generator \<Rightarrow> bool" where
  "vm_labels v sp \<longleftrightarrow> map_of (sg_labels sp) ''app'' = Some ''podvirt''
     \<and> map_of (sg_labels sp) ''podvirt/vm'' = Some v"

text \<open>
  \<open>vm_step cmd rc A B\<close>: the command may end with this exit code when the VM containers before
  are \<open>A\<close>, and leaves \<open>B\<close>.
\<close>

fun vm_step :: "invocation \<Rightarrow> nat \<Rightarrow> container_table \<Rightarrow> container_table \<Rightarrow> bool" where
  "vm_step (Create fl) rc A B =
     (if rc = 0 then (\<exists>v. may_name fl v \<and> vm_added (vm_labels v) v A B) else B = A)"
| "vm_step (Delete v f) rc A B =
     (if rc = 0 then v \<in> vms_of A \<and> (vm_removed v A B \<or> \<not> f \<and> B = A) else B = A)"
| "vm_step (Start v w t) rc A B = (B = A \<and> (rc = 0 \<longrightarrow> v \<in> vms_of A))"
| "vm_step (Stop v f g t) rc A B = (B = A \<and> (rc = 0 \<longrightarrow> v \<in> vms_of A))"
| "vm_step (Status v w) rc A B = (B = A \<and> (rc = 0 \<longrightarrow> v \<in> vms_of A \<and> \<not> w))"
| "vm_step (Console v) rc A B = (B = A \<and> (rc = 0 \<longrightarrow> v \<in> vms_of A))"
| "vm_step (ListVMs flt fmt) rc A B = (B = A)"
| "vm_step (Ssh args u p i) rc A B = (B = A \<and> (rc = 0 \<longrightarrow> args \<noteq> []))"
| "vm_step (CleanCache f) rc A B = (B = A)"
| "vm_step Version rc A B = (B = A \<and> rc = 0)"

section \<open>The commands refine it\<close>

lemma justified_labels:
  assumes "justified sys fl s sp" and "sg_name sp = container_name v"
  shows "may_name fl v" and "vm_labels v sp"
proof -
  obtain opts vm s1 result dirs where o: "parse_create_options fl = Inr opts" "assemble_vm sys opts s = (Inr vm, s1)"
    and vv: "valid_vm (stat_missing sys (ext s1)) vm"
    and sp: "sp = vm_container_spec sys (vm_name vm) (co_launcher_image opts) result dirs"
    using assms(1) unfolding justified_def by blast
  have v: "v = vm_name vm" using assms(2) sp by simp
  then show "may_name fl v" using o(1) vv assemble_vm_name [OF o(2)] by (auto simp: may_name_def valid_vm_def)
  show "vm_labels v sp" using v sp by (cases dirs) (simp add: vm_labels_def vm_container_spec_def)
qed

text \<open>A successful \<open>create\<close> adds one container, and it is the one the configuration describes.\<close>

lemma create_view:
  fixes s :: "'w st"
  assumes ct: "container_tables sys tbl"
  shows "case run_create sys fl s of (r, s') \<Rightarrow>
    if isl r then view_at tbl (ext s') = view_at tbl (ext s)
    else \<exists>v. vm_added (justified sys fl s) v (view_at tbl (ext s)) (view_at tbl (ext s'))"
    (is "?P (run_create sys fl s)")
proof -
  note lv = leaves_vms [OF ct]
  have last: "?P (bindE (create_vm sys (vm_name vm') (co_launcher_image opts) result) (print_create_summary vm' result) s6)"
    if f: "parse_create_options fl = Inr opts" "assemble_vm sys opts s = (Inr vm, s1)"
      "valid_vm (stat_missing sys (ext s1)) vm"
      "new_podman_client sys s1 = (Inr (), s2)" "exists_vm sys (vm_name vm) s2 = (Inr False, s3)"
      "ensure_image sys (co_launcher_image opts) (snd (say pulling_msg [] s3)) = (Inr (), s4)"
      "prepare_sized_disks sys vm (co_launcher_image opts) s4 = (Inr vm', s5)" "to_vmi sys (ext s5) vm' = Inr result"
      and v: "view_at tbl (ext s6) = view_at tbl (ext s)"
    for opts vm vm' result and s1 s2 s3 s4 s5 s6 :: "'w st"
  proof -
    have "vm_name vm' = vm_name vm" using prepare_sized_disks_Inr [OF f(7)] by auto
    then have j: "justified sys fl s (vm_container_spec sys (vm_name vm') (co_launcher_image opts) result dirs)" for dirs
      unfolding justified_def using f by metis
    obtain r s7 where c: "create_vm sys (vm_name vm') (co_launcher_image opts) result s6 = (r, s7)" by fastforce
    note created = create_vm_view [OF ct, where P = "justified sys fl s", OF j, of s6, unfolded c prod.case]
    show ?thesis
    proof (cases r)
      case (Inl e)
      then show ?thesis using c created v by (simp add: run_bindE)
    next
      case (Inr cid)
      obtain r8 s8 where p: "print_create_summary vm' result cid s7 = (r8, s8)" by fastforce
      then have "\<not> isl r8 \<and> ext s8 = ext s7"
        using smooth_run [OF smooth_summary p] created Inr by simp
      then show ?thesis using c p created v Inr by (auto simp: run_bindE)
    qed
  qed
  show ?thesis
    unfolding run_create_def
    apply (rule keeps_step [where N = "view_at tbl"], intro keeps_intros, simp)
    apply (rule keeps_step [where N = "view_at tbl"], intro keeps_intros ct, simp)
    apply (rule keeps_step [where N = "view_at tbl"], simp add: validate_op_def, intro keeps_intros, simp)
    apply (rule keeps_step [where N = "view_at tbl"], intro keeps_intros lv, simp)
    apply (rule keeps_step [where N = "view_at tbl"], intro keeps_intros lv, simp)
    subgoal for opts _ vm _ _ _ _ _ exists
      apply (cases exists)
       apply simp
      apply (simp only: if_False)
      apply (rule keeps_step [where N = "view_at tbl"], intro keeps_intros, simp)
      apply (rule keeps_step [where N = "view_at tbl"], intro keeps_intros lv, simp)
      apply (rule keeps_step [where N = "view_at tbl"], intro keeps_intros ct, simp)
      apply (rule keeps_step [where N = "view_at tbl"], intro keeps_intros, simp)
      apply (rule keeps_step [where N = "view_at tbl"], intro keeps_intros, simp)
      apply (rule last)
              apply (auto simp: query_def run_wrapE say_def emit_def dest: validate_op_Inr split: sum.splits)
      done
    done
qed

lemma vm_added_mono: "vm_added P v A B \<Longrightarrow> (\<And>sp. P sp \<Longrightarrow> sg_name sp = container_name v \<Longrightarrow> Q sp) \<Longrightarrow> vm_added Q v A B"
  unfolding vm_added_def by blast

lemma vm_added_holds: "vm_added P v A B \<Longrightarrow> \<exists>sp. P sp \<and> sg_name sp = container_name v"
  unfolding vm_added_def by blast

lemma create_step:
  assumes "container_tables sys tbl"
  shows "case run_create sys fl s of (r, s') \<Rightarrow>
    vm_step (Create fl) (exit_code r) (view_at tbl (ext s)) (view_at tbl (ext s'))"
proof -
  obtain r s' where r: "run_create sys fl s = (r, s')" by fastforce
  note v = create_view [OF assms, where fl = fl and s = s, unfolded r prod.case]
  show ?thesis
  proof (cases "isl r")
    case False
    then obtain v where a: "vm_added (justified sys fl s) v (view_at tbl (ext s)) (view_at tbl (ext s'))"
      using v by auto
    moreover have "may_name fl v" using vm_added_holds [OF a] justified_labels(1) by blast
    moreover have "vm_added (vm_labels v) v (view_at tbl (ext s)) (view_at tbl (ext s'))"
      by (rule vm_added_mono [OF a justified_labels(2)])
    ultimately show ?thesis using r False by auto
  qed (use r v in simp)
qed

lemma delete_step:
  assumes ct: "container_tables sys tbl" and r: "run_delete sys v f s = (r, s')"
  shows "vm_step (Delete v f) (exit_code r) (view_at tbl (ext s)) (view_at tbl (ext s'))"
proof -
  obtain g s1 where g: "vm_guard sys v s = (g, s1)" by fastforce
  have k: "view_at tbl (ext s1) = view_at tbl (ext s)"
    using keepsD [OF keeps_cmd_helpers(2) [OF leaves_vms [OF ct]] g] .
  show ?thesis
  proof (cases "g = Inr True")
    case True
    then have "delete_body sys v f s1 = (r, s')" using delete.run_present g r by metis
    then show ?thesis using delete_body_view [OF ct, where v = v and force = f and s = s1] k vm_guard_answer [OF ct g [unfolded True]]
      by (auto split: if_splits)
  next
    case False
    then have "isl r \<and> s' = s1"
      using g r by (cases g) (auto simp: delete.run_guard run_bindE)
    then show ?thesis using k by simp
  qed
qed

lemma status_step:
  assumes ct: "container_tables sys tbl" and r: "run_status sys v w s = Some (r, s')"
  shows "vm_step (Status v w) (exit_code r) (view_at tbl (ext s)) (view_at tbl (ext s'))"
proof -
  note lv = leaves_vms [OF ct]
  obtain g s1 where g: "vm_guard sys v s = (g, s1)" by fastforce
  have k: "view_at tbl (ext s1) = view_at tbl (ext s)"
    using keepsD [OF keeps_cmd_helpers(2) [OF lv] g] .
  show ?thesis
  proof (cases "g = Inr True \<and> w")
    case True
    then have "watch_loop sys v s1 = Some (r, s')"
      using g r by (simp add: run_status_def vm_guard_def)
    then show ?thesis using watch_loop_keeps [OF lv] k by fastforce
  next
    case False
    then have "status_once sys v s = (r, s')"
      using g r run_status_once [of sys v s] by (cases g) (auto simp: run_status_def vm_guard_def split: if_splits)
    moreover have "w \<Longrightarrow> isl r"
      using False g r by (cases g) (auto simp: run_status_def vm_guard_def split: if_splits)
    ultimately show ?thesis
      using status.run_vms [OF ct keeps_print_status [OF lv]] by fastforce
  qed
qed

lemma dispatch_step:
  assumes ct: "container_tables sys tbl" and r: "dispatch sys ver cmd s = Some (r, s')"
  shows "vm_step cmd (exit_code r) (view_at tbl (ext s)) (view_at tbl (ext s'))"
proof (cases cmd)
  case (Create fl)
  then show ?thesis using create_step [OF ct, of fl s] r by simp
next
  case (Start v w t)
  then have "run_start sys v w t s = (r, s')" using r by simp
  from start.run_vms [OF ct keeps_bodies(1) [OF ct] this] show ?thesis using Start by simp
next
  case (Stop v f g t)
  then have "run_stop sys v f g t s = (r, s')" using r by simp
  from stop.run_vms [OF ct keeps_bodies(2) [OF ct] this] show ?thesis using Stop by simp
next
  case (Delete v f)
  then show ?thesis using delete_step [OF ct] r by simp
next
  case (Status v w)
  then have "run_status sys v w s = Some (r, s')" using r by simp
  from status_step [OF ct this] show ?thesis using Status by simp
next
  case (Console v)
  then have "run_console sys v s = (r, s')" using r by simp
  from console.run_vms [OF ct keeps_bodies(3) [OF ct] this] show ?thesis using Console by simp
next
  case (ListVMs flt fmt)
  then have "run_list sys flt fmt s = (r, s')" using r by simp
  from keepsD [OF keeps_list_ssh_clean(1) [OF ct] this] show ?thesis using ListVMs by simp
next
  case (Ssh args u p i)
  then have k: "run_ssh sys args u p i s = (r, s')" using r by simp
  then have "isl r" if "args = []" using that by (auto simp: run_ssh_def)
  then show ?thesis using keepsD [OF keeps_run_ssh [OF ct] k] Ssh by auto
next
  case (CleanCache f)
  then have "run_clean_cache sys f s = (r, s')" using r by simp
  from keepsD [OF keeps_list_ssh_clean(2) [OF ct] this] show ?thesis using CleanCache by simp
next
  case Version
  then have "run_version ver s = (r, s')" using r by simp
  from smooth_run [OF smooth_say this [unfolded run_version_def]] show ?thesis using Version by simp
qed

lemma execute_step:
  assumes "container_tables sys tbl" and "execute sys ver cmd s = Some (rc, s')"
  shows "vm_step cmd rc (view_at tbl (ext s)) (view_at tbl (ext s'))"
  using assms(2) dispatch_step [OF assms(1)] by (auto simp: execute_def)

section \<open>Sessions\<close>

text \<open>Runs of the program one after the other, each with its exit code.\<close>

inductive session :: "'w sys \<Rightarrow> string \<Rightarrow> 'w st \<Rightarrow> (invocation \<times> nat) list \<Rightarrow> 'w st \<Rightarrow> bool"
  for sys :: "'w sys" and ver :: string where
  session_nil: "session sys ver s [] s"
| session_cons: "execute sys ver cmd s = Some (rc, s1) \<Longrightarrow> session sys ver s1 tr s' \<Longrightarrow>
     session sys ver s ((cmd, rc) # tr) s'"

inductive_cases session_consE: "session sys ver s ((cmd, rc) # tr) s'"
inductive_simps session_nil_simp [simp]: "session sys ver s [] s'"

text \<open>The abstract machine over a trace.\<close>

inductive vm_trace :: "container_table \<Rightarrow> (invocation \<times> nat) list \<Rightarrow> container_table \<Rightarrow> bool" where
  trace_nil: "vm_trace A [] A"
| trace_cons: "vm_step cmd rc A B \<Longrightarrow> vm_trace B tr C \<Longrightarrow> vm_trace A ((cmd, rc) # tr) C"

lemma session_refines:
  assumes "container_tables sys tbl"
  shows "session sys ver s tr s' \<Longrightarrow> vm_trace (view_at tbl (ext s)) tr (view_at tbl (ext s'))"
proof (induction rule: session.induct)
  case (session_cons cmd s rc s1 tr s')
  then show ?case using execute_step [OF assms] by (blast intro: trace_cons)
qed (rule trace_nil)

text \<open>Every VM that comes in has a valid name and podvirt's labels, by an invariant of the machine.\<close>

definition labelled :: "container_table \<Rightarrow> bool" where
  "labelled A \<longleftrightarrow> (\<forall>i c. A i = Some c \<longrightarrow>
     (\<exists>v. ct_name c = container_name v \<and> dns_label v) \<and> map_of (ct_labels c) ''app'' = Some ''podvirt'')"

lemma may_name_label: "may_name fl v \<Longrightarrow> dns_label v"
  by (auto simp: may_name_def split: sum.splits)

lemma labelled_added:
  assumes "labelled A" and "vm_added (vm_labels v) v A B" and "dns_label v"
  shows "labelled B"
proof -
  obtain i c sp where B: "B = A(i \<mapsto> c)" and sp: "vm_labels v sp" "sg_name sp = container_name v" "made_from sp c"
    using assms(2) unfolding vm_added_def by blast
  have "map_of (sg_labels sp) ''app'' = Some ''podvirt''" "map_of (sg_labels sp) \<subseteq>\<^sub>m map_of (ct_labels c)"
    using sp(1,3) by (simp_all add: vm_labels_def made_from_def)
  then have "map_of (ct_labels c) ''app'' = Some ''podvirt''" by (rule map_le_Some [rotated])
  moreover have "ct_name c = container_name v" using sp(2,3) by (simp add: made_from_def)
  ultimately have "B j = Some d \<Longrightarrow> (\<exists>v. ct_name d = container_name v \<and> dns_label v)
      \<and> map_of (ct_labels d) ''app'' = Some ''podvirt''" for j d
    using assms(1,3) B by (cases "j = i") (fastforce simp: labelled_def)+
  then show ?thesis unfolding labelled_def by blast
qed

lemma step_labels:
  assumes "vm_step cmd rc A B" and "labelled A"
  shows "labelled B"
proof (cases "B = A")
  case False
  then consider fl v where "may_name fl v" "vm_added (vm_labels v) v A B" | v where "vm_removed v A B"
    using assms(1) by (cases cmd) (auto split: if_splits)
  then show ?thesis
  proof cases
    case 1
    then show ?thesis using labelled_added [OF assms(2)] may_name_label by blast
  next
    case 2
    then show ?thesis using assms(2) by (auto simp: labelled_def vm_removed_def split: if_splits)
  qed
qed (use assms(2) in simp)

lemma trace_labels: "vm_trace A tr B \<Longrightarrow> labelled A \<Longrightarrow> labelled B"
  by (induction rule: vm_trace.induct) (auto dest: step_labels)

text \<open>A name goes only by a \<open>delete\<close> of it that succeeds, and is not given again before.\<close>

definition deletes :: "string \<Rightarrow> invocation \<times> nat \<Rightarrow> bool" where
  "deletes v x \<longleftrightarrow> snd x = 0 \<and> (case fst x of Delete v' _ \<Rightarrow> v' = v | _ \<Rightarrow> False)"

definition creates_named :: "string \<Rightarrow> invocation \<times> nat \<Rightarrow> bool" where
  "creates_named v x \<longleftrightarrow> snd x = 0 \<and> (case fst x of
     Create fl \<Rightarrow> (case parse_create_options fl of Inl _ \<Rightarrow> False | Inr opts \<Rightarrow> co_name opts = v) | _ \<Rightarrow> False)"

lemma step_stays:
  "vm_step cmd rc A B \<Longrightarrow> A i = Some c \<Longrightarrow> ct_name c = container_name v \<Longrightarrow> \<not> deletes v (cmd, rc) \<Longrightarrow> B i = Some c"
  by (cases cmd) (auto simp: deletes_def vm_removed_def vm_added_def split: if_splits)

lemma step_once: "vm_step cmd rc A B \<Longrightarrow> v \<in> vms_of A \<Longrightarrow> v \<noteq> [] \<Longrightarrow> \<not> creates_named v (cmd, rc)"
  by (cases cmd) (auto simp: creates_named_def may_name_def vm_added_def split: if_splits sum.splits)

lemma trace_stays:
  "vm_trace A tr B \<Longrightarrow> A i = Some c \<Longrightarrow> ct_name c = container_name v \<Longrightarrow> v \<noteq> [] \<Longrightarrow>
     \<not> list_ex (deletes v) tr \<Longrightarrow> B i = Some c \<and> \<not> list_ex (creates_named v) tr"
proof (induction rule: vm_trace.induct)
  case (trace_cons cmd rc A B tr C)
  have "v \<in> vms_of A" using trace_cons.prems(1,2) by (auto simp: vms_of_iff)
  then show ?case
    using trace_cons step_stays [of cmd rc A B i c v] step_once [of cmd rc A B v] by auto
qed simp

text \<open>A run of \<open>create\<close> in the world of \<open>Ledger\<close>.\<close>

lemma ledger_creates:
  "\<exists>rc s'. execute ledger_sys ver (Create ledger_flags) s = Some (rc, s')
     \<and> (rc = 0 \<longleftrightarrow> ''vm1'' \<notin> vms_of (view_at ledger_tbl (ext s)))
     \<and> (rc = 0 \<longrightarrow> ext s' = ledger_vm # ext s)"
  using ledger_run_create [of s]
  by (cases "run_create ledger_sys ledger_flags s") (auto simp: execute_def split: if_splits)

lemma ledger_creates_vm1:
  assumes "execute ledger_sys ver (Create ledger_flags) s = Some (0, s1)"
  shows "vm_added (vm_labels ''vm1'') ''vm1'' (view_at ledger_tbl (ext s)) (view_at ledger_tbl (ext s1))"
proof -
  obtain opts where o: "parse_create_options ledger_flags = Inr opts" "co_name opts = ''vm1''"
    using ledger_options by blast
  obtain v where "may_name ledger_flags v"
    and a: "vm_added (vm_labels v) v (view_at ledger_tbl (ext s)) (view_at ledger_tbl (ext s1))"
    using execute_step [OF ledger_container_tables assms] by auto
  then have "v = ''vm1''" using o by (simp add: may_name_def)
  then show ?thesis using a by simp
qed

lemma vm_added_there: "vm_added P v A B \<Longrightarrow> v \<in> vms_of B"
  unfolding vm_added_def vms_of_iff made_from_def by (metis fun_upd_same)

lemma view_in_vms: "A i = Some c \<Longrightarrow> ct_name c = container_name v \<Longrightarrow> v \<in> vms_of A"
  unfolding vms_of_iff by blast

lemma ledger_empty: "view_at ledger_tbl (ext (ledger_st [])) = Map.empty"
  by (auto simp: view_at_def vm_view_def ledger_st_def ledger_tbl_def named_def fun_eq_iff)

section \<open>Properties\<close>

text \<open>
  C1: The whole program refines the abstract machine of VM containers. Over any sequence of runs,
  each command of the command line with any arguments and flags, ending with whatever exit code:
  a \<open>create\<close> that exits with 0 adds one container, under a name that was not in use, the one
  of \<open>--name\<close> where it is given, and with podvirt's labels; a \<open>delete\<close> that exits with 0
  removes the container of the VM it was given, or leaves it when it asked first; every other run,
  and each that fails, adds and removes none, and \<open>start\<close>, \<open>stop\<close>, \<open>status\<close> and
  \<open>console\<close> exit with 0 only for a VM that exists. So every VM container keeps a valid name
  and the label it is listed by. The documented behaviour of Podman is assumed, and that nobody
  else uses it.
\<close>

theorem commands_refine:
  assumes "container_tables sys tbl" and "session sys ver s tr s'"
  shows "vm_trace (view_at tbl (ext s)) tr (view_at tbl (ext s'))
    \<and> (labelled (view_at tbl (ext s)) \<longrightarrow> labelled (view_at tbl (ext s')))"
  using session_refines [OF assms] trace_labels by blast

theorem commands_refine_witness:
  "\<exists>rc s'. session ledger_sys ''dev'' (ledger_st []) [(Create ledger_flags, 0), (Create ledger_flags, rc)] s'
     \<and> rc \<noteq> 0 \<and> vm_trace Map.empty [(Create ledger_flags, 0), (Create ledger_flags, rc)] (view_at ledger_tbl (ext s'))
     \<and> labelled (view_at ledger_tbl (ext s'))"
proof -
  obtain s1 where s1: "execute ledger_sys ''dev'' (Create ledger_flags) (ledger_st []) = Some (0, s1)"
    using ledger_creates [of "''dev''" "ledger_st []"] by (auto simp: ledger_empty vms_of_iff)
  have "''vm1'' \<in> vms_of (view_at ledger_tbl (ext s1))" using ledger_creates_vm1 [OF s1] by (rule vm_added_there)
  then obtain rc s' where s': "execute ledger_sys ''dev'' (Create ledger_flags) s1 = Some (rc, s')" "rc \<noteq> 0"
    using ledger_creates [of "''dev''" s1] by auto
  have "session ledger_sys ''dev'' (ledger_st []) [(Create ledger_flags, 0), (Create ledger_flags, rc)] s'"
    by (rule session_cons [OF s1 session_cons [OF s'(1) session_nil]])
  moreover have "labelled Map.empty" by (simp add: labelled_def)
  ultimately show ?thesis
    using commands_refine [OF ledger_container_tables, of "''dev''" "ledger_st []", unfolded ledger_empty] s'(2)
    by blast
qed

text \<open>
  A VM lasts until it is deleted. The container of a VM is there, the very same and under the
  same identifier, after any sequence of runs in which no \<open>delete\<close> of this VM succeeds, and
  until then no \<open>create\<close> for its name succeeds: a name is never given twice and a VM is never
  replaced.
\<close>

lemma vm_survives:
  assumes "container_tables sys tbl" and "session sys ver s tr s'"
    and "view_at tbl (ext s) i = Some c" and "ct_name c = container_name v" and "v \<noteq> []"
    and "\<not> list_ex (deletes v) tr"
  shows "view_at tbl (ext s') i = Some c \<and> \<not> list_ex (creates_named v) tr"
  using trace_stays [OF session_refines [OF assms(1,2)] assms(3-6)] .

lemma vm_survives_witness:
  "\<exists>rc s'. session ledger_sys ''dev'' (ledger_st [\<lparr>ct_name = container_name ''vm1'', ct_labels = [], ct_ports = []\<rparr>])
       [(Create ledger_flags, rc)] s'
     \<and> ''vm1'' \<in> vms_of (view_at ledger_tbl (ext s')) \<and> rc \<noteq> 0"
proof -
  let ?c = "\<lparr>ct_name = container_name ''vm1'', ct_labels = [], ct_ports = []\<rparr>"
  let ?s = "ledger_st [?c]"
  have i: "view_at ledger_tbl (ext ?s) (zeros @ container_name ''vm1'') = Some ?c"
    by (simp add: view_at_def vm_view_Some ledger_st_def)
  then have "''vm1'' \<in> vms_of (view_at ledger_tbl (ext ?s))" by (rule view_in_vms) simp
  then obtain rc s' where s': "execute ledger_sys ''dev'' (Create ledger_flags) ?s = Some (rc, s')" "rc \<noteq> 0"
    using ledger_creates [of "''dev''" ?s] by auto
  have e: "session ledger_sys ''dev'' ?s [(Create ledger_flags, rc)] s'"
    by (rule session_cons [OF s'(1) session_nil])
  moreover have "\<not> list_ex (deletes ''vm1'') [(Create ledger_flags, rc)]" by (simp add: deletes_def)
  ultimately have "view_at ledger_tbl (ext s') (zeros @ container_name ''vm1'') = Some ?c"
    using vm_survives [OF ledger_container_tables e i, of "''vm1''"] by simp
  then have "''vm1'' \<in> vms_of (view_at ledger_tbl (ext s'))" by (rule view_in_vms) simp
  then show ?thesis using e s'(2) by blast
qed

end
