(* ===== verification/EndToEnd.thy ===== *)
theory EndToEnd
  imports Lifecycle
begin

text \<open>
  Commands that work on what an earlier \<open>create\<close> left: the listing shows every VM, and
  \<open>ssh\<close> connects to the port and as the user of the configuration. What they know of the
  containers they ask Podman for; what its answers rely on is \<open>listings\<close>.
\<close>

section \<open>Answers about containers\<close>

definition describes :: "string \<Rightarrow> string \<Rightarrow> container \<Rightarrow> vm_info \<Rightarrow> bool" where
  "describes v i c info \<longleftrightarrow> vi_name info = v \<and> vi_container_id info = i \<and> vi_port_mappings info = ct_ports c
     \<and> vi_ssh_user info = (case map_of (ct_labels c) ''podvirt/ssh-user'' of None \<Rightarrow> [] | Some u \<Rightarrow> u)"

lemma describes_entry:
  "t (lc_id l) = Some c \<Longrightarrow> lc_labels l = ct_labels c \<Longrightarrow> lc_ports l = ct_ports c \<Longrightarrow> describes v (lc_id l) c (vm_info_of v l)"
  by (simp add: describes_def vm_info_of_def label_of_def)

lemma lists_member:
  assumes "lists P t ls" and "l \<in> set ls"
  obtains c where "t (lc_id l) = Some c" and "P c" and "lc_names l = [ct_name c]"
    and "lc_labels l = ct_labels c" and "lc_ports l = ct_ports c"
proof -
  obtain c where c: "t (lc_id l) = Some c" "lc_names l = [ct_name c] \<and> lc_labels l = ct_labels c \<and> lc_ports l = ct_ports c"
    using assms unfolding lists_def by blast
  moreover have "lc_id l \<in> {i. \<exists>c. t i = Some c \<and> P c}"
    using assms unfolding lists_def by blast
  ultimately show ?thesis using that [of c] by simp
qed

text \<open>\<open>inspect_vm\<close> describes a container whose name has that of the VM's container as a part.\<close>

lemma inspect_describes:
  assumes "listings sys tbl" and "dns_label v" and "inspect_vm sys v s = (Inr info, s')"
  obtains i c where "tbl (ext s) i = Some c" and "sublist (container_name v) (ct_name c)" and "describes v i c info"
proof -
  obtain l ls where l: "call (CtrList [(''name'', container_name v)]) (ctr_list sys [(''name'', container_name v)]) s = (Inr (l # ls), s')"
    and i: "info = vm_info_of v l"
    using assms(3) by (auto simp: inspect_vm_def Let_def wrapE_Inr elim!: bindE_Inr_E split: list.splits)
  from call_ext [OF l] have "lists (\<lambda>c. sublist (container_name v) (ct_name c)) (tbl (ext s)) (l # ls)"
    using assms(1,2) unfolding listings_def by blast
  then obtain c where "tbl (ext s) (lc_id l) = Some c" "sublist (container_name v) (ct_name c)"
    "lc_labels l = ct_labels c" "lc_ports l = ct_ports c"
    by (rule lists_member [OF _ list.set_intros(1)])
  then show ?thesis using that describes_entry i by blast
qed

text \<open>\<open>list_vms\<close> describes each container with podvirt's label once.\<close>

lemma list_vms_describes:
  assumes "listings sys tbl" and "list_vms sys s = (Inr vms, s')"
  obtains ids where "distinct ids"
    and "set ids = {i. \<exists>c. tbl (ext s) i = Some c \<and> map_of (ct_labels c) ''app'' = Some ''podvirt''}"
    and "list_all2 (\<lambda>i vm. \<exists>c. tbl (ext s) i = Some c \<and> describes (vm_name_from_container [ct_name c]) i c vm) ids vms"
proof -
  obtain ls where l: "call (CtrList [(''label'', ''app=podvirt'')]) (ctr_list sys [(''label'', ''app=podvirt'')]) s = (Inr ls, s')"
    and v: "vms = map (\<lambda>c. vm_info_of (vm_name_from_container (lc_names c)) c) ls"
    using assms(2) by (auto simp: list_vms_def Let_def wrapE_Inr elim!: bindE_Inr_E)
  from call_ext [OF l] have k: "lists (\<lambda>c. map_of (ct_labels c) ''app'' = Some ''podvirt'') (tbl (ext s)) ls"
    using assms(1) unfolding listings_def by blast
  show ?thesis
  proof (rule that [of "map lc_id ls"])
    show "list_all2 (\<lambda>i vm. \<exists>c. tbl (ext s) i = Some c \<and> describes (vm_name_from_container [ct_name c]) i c vm) (map lc_id ls) vms"
      unfolding v list_all2_map1 list_all2_map2 list_all2_same
    proof
      fix l assume "l \<in> set ls"
      then obtain c where "tbl (ext s) (lc_id l) = Some c" "lc_names l = [ct_name c]"
        "lc_labels l = ct_labels c" "lc_ports l = ct_ports c"
        using lists_member [OF k] by metis
      then show "\<exists>c. tbl (ext s) (lc_id l) = Some c
          \<and> describes (vm_name_from_container [ct_name c]) (lc_id l) c (vm_info_of (vm_name_from_container (lc_names l)) l)"
        using describes_entry by metis
    qed
  qed (use k in \<open>simp_all add: lists_def\<close>)
qed

section \<open>Ports\<close>

lemma ssh_port_forward:
  assumes "\<forall>pf\<in>set pfs. valid_port_forward pf" and "ssh_port 0 (map (port_mapping_of sys) pfs) \<noteq> 0"
  shows "\<exists>pf. find (\<lambda>pf. pf_vm_port pf = 22) pfs = Some pf
    \<and> ssh_port 0 (map (port_mapping_of sys) pfs) = pf_host_port pf"
  using assms
proof (induction pfs)
  case (Cons pf pfs)
  then have v: "valid_port_forward pf" by simp
  have "pm_container_port (port_mapping_of sys pf) = 22 \<longleftrightarrow> pf_vm_port pf = 22"
    using valid_port_published(2) [OF v, of sys] by (simp add: word_uint_eq_iff)
  then show ?case using Cons valid_port_published(1) [OF v, of sys] by (auto simp: ssh_port_def)
qed (simp add: ssh_port_def)

section \<open>The client does not change the containers\<close>

lemma client_tables:
  "container_tables sys tbl \<Longrightarrow> new_podman_client sys s = (r, s') \<Longrightarrow> tbl (ext s') = tbl (ext s)"
  using keepsD [OF keeps_cmd_helpers(1) [OF container_tablesD(3)]] .

text \<open>What a successful \<open>create\<close> with \<open>--name\<close> leaves.\<close>

lemma created_container:
  assumes ct: "container_tables sys tbl" and o: "parse_create_options fl = Inr opts" "co_name opts = v" "v \<noteq> []"
    and e: "execute sys ver (Create fl) s = Some (0, s')"
  obtains i c sp where "view_at tbl (ext s') i = Some c" and "ct_name c = container_name v" and "dns_label v"
    and "justified sys fl s sp" and "made_from sp c"
proof -
  obtain x where "run_create sys fl s = (Inr x, s')" using e by (auto simp: execute_0)
  then obtain u where a: "vm_added (justified sys fl s) u (view_at tbl (ext s)) (view_at tbl (ext s'))"
    using create_view [OF ct, where fl = fl and s = s] by auto
  then obtain sp i c where sp: "justified sys fl s sp" "sg_name sp = container_name u" "made_from sp c"
    and c: "view_at tbl (ext s') i = Some c"
    unfolding vm_added_def by (metis fun_upd_same)
  have "may_name fl u" by (rule justified_labels(1) [OF sp(1,2)])
  then have "u = v" "dns_label u" using o by (auto simp: may_name_def)
  moreover have "ct_name c = container_name u" using sp(2,3) by (simp add: made_from_def)
  ultimately show ?thesis using that [OF c] sp by simp
qed

text \<open>The ports and the user of a specification are those of the configuration.\<close>

lemma justified_ports:
  assumes "justified sys fl s sp" and "parse_create_options fl = Inr opts"
  obtains vm s1 where "assemble_vm sys opts s = (Inr vm, s1)"
    and "sg_port_mappings sp = map (port_mapping_of sys) (concat (map net_port_forwards (vm_networks vm)))"
    and "\<forall>pf\<in>set (concat (map net_port_forwards (vm_networks vm))). valid_port_forward pf"
    and "map_of (sg_labels sp) ''podvirt/ssh-user'' =
      Some (case vm_cloud_init vm of None \<Rightarrow> [] | Some ci \<Rightarrow> effective_cloud_init_user (Some ci))"
proof -
  obtain vm s1 s4 vm' s5 result dirs where a: "assemble_vm sys opts s = (Inr vm, s1)"
    and v: "valid_vm (stat_missing sys (ext s1)) vm"
    and p: "prepare_sized_disks sys vm (co_launcher_image opts) s4 = (Inr vm', s5)"
    and t: "to_vmi sys (ext s5) vm' = Inr result"
    and sp: "sp = vm_container_spec sys (vm_name vm) (co_launcher_image opts) result dirs"
    using assms unfolding justified_def by auto
  obtain ds where "vm' = set_disks ds vm" using prepare_sized_disks_Inr [OF p] by blast
  then have vm': "vm_networks vm' = vm_networks vm" "vm_cloud_init vm' = vm_cloud_init vm" by simp_all
  obtain vmi where "build_vmi sys (ext s5) vm' = Inr (vmi, res_host_mounts result, res_port_forwards result)"
    using t by (rule to_vmi_Inr)
  from build_vmi_rest [OF this] have "res_port_forwards result = concat (map net_port_forwards (vm_networks vm))"
    using vm' by simp
  moreover have "res_ssh_user result = (case vm_cloud_init vm of None \<Rightarrow> [] | Some ci \<Rightarrow> effective_cloud_init_user (Some ci))"
    using t vm' by (auto simp: to_vmi_def split: sum.splits prod.splits)
  moreover have "\<forall>pf\<in>set (concat (map net_port_forwards (vm_networks vm))). valid_port_forward pf"
    using v by (auto simp: valid_vm_def valid_network_def)
  ultimately show ?thesis
    using that a sp by (cases dirs) (simp add: vm_container_spec_def build_port_mappings_def)
qed

section \<open>In the world of \<open>Ledger\<close>\<close>

lemma ledger_created:
  obtains s where "execute ledger_sys ver (Create ledger_flags) (ledger_st []) = Some (0, s)" and "ext s = [ledger_vm]"
proof -
  have "''vm1'' \<notin> vms_of (view_at ledger_tbl (ext (ledger_st [])))" by (simp add: ledger_empty vms_of_iff)
  then show ?thesis using that ledger_creates [of ver "ledger_st []"] by (auto simp: ledger_st_def)
qed

lemma ledger_list_runs:
  assumes "ext s = [ledger_vm]"
  shows "\<exists>s'. execute ledger_sys ver (ListVMs [] ''json'') s = Some (0, s')"
  using assms
  by (simp add: execute_0 run_list_def list_entry_def list_vms_def get_info_def virsh_def slice12_def guard_run ledger_run
      ledger_list_def passes_def ledger_entry_def vm_info_of_def zeros_def ledger_vm_def)

lemma ledger_ssh:
  assumes "ext s = [ledger_vm]"
  shows "\<exists>s'. execute ledger_sys ver (Ssh [''vm1'', cmd] [] 0 []) s = Some (0, s')"
  using assms
  by (simp add: execute_0 run_ssh_def inspect_vm_def ssh_port_def ledger_podman_def guard_run ledger_run
      ledger_list_def passes_def ledger_entry_def vm_info_of_def label_of_def ledger_vm_def)

text \<open>A VM whose name begins with that of the other.\<close>

definition ledger_vm10 :: container where
  "ledger_vm10 = \<lparr>ct_name = container_name ''vm10'',
     ct_labels = [(''app'', ''podvirt''), (''podvirt/vm'', ''vm10''), (''podvirt/ssh-user'', []), (''podvirt/ssh-keys'', ''false'')],
     ct_ports = [\<lparr>pm_host_port = 2210, pm_container_port = 22, pm_protocol = ''tcp''\<rparr>]\<rparr>"

section \<open>Properties\<close>

text \<open>
  C9: Every VM is listed. After any sequence of runs that began with properly labelled VMs, a
  successful JSON or YAML listing without a filter has exactly one row for every VM container,
  with the name of the VM, the first twelve digits of its identifier and its ports; every other
  row is of some other existing container with podvirt's label.
\<close>

theorem list_complete:
  assumes ct: "container_tables sys tbl" and li: "listings sys tbl"
    and l0: "labelled (view_at tbl (ext s0))" and se: "session sys ver s0 tr s"
    and ex: "execute sys ver (ListVMs [] fmt) s = Some (0, s')" and fmt: "fmt \<in> {''json'', ''yaml''}"
  shows "\<exists>ids es. last (log s') = listing fmt es \<and> distinct ids
    \<and> dom (view_at tbl (ext s)) \<subseteq> set ids
    \<and> list_all2 (\<lambda>i e. \<exists>c. tbl (ext s) i = Some c \<and> vle_container_id e = take 12 i
        \<and> vle_port_mappings e = map port_entry (ct_ports c)
        \<and> (\<forall>v. ct_name c = container_name v \<longrightarrow> vle_name e = v)) ids es"
proof -
  obtain u where "run_list sys [] fmt s = (Inr u, s')"
    using ex by (auto simp: execute_0)
  then obtain vms s1 s2 es where c: "new_podman_client sys s = (Inr (), s1)" and l: "list_vms sys s1 = (Inr vms, s2)"
    and r: "rows_from sys vms s2 es" and o: "last (log s') = listing fmt (filter (shown []) es)"
    using list_output [OF _ fmt] by blast
  have t: "tbl (ext s1) = tbl (ext s)" by (rule client_tables [OF ct c])
  obtain ids where ids: "distinct ids"
    "set ids = {i. \<exists>c. tbl (ext s) i = Some c \<and> map_of (ct_labels c) ''app'' = Some ''podvirt''}"
    "list_all2 (\<lambda>i vm. \<exists>c. tbl (ext s) i = Some c \<and> describes (vm_name_from_container [ct_name c]) i c vm) ids vms"
    by (rule list_vms_describes [OF li l, unfolded t])
  have "labelled (view_at tbl (ext s))"
    using trace_labels [OF session_refines [OF ct se] l0] .
  then have "dom (view_at tbl (ext s)) \<subseteq> set ids"
    unfolding ids(2) labelled_def by (auto simp: view_at_def vm_view_Some)
  moreover have "filter (shown []) es = es" by (simp add: shown_def filter_id_conv)
  moreover have "list_all2 (\<lambda>i e. \<exists>c. tbl (ext s) i = Some c \<and> vle_container_id e = take 12 i
        \<and> vle_port_mappings e = map port_entry (ct_ports c)
        \<and> (\<forall>v. ct_name c = container_name v \<longrightarrow> vle_name e = v)) ids es"
    by (rule list_all2_trans [OF _ ids(3) rows_from_row [OF r]])
      (auto simp: describes_def row_of_def vm_name_from_container_name)
  ultimately show ?thesis using o ids(1) by (intro exI [of _ ids] exI [of _ es]) simp
qed

theorem list_complete_witness:
  "\<exists>s s' es e. session ledger_sys ''dev'' (ledger_st []) [(Create ledger_flags, 0)] s
     \<and> execute ledger_sys ''dev'' (ListVMs [] ''json'') s = Some (0, s')
     \<and> last (log s') = listing ''json'' es \<and> e \<in> set es \<and> vle_name e = ''vm1''
     \<and> vle_port_mappings e = map port_entry (ct_ports ledger_vm)"
proof -
  obtain s where s: "execute ledger_sys ''dev'' (Create ledger_flags) (ledger_st []) = Some (0, s)" "ext s = [ledger_vm]"
    by (rule ledger_created)
  have se: "session ledger_sys ''dev'' (ledger_st []) [(Create ledger_flags, 0)] s"
    by (rule session_cons [OF s(1) session_nil])
  have l0: "labelled (view_at ledger_tbl (ext (ledger_st [])))" by (simp add: ledger_empty labelled_def)
  obtain s' where s': "execute ledger_sys ''dev'' (ListVMs [] ''json'') s = Some (0, s')"
    using ledger_list_runs [OF s(2)] by blast
  let ?i = "zeros @ container_name ''vm1''"
  have i: "ledger_tbl (ext s) ?i = Some ledger_vm" by (simp add: s(2) ledger_vm_def)
  then have "?i \<in> dom (view_at ledger_tbl (ext s))" by (auto simp: view_at_def vm_view_def ledger_vm_def)
  moreover obtain ids es where o: "last (log s') = listing ''json'' es" "dom (view_at ledger_tbl (ext s)) \<subseteq> set ids"
    "list_all2 (\<lambda>i e. \<exists>c. ledger_tbl (ext s) i = Some c \<and> vle_container_id e = take 12 i
        \<and> vle_port_mappings e = map port_entry (ct_ports c)
        \<and> (\<forall>v. ct_name c = container_name v \<longrightarrow> vle_name e = v)) ids es"
    using list_complete [OF ledger_container_tables ledger_listings l0 se s'] by auto
  ultimately obtain e where "e \<in> set es" "vle_name e = ''vm1''" "vle_port_mappings e = map port_entry (ct_ports ledger_vm)"
    using list_all2_member [OF o(3), of ?i] i by (auto simp: ledger_vm_def)
  then show ?thesis using se s' o(1) by blast
qed




end
