(* ===== verification/CommandLines.thy ===== *)
theory CommandLines
  imports Lifecycle CmdLine
begin

text \<open>
  Sessions at the terminal: command lines, one after the other, with their exit codes. What the
  library does to a line is in \<open>CmdLine\<close>, what the runs do to the containers in \<open>Lifecycle\<close>.
\<close>

section \<open>Sessions of command lines\<close>

text \<open>A line as the library has split it: the name of a command, flags, arguments.\<close>

type_synonym line = "string \<times> given \<times> string list"

inductive line_session :: "'w sys \<Rightarrow> string \<Rightarrow> 'w st \<Rightarrow> (line \<times> nat) list \<Rightarrow> 'w st \<Rightarrow> bool"
  for sys :: "'w sys" and ver :: string where
  lines_nil: "line_session sys ver s [] s"
| lines_cons: "run_line sys ver name given args s = Some (rc, s1) \<Longrightarrow> line_session sys ver s1 ls s' \<Longrightarrow>
     line_session sys ver s (((name, given, args), rc) # ls) s'"

text \<open>The library gives every flag a value of its type.\<close>

definition line_typed :: "line \<Rightarrow> bool" where
  "line_typed = (\<lambda>(name, given, args). case find_command name of None \<Rightarrow> True | Some c \<Rightarrow> well_typed c given)"

definition line_deletes :: "string \<Rightarrow> line \<times> nat \<Rightarrow> bool" where
  "line_deletes v = (\<lambda>((name, given, args), rc). rc = 0 \<and> name \<in> {''delete'', ''rm''} \<and> args = [v])"

definition line_creates :: "string \<Rightarrow> line \<times> nat \<Rightarrow> bool" where
  "line_creates v = (\<lambda>((name, given, args), rc). rc = 0 \<and> name = ''create'' \<and> map_of given ''name'' = Some (VString v))"

lemma find_command_Some:
  assumes "find_command name = Some c"
  shows "c \<in> set root_commands" and "command_name c = name \<or> name \<in> set (cd_aliases c)"
  using assms unfolding find_command_def by (auto dest: find_SomeD)

text \<open>A line either ends in the library, with an error and without effect, or is one run.\<close>

lemma run_line_cases:
  assumes "run_line sys ver name given args s = Some (rc, s1)" and "line_typed (name, given, args)"
  obtains (refused) "rc \<noteq> 0" and "s1 = s"
    | (run) c cmd where "find_command name = Some c" and "execute sys ver cmd s = Some (rc, s1)"
      and "invocation_name cmd = command_name c" and "reads (cd_flags c) given args cmd"
proof (cases "find_command name")
  case None
  then show ?thesis using assms(1) refused by (simp add: run_line_def)
next
  case (Some c)
  show ?thesis
  proof (cases "args_admitted (cd_args c) args")
    case True
    have "well_typed c given" using assms(2) Some by (simp add: line_typed_def)
    then obtain cmd where "cd_run c (cd_flags c) given args = Inr cmd" "invocation_name cmd = command_name c"
      "reads (cd_flags c) given args cmd"
      using command_reads [OF find_command_Some(1) [OF Some] _ True] by blast
    then show ?thesis using assms(1) Some True run by (simp add: run_line_def)
  next
    case False
    then show ?thesis using assms(1) Some refused by (simp add: run_line_def)
  qed
qed

lemma delete_names: "find_command name = Some c \<Longrightarrow> command_name c = ''delete'' \<Longrightarrow> name \<in> {''delete'', ''rm''}"
  using find_command_Some [of name c] by (auto simp: root_commands_def command_defs command_name_def)

lemma run_deletes:
  assumes "find_command name = Some c" and "invocation_name cmd = command_name c" and "reads (cd_flags c) given args cmd"
    and "deletes v (cmd, rc)"
  shows "line_deletes v ((name, given, args), rc)"
proof -
  obtain f where "cmd = Delete v f" "rc = 0"
    using assms(4) by (cases cmd) (auto simp: deletes_def)
  then show ?thesis using assms(1-3) delete_names by (auto simp: line_deletes_def)
qed

lemma run_creates:
  assumes "find_command name = Some c" and "invocation_name cmd = command_name c" and "reads (cd_flags c) given args cmd"
    and "line_creates v ((name, given, args), rc)"
  shows "creates_named v (cmd, rc)"
proof -
  have l: "rc = 0" "name = ''create''" "map_of given ''name'' = Some (VString v)"
    using assms(4) by (simp_all add: line_creates_def)
  then have c: "c = create_command"
    using assms(1) by (simp add: find_command_def root_commands_def command_defs command_name_def)
  then obtain fl where fl: "cmd = Create fl"
    using assms(2) by (cases cmd) (simp_all add: create_command_def command_name_def)
  have "flag_lookup create_flags given ''name'' = Some (VString v)"
    using l(3) by (simp add: flag_lookup_def create_flags_def)
  then show ?thesis
    using assms(3) l(1) unfolding c fl by (auto simp: create_command_def creates_named_def)
qed

lemma lines_are_runs:
  assumes "line_session sys ver s ls s'" and "list_all (\<lambda>(l, rc). line_typed l) ls"
  shows "\<exists>tr. session sys ver s tr s' \<and> (list_ex (deletes v) tr \<longrightarrow> list_ex (line_deletes v) ls)
    \<and> (list_ex (line_creates v) ls \<longrightarrow> list_ex (creates_named v) tr)"
  using assms
proof (induction rule: line_session.induct)
  case (lines_nil s)
  then show ?case using session_nil by (intro exI [of _ "[]"]) simp
next
  case (lines_cons name given args s rc s1 ls s')
  let ?l = "((name, given, args), rc)"
  obtain tr where tr: "session sys ver s1 tr s'" "list_ex (deletes v) tr \<longrightarrow> list_ex (line_deletes v) ls"
    "list_ex (line_creates v) ls \<longrightarrow> list_ex (creates_named v) tr"
    using lines_cons.IH lines_cons.prems by auto
  have "line_typed (name, given, args)" using lines_cons.prems by simp
  with lines_cons.hyps(1) show ?case
  proof (cases rule: run_line_cases)
    case refused
    then have "\<not> line_creates v ?l" by (simp add: line_creates_def)
    then show ?thesis using tr refused(2) by auto
  next
    case (run c cmd)
    have "session sys ver s ((cmd, rc) # tr) s'" by (rule session_cons [OF run(2) tr(1)])
    moreover have "deletes v (cmd, rc) \<Longrightarrow> line_deletes v ?l" by (rule run_deletes [OF run(1,3,4)])
    moreover have "line_creates v ?l \<Longrightarrow> creates_named v (cmd, rc)" by (rule run_creates [OF run(1,3,4)])
    ultimately show ?thesis using tr(2,3) by (intro exI [of _ "(cmd, rc) # tr"]) auto
  qed
qed

section \<open>Properties\<close>

text \<open>
  C2: A VM lasts until it is deleted. Over any sequence of command lines, right or wrong, the
  container of a VM is there, the very same and under the same identifier, as long as no line
  \<open>delete\<close> or \<open>rm\<close> with the name of this VM exits with 0, and until then no \<open>create --name\<close> for its
  name does: a name is never given twice and a VM is never replaced.
\<close>

theorem vm_lasts:
  assumes "container_tables sys tbl" and "line_session sys ver s ls s'" and "list_all (\<lambda>(l, rc). line_typed l) ls"
    and "view_at tbl (ext s) i = Some c" and "ct_name c = container_name v" and "v \<noteq> []"
    and "\<not> list_ex (line_deletes v) ls"
  shows "view_at tbl (ext s') i = Some c \<and> \<not> list_ex (line_creates v) ls"
proof -
  obtain tr where tr: "session sys ver s tr s'" "list_ex (deletes v) tr \<longrightarrow> list_ex (line_deletes v) ls"
    "list_ex (line_creates v) ls \<longrightarrow> list_ex (creates_named v) tr"
    using lines_are_runs [OF assms(2,3)] by blast
  then have "\<not> list_ex (deletes v) tr" using assms(7) by blast
  from vm_survives [OF assms(1) tr(1) assms(4-6) this] show ?thesis using tr(3) by blast
qed

theorem vm_lasts_witness:
  "\<exists>rc1 rc2 s'. line_session ledger_sys ''dev'' (ledger_st [\<lparr>ct_name = container_name ''vm1'', ct_labels = [], ct_ports = []\<rparr>])
       [((''stop'', [(''force'', VBool True)], [''vm1'']), rc1), ((''rm'', [], [''vm2'']), rc2), ((''remove'', [], [''vm1'']), 1)] s'
     \<and> ''vm1'' \<in> vms_of (view_at ledger_tbl (ext s'))"
proof -
  let ?c = "\<lparr>ct_name = container_name ''vm1'', ct_labels = [], ct_ports = []\<rparr>"
  let ?s = "ledger_st [?c]"
  note d = find_command_def root_commands_def command_defs command_name_def
  have i: "view_at ledger_tbl (ext ?s) (zeros @ container_name ''vm1'') = Some ?c"
    by (simp add: view_at_def vm_view_Some ledger_st_def)
  have run: "\<exists>rc s'. run_line ledger_sys ''dev'' name given [v] s = Some (rc, s')" if "name \<in> {''stop'', ''rm''}" for name given v s
    using that by (auto simp: run_line_def d first_arg_def bindR_def execute_def split: prod.split)
  obtain rc1 s1 where 1: "run_line ledger_sys ''dev'' ''stop'' [(''force'', VBool True)] [''vm1''] ?s = Some (rc1, s1)"
    using run [of "''stop''"] by blast
  obtain rc2 s2 where 2: "run_line ledger_sys ''dev'' ''rm'' [] [''vm2''] s1 = Some (rc2, s2)"
    using run [of "''rm''"] by blast
  have 3: "run_line ledger_sys ''dev'' ''remove'' [] [''vm1''] s2 = Some (1, s2)"
    by (simp add: run_line_def d)
  let ?ls = "[((''stop'', [(''force'', VBool True)], [''vm1'']), rc1), ((''rm'', [], [''vm2'']), rc2), ((''remove'', [], [''vm1'']), 1)]"
  have e: "line_session ledger_sys ''dev'' ?s ?ls s2"
    by (rule lines_cons [OF 1 lines_cons [OF 2 lines_cons [OF 3 lines_nil]]])
  moreover have "list_all (\<lambda>(l, rc). line_typed l) ?ls" by (simp add: line_typed_def well_typed_def d)
  moreover have "\<not> list_ex (line_deletes ''vm1'') ?ls" by (simp add: line_deletes_def)
  ultimately have "view_at ledger_tbl (ext s2) (zeros @ container_name ''vm1'') = Some ?c"
    using vm_lasts [OF ledger_container_tables e _ i, of "''vm1''"] by simp
  then have "''vm1'' \<in> vms_of (view_at ledger_tbl (ext s2))" by (rule view_in_vms) simp
  then show ?thesis using e by blast
qed

end
