(* ===== verification/QemuWrapper.thy ===== *)
theory QemuWrapper
  imports GoStrings
begin

text \<open>
  \<open>scripts/qemu-wrapper.sh\<close>, the shell script that \<open>container.go\<close> embeds and mounts over the
  QEMU binary: which arguments the real QEMU is started with. The script takes its arguments
  apart and together again with \<open>printf\<close>, \<open>awk\<close> and unquoted command substitutions. What it
  writes to its log when debugging is left out.
\<close>

section \<open>The shell and awk\<close>

text \<open>
  What is not written in the script: pathname expansion of a word; the regular expressions that
  awk builds from strings, in a match and in \<open>gsub\<close> (expression, replacement, text); the
  escapes that awk resolves in a value given with \<open>-v\<close>; and the order of \<open>for (nd in qmap)\<close>.
\<close>

record shell =
  sh_glob :: "string \<Rightarrow> string list"
  awk_match :: "string \<Rightarrow> string \<Rightarrow> bool"
  awk_gsub :: "string \<Rightarrow> string \<Rightarrow> string \<Rightarrow> string"
  awk_escapes :: "string \<Rightarrow> string"
  awk_order :: "string list \<Rightarrow> string list"

abbreviation newline :: char where
  "newline \<equiv> CHR ''\<newline>''"

abbreviation tab :: char where
  "tab \<equiv> CHR 0x09"

text \<open>The lines that awk reads from \<open>printf '%s\n' "$@"\<close>.\<close>

definition records :: "string list \<Rightarrow> string list" where
  "records args = (if args = [] then [[]] else concat (map (split_on newline) args))"

text \<open>
  An unquoted \<open>$(...)\<close> that prints these lines: they are split at blanks, empty words disappear,
  and every word is expanded.
\<close>

definition blank :: "char \<Rightarrow> bool" where
  "blank c \<longleftrightarrow> c = CHR '' '' \<or> c = tab \<or> c = newline"

fun words :: "string \<Rightarrow> string list" where
  "words [] = []"
| "words (c # s) =
     (if blank c then words s
      else if s = [] \<or> blank (hd s) then [c] # words s
      else (case words s of [] \<Rightarrow> [[c]] | w # ws \<Rightarrow> (c # w) # ws))"

definition substituted :: "shell \<Rightarrow> string list \<Rightarrow> string list" where
  "substituted sh ls = concat (map (sh_glob sh) (concat (map words ls)))"

section \<open>The three awk programs\<close>

text \<open>\<open>/^-sandbox$/{skip=2} skip>0{skip--; next} {print}\<close>\<close>

fun strip_sandbox :: "nat \<Rightarrow> string list \<Rightarrow> string list" where
  "strip_sandbox skip [] = []"
| "strip_sandbox skip (l # ls) =
     (let skip = (if l = ''-sandbox'' then 2 else skip)
      in if skip > 0 then strip_sandbox (skip - 1) ls else l # strip_sandbox skip ls)"

definition dquote :: char where
  "dquote = CHR 0x22"

text \<open>A field of a JSON object, \<open>"key":"value"\<close>.\<close>

definition json_field :: "string \<Rightarrow> string \<Rightarrow> string" where
  "json_field k v = dquote # k @ [dquote, CHR '':'', dquote] @ v @ [dquote]"

text \<open>\<open>match($0, /"node-name":"[^"]+"/)\<close>, and the name in the leftmost match.\<close>

definition node_key :: string where
  "node_key = dquote # ''node-name'' @ [dquote, CHR '':'', dquote]"

definition node_here :: "string \<Rightarrow> string option" where
  "node_here s =
     (let r = drop (length node_key) s; n = takeWhile (\<lambda>c. c \<noteq> dquote) r
      in if prefix node_key s \<and> n \<noteq> [] \<and> n \<noteq> r then Some n else None)"

fun match_node :: "string \<Rightarrow> string option" where
  "match_node [] = None"
| "match_node (c # s) = (case node_here (c # s) of Some n \<Rightarrow> Some n | None \<Rightarrow> match_node s)"

text \<open>The name printed for a line; without a match \<open>substr\<close> gives the empty string.\<close>

definition node_name :: "string \<Rightarrow> string" where
  "node_name l = (case match_node l of Some n \<Rightarrow> n | None \<Rightarrow> [])"

definition qcow2_file :: "string \<Rightarrow> bool" where
  "qcow2_file l \<longleftrightarrow> sublist (json_field ''driver'' ''file'') l \<and> sublist (''.qcow2'' @ [dquote]) l"

fun qcow2_nodes :: "bool \<Rightarrow> string list \<Rightarrow> string list" where
  "qcow2_nodes nxt [] = []"
| "qcow2_nodes nxt (l # ls) =
     (if l = ''-blockdev'' then qcow2_nodes True ls
      else if nxt \<and> qcow2_file l then node_name l # qcow2_nodes False ls
      else qcow2_nodes False ls)"

definition format_node :: "string \<Rightarrow> string" where
  "format_node nd = ''{'' @ json_field ''driver'' ''qcow2'' @ '','' @ json_field ''file'' nd @ '',''
     @ json_field ''node-name'' (nd @ ''-fmt'') @ ''}''"

text \<open>The keys of \<open>qmap\<close>.\<close>

definition node_keys :: "shell \<Rightarrow> string list \<Rightarrow> string list" where
  "node_keys sh nodes =
     awk_order sh (remdups (filter (\<lambda>n. n \<noteq> []) (split_on newline (awk_escapes sh (join_with [newline] nodes)))))"

fun add_formats :: "shell \<Rightarrow> string list \<Rightarrow> bool \<Rightarrow> string list \<Rightarrow> string list" where
  "add_formats sh qmap nxt [] = []"
| "add_formats sh qmap nxt (l # ls) =
     (if l = ''-blockdev'' then l # add_formats sh qmap True ls
      else if nxt
      then l # concat (map (\<lambda>nd. if awk_match sh (json_field ''node-name'' nd) l
                                 then [''-blockdev'', format_node nd] else []) qmap)
           @ add_formats sh qmap False ls
      else foldl (\<lambda>line nd. awk_gsub sh (json_field ''drive'' nd) (json_field ''drive'' (nd @ ''-fmt'')) line) l qmap
           # add_formats sh qmap False ls)"

section \<open>The script\<close>

definition net_args :: "string list" where
  "net_args = [''-netdev'', ''user,id=net0,hostfwd=tcp:0.0.0.0:22-:22'',
     ''-device'', ''virtio-net-pci-non-transitional,netdev=net0'']"

text \<open>The arguments of \<open>/usr/libexec/qemu-kvm-real\<close> when the wrapper is given \<open>args\<close>.\<close>

definition wrapper_args :: "shell \<Rightarrow> string list \<Rightarrow> string list" where
  "wrapper_args sh args =
     (if list_ex (prefix ''guest='') args
      then
        let args = substituted sh (strip_sandbox 0 (records args));
            nodes = qcow2_nodes False (records args);
            args = (if list_ex (\<lambda>n. n \<noteq> []) nodes
                    then substituted sh (add_formats sh (node_keys sh nodes) False (records args))
                    else args)
        in args @ net_args
      else args)"

section \<open>Words\<close>

text \<open>A string that is one word for the shell.\<close>

definition solid :: "string \<Rightarrow> bool" where
  "solid w \<longleftrightarrow> w \<noteq> [] \<and> list_all (\<lambda>c. \<not> blank c) w"

lemma words_solid: "solid w \<Longrightarrow> words w = [w]"
proof (induction w)
  case (Cons c w)
  then show ?case by (cases w) (auto simp: solid_def)
qed (simp add: solid_def)

lemma solid_Cons: "solid (c # w) \<longleftrightarrow> \<not> blank c \<and> (w = [] \<or> solid w)"
  by (auto simp: solid_def)

lemma words_are_solid: "list_all solid (words s)"
proof (induction s)
  case (Cons c s)
  then show ?case by (cases "words s") (simp_all add: solid_Cons)
qed simp

lemma solid_no_newline: "solid w \<Longrightarrow> newline \<notin> set w"
  by (auto simp: solid_def blank_def list_all_iff)

lemma records_solid: "list_all solid args \<Longrightarrow> args \<noteq> [] \<Longrightarrow> records args = args"
proof -
  have "concat (map (split_on newline) args) = args" if "list_all solid args"
    using that by (induction args) (auto simp: split_on_none solid_no_newline)
  then show "list_all solid args \<Longrightarrow> args \<noteq> [] \<Longrightarrow> records args = args" by (simp add: records_def)
qed

text \<open>Pathname expansion leaves a word alone that is the pattern of no file.\<close>

definition no_file_matches :: "shell \<Rightarrow> bool" where
  "no_file_matches sh \<longleftrightarrow> (\<forall>w. sh_glob sh w = [w])"

lemma substituted_no_file:
  assumes "no_file_matches sh"
  shows "substituted sh ls = concat (map words ls)"
proof -
  have "sh_glob sh = (\<lambda>w. [w])" using assms by (simp add: no_file_matches_def fun_eq_iff)
  then show ?thesis by (simp add: substituted_def)
qed

lemma words_all_solid: "list_all solid ls \<Longrightarrow> concat (map words ls) = ls"
  by (induction ls) (auto simp: words_solid)

lemma substituted_solid: "no_file_matches sh \<Longrightarrow> list_all solid ls \<Longrightarrow> substituted sh ls = ls"
  by (simp add: substituted_no_file words_all_solid)

lemma substituted_words: "no_file_matches sh \<Longrightarrow> list_all solid (substituted sh ls)"
  using words_are_solid by (simp add: substituted_no_file list_all_iff)

lemma solid_net_args: "list_all solid net_args"
  by (simp add: net_args_def solid_def blank_def)

section \<open>Stripping\<close>

text \<open>The reference: neither the option nor what stands after it.\<close>

definition unsandboxed :: "string list \<Rightarrow> string list" where
  "unsandboxed args =
     map snd (filter (\<lambda>(before, l). before \<noteq> ''-sandbox'' \<and> l \<noteq> ''-sandbox'') (zip ([] # args) args))"

lemma strip_sandbox_from:
  "strip_sandbox (if before = ''-sandbox'' then 1 else 0) ls =
     map snd (filter (\<lambda>(before, l). before \<noteq> ''-sandbox'' \<and> l \<noteq> ''-sandbox'') (zip (before # ls) ls))"
proof (induction ls arbitrary: before)
  case (Cons l ls)
  show ?case
    using Cons.IH [of l] by (cases "l = ''-sandbox''"; cases "before = ''-sandbox''") (simp_all add: Let_def)
qed simp

lemma strip_unsandboxed: "strip_sandbox 0 args = unsandboxed args"
  using strip_sandbox_from [of "[]" args] by (simp add: unsandboxed_def)

lemma strip_subset: "set (strip_sandbox k ls) \<subseteq> set ls"
  by (induction k ls rule: strip_sandbox.induct) (auto simp: Let_def)

lemma strip_no_sandbox: "''-sandbox'' \<notin> set (strip_sandbox k ls)"
  by (induction k ls rule: strip_sandbox.induct) (auto simp: Let_def)

lemma strip_id: "''-sandbox'' \<notin> set ls \<Longrightarrow> strip_sandbox 0 ls = ls"
  by (induction ls) auto

section \<open>Literal expressions\<close>

text \<open>All non-overlapping occurrences, from the left.\<close>

function replace_all :: "string \<Rightarrow> string \<Rightarrow> string \<Rightarrow> string" where
  "replace_all p r s =
     (case s of [] \<Rightarrow> []
      | c # cs \<Rightarrow> if p \<noteq> [] \<and> prefix p s then r @ replace_all p r (drop (length p) s) else c # replace_all p r cs)"
  by pat_completeness auto
termination
  by (relation "measure (\<lambda>(p, r, s). length s)") auto

declare replace_all.simps [simp del]

text \<open>What awk is documented to do where nothing has a special meaning in an expression.\<close>

definition literal :: "string \<Rightarrow> bool" where
  "literal s \<longleftrightarrow> list_all (\<lambda>c. c \<noteq> CHR 0x5C \<and> c \<notin> set ''^$.[]|()*+?{}/&'') s"

definition awk_documented :: "shell \<Rightarrow> bool" where
  "awk_documented sh \<longleftrightarrow>
     (\<forall>p s. literal p \<longrightarrow> awk_match sh p s = sublist p s)
     \<and> (\<forall>p r s. literal p \<longrightarrow> literal r \<longrightarrow> awk_gsub sh p r s = replace_all p r s)
     \<and> (\<forall>s. CHR 0x5C \<notin> set s \<longrightarrow> awk_escapes sh s = s)
     \<and> (\<forall>ks. set (awk_order sh ks) = set ks \<and> (distinct ks \<longrightarrow> distinct (awk_order sh ks)))"

lemma replace_all_Nil [simp]: "replace_all p r [] = []"
  by (simp add: replace_all.simps)

lemma replace_all_Cons:
  "replace_all p r (c # cs) =
     (if p \<noteq> [] \<and> prefix p (c # cs) then r @ replace_all p r (drop (length p) (c # cs)) else c # replace_all p r cs)"
  by (subst replace_all.simps) simp

lemma replace_all_id: "\<not> sublist p s \<Longrightarrow> replace_all p r s = s"
proof (induction s)
  case (Cons c cs)
  then have "\<not> prefix p (c # cs)" "\<not> sublist p cs" by (auto simp: sublist_Cons_right)
  then show ?case using Cons.IH by (simp add: replace_all_Cons)
qed simp

lemma replace_all_at: "p \<noteq> [] \<Longrightarrow> replace_all p r (p @ s) = r @ replace_all p r s"
  by (cases p) (simp_all add: replace_all.simps [of _ _ "_ # _"])

lemma replace_all_chars: "set (replace_all p r s) \<subseteq> set r \<union> set s"
proof (induction s rule: length_induct)
  case (1 s)
  show ?case
  proof (cases s)
    case (Cons c cs)
    have "length (drop (length p) s) < length s" if "p \<noteq> []" using that Cons by simp
    then have "p \<noteq> [] \<Longrightarrow> set (replace_all p r (drop (length p) s)) \<subseteq> set r \<union> set s"
      using 1 set_drop_subset [of "length p" s] by blast
    moreover have "set (replace_all p r cs) \<subseteq> set r \<union> set s" using 1 Cons by auto
    ultimately show ?thesis using Cons by (auto simp: replace_all_Cons)
  qed simp
qed

lemma replace_all_keeps: "x \<in> set r \<Longrightarrow> x \<in> set s \<Longrightarrow> x \<in> set (replace_all p r s)"
proof (induction s)
  case (Cons c cs)
  then show ?case by (auto simp: replace_all_Cons)
qed simp

lemma replace_all_nonempty: "r \<noteq> [] \<Longrightarrow> s \<noteq> [] \<Longrightarrow> replace_all p r s \<noteq> []"
  by (subst replace_all.simps) (auto split: list.splits)

section \<open>What a launch comes to\<close>

text \<open>
  The reference: every argument with the one before it. After a block device whose node is one of
  the given names comes a format node on top of it; elsewhere references to the nodes are
  turned to their format nodes.
\<close>

definition redirect :: "string list \<Rightarrow> string \<Rightarrow> string" where
  "redirect ns l = foldl (\<lambda>l n. replace_all (json_field ''drive'' n) (json_field ''drive'' (n @ ''-fmt'')) l) l ns"

definition launch_arg :: "string list \<Rightarrow> string \<times> string \<Rightarrow> string list" where
  "launch_arg ns = (\<lambda>(before, l).
     if l = ''-blockdev'' then [l]
     else if before = ''-blockdev''
     then l # concat (map (\<lambda>n. [''-blockdev'', format_node n]) (filter (\<lambda>n. sublist (json_field ''node-name'' n) l) ns))
     else [redirect ns l])"

lemma launch_arg_simps:
  "launch_arg ns (before, ''-blockdev'') = [''-blockdev'']"
  "l \<noteq> ''-blockdev'' \<Longrightarrow> launch_arg ns (''-blockdev'', l) =
     l # concat (map (\<lambda>n. [''-blockdev'', format_node n]) (filter (\<lambda>n. sublist (json_field ''node-name'' n) l) ns))"
  "l \<noteq> ''-blockdev'' \<Longrightarrow> before \<noteq> ''-blockdev'' \<Longrightarrow> launch_arg ns (before, l) = [redirect ns l]"
  by (simp_all add: launch_arg_def)

definition launch :: "string list \<Rightarrow> string list \<Rightarrow> string list" where
  "launch ns args = concat (map (launch_arg ns) (zip ([] # args) args))"

definition plain_node :: "string \<Rightarrow> bool" where
  "plain_node n \<longleftrightarrow> solid n \<and> literal n"

lemma literal_field: "literal k \<Longrightarrow> literal v \<Longrightarrow> literal (json_field k v)"
  by (simp add: literal_def json_field_def dquote_def)

lemma solid_append: "solid a \<Longrightarrow> solid b \<Longrightarrow> solid (a @ b)"
  by (simp add: solid_def)

lemma solid_field: "solid k \<Longrightarrow> solid v \<Longrightarrow> solid (json_field k v)"
  by (simp add: solid_def json_field_def dquote_def blank_def)

lemma solid_consts:
  "solid ''-fmt''" "solid ''drive''" "solid ''driver''" "solid ''qcow2''" "solid ''file''" "solid ''node-name''"
  "solid ''{''" "solid '',''" "solid ''}''" "solid ''-blockdev''"
  by (simp_all add: solid_def blank_def)

lemma literal_consts: "literal ''drive''" "literal ''node-name''" "literal ''-fmt''"
  by (simp_all add: literal_def)

lemma literal_append: "literal a \<Longrightarrow> literal b \<Longrightarrow> literal (a @ b)"
  by (simp add: literal_def)

lemma solid_format_node: "solid n \<Longrightarrow> solid (format_node n)"
  unfolding format_node_def by (intro solid_append solid_field solid_consts)

lemma solid_replace_all: "solid r \<Longrightarrow> solid s \<Longrightarrow> solid (replace_all p r s)"
  using replace_all_chars [of p r s] replace_all_nonempty [of r s p]
  by (auto simp: solid_def list_all_iff)

lemma solid_redirect: "list_all plain_node ns \<Longrightarrow> solid l \<Longrightarrow> solid (redirect ns l)"
proof (induction ns arbitrary: l)
  case (Cons n ns)
  have "solid (json_field ''drive'' (n @ ''-fmt''))"
    using Cons.prems(1) by (intro solid_field solid_append solid_consts) (simp add: plain_node_def)
  then have "solid (replace_all (json_field ''drive'' n) (json_field ''drive'' (n @ ''-fmt'')) l)"
    using Cons.prems(2) by (rule solid_replace_all)
  then show ?case using Cons.IH Cons.prems(1) by (simp add: redirect_def)
qed (simp add: redirect_def)

lemma solid_launch_arg:
  assumes "list_all plain_node ns" and "solid l"
  shows "list_all solid (launch_arg ns (before, l))"
proof -
  have "solid (format_node n)" if "n \<in> set ns" for n
    using assms(1) that by (auto simp: list_all_iff plain_node_def intro: solid_format_node)
  then show ?thesis
    using solid_redirect [OF assms] assms(2) solid_consts(10)
    by (auto simp: launch_arg_def list_all_iff)
qed

lemma solid_launch:
  assumes "list_all plain_node ns" and "list_all solid args"
  shows "list_all solid (launch ns args)"
proof -
  have "list_all solid (launch_arg ns x)" if "x \<in> set (zip ([] # args) args)" for x
  proof -
    obtain before l where x: "x = (before, l)" by fastforce
    then have "l \<in> set args" using that set_zip_rightD by metis
    then have "solid l" using assms(2) by (simp add: list_all_iff)
    then show ?thesis unfolding x by (rule solid_launch_arg [OF assms(1)])
  qed
  then show ?thesis unfolding launch_def by (simp add: list_all_iff)
qed

text \<open>The second program computes it.\<close>

lemma gsub_redirect:
  assumes "awk_documented sh" and "list_all plain_node ns"
  shows "foldl (\<lambda>line nd. awk_gsub sh (json_field ''drive'' nd) (json_field ''drive'' (nd @ ''-fmt'')) line) l ns = redirect ns l"
proof -
  have "awk_gsub sh (json_field ''drive'' n) (json_field ''drive'' (n @ ''-fmt'')) l
      = replace_all (json_field ''drive'' n) (json_field ''drive'' (n @ ''-fmt'')) l" if "plain_node n" for n l
    using assms(1) that literal_field literal_append literal_consts unfolding awk_documented_def plain_node_def by metis
  then show ?thesis
    using assms(2) unfolding redirect_def by (induction ns arbitrary: l) simp_all
qed

lemma match_nodes:
  assumes "awk_documented sh" and "list_all plain_node ns"
  shows "concat (map (\<lambda>nd. if awk_match sh (json_field ''node-name'' nd) l then [''-blockdev'', format_node nd] else []) ns)
    = concat (map (\<lambda>n. [''-blockdev'', format_node n]) (filter (\<lambda>n. sublist (json_field ''node-name'' n) l) ns))"
proof -
  have "awk_match sh (json_field ''node-name'' n) l = sublist (json_field ''node-name'' n) l" if "plain_node n" for n
    using assms(1) that literal_field literal_consts unfolding awk_documented_def plain_node_def by metis
  then show ?thesis using assms(2) by (induction ns) simp_all
qed

lemma add_formats_launch:
  assumes "awk_documented sh" and "list_all plain_node ns"
  shows "add_formats sh ns (before = ''-blockdev'') ls = concat (map (launch_arg ns) (zip (before # ls) ls))"
proof (induction ls arbitrary: before)
  case (Cons l ls)
  consider "l = ''-blockdev''" | "l \<noteq> ''-blockdev''" "before = ''-blockdev''" | "l \<noteq> ''-blockdev''" "before \<noteq> ''-blockdev''"
    by blast
  then show ?case
    using Cons.IH [of l] gsub_redirect [OF assms] match_nodes [OF assms]
    by cases (simp_all add: launch_arg_simps)
qed simp

lemma launch_none: "launch [] args = args"
proof -
  have "launch_arg [] x = [snd x]" for x
    by (cases x) (simp add: launch_arg_def redirect_def)
  then have "launch_arg [] = (\<lambda>x. [snd x])" by blast
  then have "launch [] args = map snd (zip ([] # args) args)" unfolding launch_def by simp
  then show ?thesis by (simp add: map_snd_zip_take)
qed

section \<open>The whole script\<close>

lemma node_keys_plain:
  assumes "awk_documented sh" and "list_all (\<lambda>n. n = [] \<or> plain_node n) nodes" and "nodes \<noteq> []"
  shows "set (node_keys sh nodes) = set nodes - {[]}" and "distinct (node_keys sh nodes)"
proof -
  let ?j = "join_with [newline] nodes"
  have c: "newline \<notin> set n \<and> CHR 0x5C \<notin> set n" if "n \<in> set nodes" for n
  proof (cases "n = []")
    case False
    then have "solid n" "literal n" using assms(2) that by (auto simp: list_all_iff plain_node_def)
    then show ?thesis using solid_no_newline unfolding literal_def list_all_iff by blast
  qed simp
  have "set ?j \<subseteq> insert newline (\<Union>(set ` set nodes))"
    by (induction "[newline]" nodes rule: join_with.induct) auto
  moreover have "CHR 0x5C \<noteq> newline" by simp
  ultimately have "CHR 0x5C \<notin> set ?j" using c by blast
  then have "awk_escapes sh ?j = ?j" using assms(1) by (simp add: awk_documented_def)
  moreover have "split_on newline ?j = nodes" using split_join [OF assms(3)] c by blast
  ultimately have k: "node_keys sh nodes = awk_order sh (remdups (filter (\<lambda>n. n \<noteq> []) nodes))"
    by (simp add: node_keys_def)
  then show "set (node_keys sh nodes) = set nodes - {[]}" "distinct (node_keys sh nodes)"
    using assms(1) by (auto simp: awk_documented_def)
qed

lemma wrapper_other: "\<not> list_ex (prefix ''guest='') args \<Longrightarrow> wrapper_args sh args = args"
  unfolding wrapper_args_def by simp

lemma wrapper_words: "list_ex (prefix ''guest='') args \<Longrightarrow> no_file_matches sh \<Longrightarrow> list_all solid (wrapper_args sh args)"
  using substituted_words solid_net_args unfolding wrapper_args_def Let_def by simp

lemma guest_stays:
  assumes "list_all solid args" and "args \<noteq> []" and "no_file_matches sh"
  shows "substituted sh (strip_sandbox 0 (records args)) = strip_sandbox 0 args"
proof -
  have "list_all solid (strip_sandbox 0 args)" using assms(1) strip_subset [of 0 args] by (auto simp: list_all_iff)
  then show ?thesis using records_solid [OF assms(1,2)] substituted_solid [OF assms(3)] by simp
qed

lemma redirect_or_quoted: "redirect ns l = l \<or> dquote \<in> set (redirect ns l)"
proof -
  define g where "g = (\<lambda>l n. replace_all (json_field ''drive'' n) (json_field ''drive'' (n @ ''-fmt'')) l)"
  have d: "dquote \<in> set (json_field k v)" for k v by (simp add: json_field_def)
  have q: "dquote \<in> set m \<Longrightarrow> dquote \<in> set (g m n)" for m n
    unfolding g_def by (rule replace_all_keeps [OF d])
  have r: "g m n = m \<or> dquote \<in> set m" for m n
  proof (cases "sublist (json_field ''drive'' n) m")
    case True
    then show ?thesis using d set_mono_sublist by blast
  qed (simp add: g_def replace_all_id)
  have "foldl g m ns = m \<or> dquote \<in> set (foldl g m ns)" for m
  proof (induction ns arbitrary: m)
    case (Cons n ns)
    show ?case using Cons.IH [of "g m n"] q [of m n] r [of m n] r [of "g m n" ] by fastforce
  qed simp
  then show ?thesis unfolding redirect_def g_def .
qed

text \<open>The arguments that define block devices, and the nodes of those that are qcow2 files.\<close>

definition blockdevs :: "string list \<Rightarrow> string set" where
  "blockdevs args = {l. (''-blockdev'', l) \<in> set (zip ([] # args) args) \<and> l \<noteq> ''-blockdev''}"

definition qcow2_targets :: "string list \<Rightarrow> string set" where
  "qcow2_targets args = node_name ` {l \<in> blockdevs args. qcow2_file l} - {[]}"

lemma qcow2_nodes_set:
  "set (qcow2_nodes (before = ''-blockdev'') ls) =
     node_name ` {l. (''-blockdev'', l) \<in> set (zip (before # ls) ls) \<and> l \<noteq> ''-blockdev'' \<and> qcow2_file l}"
proof (induction ls arbitrary: before)
  case (Cons l ls)
  show ?case
    using Cons.IH [of l] by (cases "l = ''-blockdev''"; cases "before = ''-blockdev'' \<and> qcow2_file l") auto
qed simp

lemma qcow2_nodes_targets: "set (qcow2_nodes False args) - {[]} = qcow2_targets args"
proof -
  have "(False = ([] = ''-blockdev''))" by simp
  then show ?thesis
    using qcow2_nodes_set [of "[]" args] by (simp add: qcow2_targets_def blockdevs_def conj_assoc)
qed

lemma launch_no_sandbox:
  assumes "''-sandbox'' \<notin> set args"
  shows "''-sandbox'' \<notin> set (launch ns args)"
proof -
  have r: "redirect ns l \<noteq> ''-sandbox''" if "l \<noteq> ''-sandbox''" for l
    using redirect_or_quoted [of ns l] that by (auto simp: dquote_def)
  have "''-sandbox'' \<notin> set (launch_arg ns (before, l))" if "l \<in> set args" for before l
  proof -
    have "l \<noteq> ''-sandbox''" using assms that by blast
    then have "redirect ns l \<noteq> ''-sandbox''" "l \<noteq> ''-sandbox''" using r by blast+
    then show ?thesis by (auto simp: launch_arg_def format_node_def)
  qed
  then show ?thesis by (auto simp: launch_def dest: set_zip_rightD)
qed

lemma wrapper_launches:
  assumes "no_file_matches sh" and "awk_documented sh" and "list_all solid args" and "list_ex (prefix ''guest='') args"
    and "\<forall>n\<in>qcow2_targets (strip_sandbox 0 args). plain_node n"
  obtains ns where "set ns = qcow2_targets (strip_sandbox 0 args)" and "distinct ns"
    and "wrapper_args sh args = launch ns (strip_sandbox 0 args) @ net_args"
proof -
  let ?a = "strip_sandbox 0 args"
  have "args \<noteq> []" using assms(4) by auto
  then have a: "substituted sh (strip_sandbox 0 (records args)) = ?a" using guest_stays assms(1,3) by blast
  have sa: "list_all solid ?a" using assms(3) strip_subset [of 0 args] by (auto simp: list_all_iff)
  show ?thesis
  proof (cases "qcow2_targets ?a = {}")
    case True
    have "\<not> list_ex (\<lambda>n. n \<noteq> []) (qcow2_nodes False (records ?a))"
    proof (cases "?a = []")
      case False
      then show ?thesis using True records_solid [OF sa False] qcow2_nodes_targets [of ?a] by (auto simp: list_ex_iff)
    qed (simp add: records_def)
    then have "wrapper_args sh args = launch [] ?a @ net_args"
      using assms(4) a by (simp add: wrapper_args_def Let_def launch_none)
    then show ?thesis using True by (intro that [of "[]"]) simp_all
  next
    case False
    then have "?a \<noteq> []" by (auto simp: qcow2_targets_def blockdevs_def)
    then have rec: "records ?a = ?a" by (rule records_solid [OF sa])
    let ?nodes = "qcow2_nodes False ?a"
    have t: "set ?nodes - {[]} = qcow2_targets ?a" by (rule qcow2_nodes_targets)
    have "n = [] \<or> plain_node n" if "n \<in> set ?nodes" for n using assms(5) t that by blast
    then have pl: "list_all (\<lambda>n. n = [] \<or> plain_node n) ?nodes" unfolding list_all_iff by blast
    obtain m where m: "m \<in> set ?nodes" "m \<noteq> []" using False t by blast
    then have "?nodes \<noteq> []" by force
    note k = node_keys_plain [OF assms(2) pl this, unfolded t]
    have kp: "list_all plain_node (node_keys sh ?nodes)" unfolding list_all_iff k(1) by (rule assms(5))
    have "add_formats sh (node_keys sh ?nodes) False ?a = launch (node_keys sh ?nodes) ?a"
      using add_formats_launch [OF assms(2) kp, of "[]" ?a] by (simp add: launch_def)
    then have "substituted sh (add_formats sh (node_keys sh ?nodes) False ?a) = launch (node_keys sh ?nodes) ?a"
      using substituted_solid [OF assms(1) solid_launch [OF kp sa]] by simp
    moreover have "list_ex (\<lambda>n. n \<noteq> []) ?nodes" using m unfolding list_ex_iff by blast
    ultimately have "wrapper_args sh args = launch (node_keys sh ?nodes) ?a @ net_args"
      using assms(4) a rec by (simp add: wrapper_args_def Let_def)
    then show ?thesis using that k by blast
  qed
qed

section \<open>Properties\<close>

text \<open>
  C13: What a launch comes to. When no argument has blanks in it and the names of the nodes are plain,
  the real QEMU gets the arguments of libvirt without \<open>-sandbox\<close> and its value. After every
  block device that is a qcow2 file comes a format node on it. Every reference to its node is
  turned to the format node, and nothing else changes. The network arguments come last.
\<close>

theorem wrapper_launch:
  assumes "no_file_matches sh" and "awk_documented sh" and "list_all solid args" and "list_ex (prefix ''guest='') args"
    and "\<forall>n\<in>qcow2_targets (unsandboxed args). plain_node n"
  shows "\<exists>ns. set ns = qcow2_targets (unsandboxed args) \<and> distinct ns
    \<and> wrapper_args sh args = launch ns (unsandboxed args) @ net_args
    \<and> ''-sandbox'' \<notin> set (wrapper_args sh args)"
proof -
  obtain ns where ns: "set ns = qcow2_targets (unsandboxed args)" "distinct ns"
    "wrapper_args sh args = launch ns (unsandboxed args) @ net_args"
    by (rule wrapper_launches [OF assms(1-4), unfolded strip_unsandboxed]) (use assms(5) in blast)+
  have "''-sandbox'' \<notin> set net_args" by (simp add: net_args_def)
  then have "''-sandbox'' \<notin> set (wrapper_args sh args)"
    using ns(3) launch_no_sandbox [OF strip_no_sandbox [of 0 args]] strip_unsandboxed by simp
  then show ?thesis using ns by blast
qed

text \<open>A shell in a directory without matching files, and an awk that takes every expression literally.\<close>

definition plain_shell :: shell where
  "plain_shell = \<lparr>sh_glob = (\<lambda>w. [w]), awk_match = sublist, awk_gsub = replace_all,
     awk_escapes = (\<lambda>s. s), awk_order = (\<lambda>ks. ks)\<rparr>"

definition sample_blockdev :: string where
  "sample_blockdev = ''{'' @ json_field ''driver'' ''file'' @ '','' @ json_field ''filename'' ''/d/a.qcow2'' @ '',''
     @ json_field ''node-name'' ''n1'' @ ''}''"

definition sample_args :: "string list" where
  "sample_args = [''-name'', ''guest=vm1'', ''-sandbox'', ''on'', ''-blockdev'', sample_blockdev,
     ''-device'', ''{'' @ json_field ''drive'' ''n1'' @ ''}'']"

lemma plain_shell_documented: "no_file_matches plain_shell" "awk_documented plain_shell"
  by (simp_all add: no_file_matches_def awk_documented_def plain_shell_def)

lemma sample_args_solid: "list_all solid sample_args"
  by (simp add: sample_args_def sample_blockdev_def json_field_def dquote_def solid_def blank_def)

lemma sample_stripped:
  "strip_sandbox 0 sample_args = [''-name'', ''guest=vm1'', ''-blockdev'', sample_blockdev,
     ''-device'', ''{'' @ json_field ''drive'' ''n1'' @ ''}'']"
  by (simp add: sample_args_def sample_blockdev_def)

lemma sample_qcow2: "qcow2_file sample_blockdev" "node_name sample_blockdev = ''n1''"
  by (simp_all add: qcow2_file_def node_name_def node_here_def node_key_def sample_blockdev_def json_field_def dquote_def
      sublist_Cons_right)

lemma sample_targets: "qcow2_targets (strip_sandbox 0 sample_args) = {''n1''}"
proof -
  have "sample_blockdev \<noteq> ''-blockdev''" by (simp add: sample_blockdev_def)
  then have "qcow2_nodes False (strip_sandbox 0 sample_args) = [''n1'']"
    by (simp add: sample_stripped sample_qcow2)
  then show ?thesis using qcow2_nodes_targets [of "strip_sandbox 0 sample_args"] by simp
qed

lemma sample_launch:
  "launch [''n1''] (strip_sandbox 0 sample_args) = [''-name'', ''guest=vm1'', ''-blockdev'', sample_blockdev,
     ''-blockdev'', format_node ''n1'', ''-device'', ''{'' @ json_field ''drive'' ''n1-fmt'' @ ''}'']"
proof -
  have "sample_blockdev \<noteq> ''-blockdev''" "sublist (json_field ''node-name'' ''n1'') sample_blockdev"
    by (simp_all add: sample_blockdev_def json_field_def dquote_def sublist_Cons_right)
  moreover have "redirect [''n1''] s = s" if "s \<in> {''-name'', ''guest=vm1'', ''-device''}" for s
    using that redirect_or_quoted [of "[''n1'']" s] by (auto simp: redirect_def json_field_def dquote_def replace_all_Cons)
  moreover have "redirect [''n1''] (''{'' @ json_field ''drive'' ''n1'' @ ''}'') = ''{'' @ json_field ''drive'' ''n1-fmt'' @ ''}''"
    by (simp add: redirect_def json_field_def dquote_def replace_all_Cons)
  ultimately show ?thesis by (simp add: launch_def sample_stripped launch_arg_simps)
qed

theorem wrapper_launch_witness:
  "wrapper_args plain_shell sample_args = [''-name'', ''guest=vm1'', ''-blockdev'', sample_blockdev,
     ''-blockdev'', format_node ''n1'', ''-device'', ''{'' @ json_field ''drive'' ''n1-fmt'' @ ''}''] @ net_args"
proof -
  have "list_ex (prefix ''guest='') sample_args" by (simp add: sample_args_def)
  moreover have "\<forall>n\<in>qcow2_targets (unsandboxed sample_args). plain_node n"
    unfolding sample_targets [unfolded strip_unsandboxed] by (simp add: plain_node_def solid_def blank_def literal_def)
  ultimately obtain ns where ns: "set ns = {''n1''}" "distinct ns"
    "wrapper_args plain_shell sample_args = launch ns (unsandboxed sample_args) @ net_args"
    using wrapper_launch [OF plain_shell_documented sample_args_solid] sample_targets [unfolded strip_unsandboxed] by auto
  have "ns = [''n1'']" using ns(1,2) by (cases ns; cases "tl ns") auto
  then show ?thesis using ns(3) sample_launch [unfolded strip_unsandboxed] by simp
qed

end
