(* ===== verification/WrapperProps.thy ===== *)
theory WrapperProps
  imports QemuWrapper ConverterFacts
begin

text \<open>
  The QEMU wrapper and the converter together: which images that \<open>ToVMI\<close> mounts into the
  container the wrapper takes for qcow2, and which paths it cannot hand over.
\<close>

section \<open>Where a pattern ends in a quote\<close>

lemma after_quote:
  assumes "q \<notin> set x" and e: "a @ q # r = u @ x"
  obtains t where "r = t @ x"
proof -
  obtain us where "a = u @ us \<and> us @ q # r = x \<or> a @ us = u \<and> q # r = us @ x"
    using e unfolding append_eq_append_conv2 [of a "q # r" u x] by blast
  then have "q # r = us @ x" using assms(1) by auto
  then show ?thesis using that assms(1) by (cases us) auto
qed

lemma ends_in_quote:
  assumes "q \<notin> set x"
  shows "sublist (x @ [q]) (a @ q # b) \<longleftrightarrow> sublist (x @ [q]) (a @ [q]) \<or> sublist (x @ [q]) b"
proof
  assume "sublist (x @ [q]) (a @ q # b)"
  then obtain u v where "a @ q # b = u @ (x @ [q]) @ v" by (auto simp: sublist_def)
  then have e: "a @ q # b = (u @ x) @ q # v" by simp
  then obtain us where "a = (u @ x) @ us \<and> us @ q # b = q # v \<or> a @ us = u @ x \<and> q # b = us @ q # v"
    unfolding append_eq_append_conv2 [of a "q # b" "u @ x" "q # v"] by blast
  then show "sublist (x @ [q]) (a @ [q]) \<or> sublist (x @ [q]) b"
  proof
    assume us: "a = (u @ x) @ us \<and> us @ q # b = q # v"
    then have "prefix [q] (us @ [q])" by (cases us) auto
    then obtain r where "us @ [q] = q # r" by (auto simp: prefix_def)
    then have "a @ [q] = u @ (x @ [q]) @ r" using us by simp
    then show ?thesis unfolding sublist_def by blast
  next
    assume us: "a @ us = u @ x \<and> q # b = us @ q # v"
    show ?thesis
    proof (cases us)
      case Nil
      then have "a @ [q] = u @ (x @ [q]) @ []" using us by simp
      then show ?thesis unfolding sublist_def by blast
    next
      case (Cons c r)
      then have b: "c = q" "b = r @ q # v" using us by auto
      have "a @ q # r = u @ x" using us Cons b(1) by simp
      then obtain t where "r = t @ x" by (rule after_quote [OF assms])
      then have "b = t @ (x @ [q]) @ v" using b(2) by simp
      then show ?thesis unfolding sublist_def by blast
    qed
  qed
next
  assume "sublist (x @ [q]) (a @ [q]) \<or> sublist (x @ [q]) b"
  moreover have "sublist (a @ [q]) ((a @ [q]) @ b)" "sublist b ((a @ [q]) @ b)"
    by (rule sublist_append_rightI, rule sublist_append_leftI)
  then have "sublist (a @ [q]) (a @ q # b)" "sublist b (a @ q # b)" by simp_all
  ultimately show "sublist (x @ [q]) (a @ q # b)" using sublist_order.order_trans by blast
qed

lemma ends_at_quote:
  assumes "q \<notin> set a"
  shows "sublist (x @ [q]) (a @ [q]) \<longleftrightarrow> suffix x a"
proof
  assume "sublist (x @ [q]) (a @ [q])"
  then obtain u v where e: "a @ [q] = u @ (x @ [q]) @ v" by (auto simp: sublist_def)
  have "v = []"
  proof (rule ccontr)
    assume "v \<noteq> []"
    then obtain v' z where "v = v' @ [z]" by (metis rev_exhaust)
    then have "a = u @ x @ q # v'" using e by simp
    then show False using assms by simp
  qed
  then show "suffix x a" using e by (auto simp: suffix_def)
next
  assume "suffix x a"
  then obtain u where "a @ [q] = u @ (x @ [q]) @ []" by (auto simp: suffix_def)
  then show "sublist (x @ [q]) (a @ [q])" unfolding sublist_def by blast
qed

section \<open>The block device of an image\<close>

text \<open>
  The argument for a disk, in the form that the script describes:
  \<open>{"driver":"file","filename":"...","node-name":"libvirt-N-storage",...}\<close>.
\<close>

definition file_blockdev :: "string \<Rightarrow> string \<Rightarrow> string \<Rightarrow> string" where
  "file_blockdev p n rest = ''{'' @ json_field ''driver'' ''file'' @ '','' @ json_field ''filename'' p @ '',''
     @ json_field ''node-name'' n @ rest"

lemma qcow2_after_quote:
  "sublist (''.qcow2'' @ [dquote]) (a @ dquote # b) \<longleftrightarrow>
     sublist (''.qcow2'' @ [dquote]) (a @ [dquote]) \<or> sublist (''.qcow2'' @ [dquote]) b"
  by (rule ends_in_quote) (simp add: dquote_def)

lemma qcow2_at_quote:
  "dquote \<notin> set a \<Longrightarrow> sublist (''.qcow2'' @ [dquote]) (a @ [dquote]) \<longleftrightarrow> suffix ''.qcow2'' a"
  by (rule ends_at_quote)

lemma file_blockdev_qcow2:
  assumes "dquote \<notin> set p" and "dquote \<notin> set n" and "\<not> suffix ''.qcow2'' n"
    and "\<not> sublist (''.qcow2'' @ [dquote]) rest"
  shows "qcow2_file (file_blockdev p n rest) \<longleftrightarrow> suffix ''.qcow2'' p"
proof -
  have f: "sublist (''.qcow2'' @ [dquote]) (k @ dquote # l) \<longleftrightarrow> suffix ''.qcow2'' k \<or> sublist (''.qcow2'' @ [dquote]) l"
    if "dquote \<notin> set k" for k l
    by (subst qcow2_after_quote, subst qcow2_at_quote [OF that], rule refl)
  have s: "file_blockdev p n rest = ''{'' @ dquote # ''driver'' @ dquote # '':'' @ dquote # ''file'' @ dquote # '',''
      @ dquote # ''filename'' @ dquote # '':'' @ dquote # p @ dquote # '','' @ dquote # ''node-name'' @ dquote # '':''
      @ dquote # n @ dquote # rest"
    by (simp add: file_blockdev_def json_field_def)
  have c: "dquote \<notin> set k" "\<not> suffix ''.qcow2'' k"
    if "k \<in> {''{'', ''driver'', '':'', ''file'', '','', ''filename'', ''node-name''}" for k
    using that by (auto simp: dquote_def suffix_to_prefix)
  have q: "sublist (''.qcow2'' @ [dquote]) (file_blockdev p n rest) \<longleftrightarrow> suffix ''.qcow2'' p"
    unfolding s using assms by (simp only: f c insert_iff simp_thms)
  have "file_blockdev p n rest = ''{'' @ json_field ''driver'' ''file'' @ ('','' @ json_field ''filename'' p @ '',''
     @ json_field ''node-name'' n @ rest)"
    by (simp add: file_blockdev_def)
  then have "sublist (json_field ''driver'' ''file'') (file_blockdev p n rest)" unfolding sublist_def by blast
  then show ?thesis using q by (simp add: qcow2_file_def)
qed

lemma match_chunk: "dquote \<notin> set k \<Longrightarrow> match_node (k @ s) = match_node s"
proof (induction k)
  case (Cons c k)
  then have "node_here ((c # k) @ s) = None" by (simp add: node_here_def node_key_def)
  then show ?case using Cons by simp
qed simp

lemma node_key_at:
  assumes "dquote \<notin> set k"
  shows "prefix node_key (dquote # k @ dquote # r) \<longleftrightarrow> k = ''node-name'' \<and> prefix [CHR '':'', dquote] r"
proof -
  have q: "prefix (m @ dquote # t) (k @ dquote # r) \<longleftrightarrow> k = m \<and> prefix t r" if "dquote \<notin> set m" for m t
    using that assms
  proof (induction m arbitrary: k)
    case Nil
    then show ?case by (cases k) auto
  next
    case (Cons c m)
    then show ?case by (cases k) auto
  qed
  have "dquote \<notin> set ''node-name''" by (simp add: dquote_def)
  from q [OF this, of "[CHR '':'', dquote]"] show ?thesis by (simp add: node_key_def)
qed

lemma match_field:
  assumes "dquote \<notin> set k" and "k \<noteq> ''node-name'' \<or> \<not> prefix [CHR '':'', dquote] r"
  shows "match_node (dquote # k @ dquote # r) = match_node (dquote # r)"
proof -
  have "\<not> prefix node_key (dquote # k @ dquote # r)" using assms(2) node_key_at [OF assms(1)] by blast
  then have "node_here (dquote # k @ dquote # r) = None" unfolding node_here_def Let_def by simp
  then have "match_node (dquote # k @ dquote # r) = match_node (k @ dquote # r)" by simp
  then show ?thesis using match_chunk [OF assms(1)] by simp
qed

lemma match_named:
  assumes "dquote \<notin> set n" and "n \<noteq> []"
  shows "match_node (json_field ''node-name'' n @ r) = Some n"
proof -
  have e: "json_field ''node-name'' n @ r = node_key @ n @ dquote # r" by (simp add: json_field_def node_key_def)
  have "takeWhile (\<lambda>c. c \<noteq> dquote) (n @ dquote # r) = n"
    using assms(1) by (induction n) auto
  then have "node_here (node_key @ n @ dquote # r) = Some n" using assms(2) by (simp add: node_here_def)
  moreover have "node_key @ n @ dquote # r \<noteq> []" by simp
  ultimately show ?thesis unfolding e by (cases "node_key @ n @ dquote # r") simp_all
qed

lemma file_blockdev_node:
  assumes "dquote \<notin> set p" and "dquote \<notin> set n" and "n \<noteq> []"
  shows "node_name (file_blockdev p n rest) = n"
proof -
  let ?r = "json_field ''node-name'' n @ rest"
  have c: "dquote \<notin> set k" if "k \<in> {''{'', ''driver'', '':'', ''file'', '','', ''filename''}" for k
    using that by (auto simp: dquote_def)
  have s: "file_blockdev p n rest = ''{'' @ dquote # ''driver'' @ dquote # '':'' @ dquote # ''file'' @ dquote # '',''
      @ dquote # ''filename'' @ dquote # '':'' @ dquote # p @ dquote # '','' @ ?r"
    by (simp add: file_blockdev_def json_field_def)
  have m: "match_node (dquote # k @ dquote # t) = match_node (dquote # t)"
    if "dquote \<notin> set k" "k \<noteq> ''node-name''" for k t
    using that match_field by blast
  have "match_node (dquote # p @ dquote # '','' @ ?r) = match_node (dquote # '','' @ ?r)"
    using assms(1) by (intro match_field) simp_all
  moreover have "match_node (dquote # '','' @ ?r) = match_node ?r"
    by (simp add: node_here_def node_key_def json_field_def)
  ultimately have "match_node (file_blockdev p n rest) = match_node ?r"
    unfolding s using c by (simp only: match_chunk m insert_iff simp_thms list.inject char.inject list.distinct)
  then show ?thesis using match_named [OF assms(2,3)] by (simp add: node_name_def)
qed

section \<open>Which images count as qcow2\<close>

lemma take_to: "x \<in> set r \<Longrightarrow> \<exists>t. r = takeWhile (\<lambda>c. c \<noteq> x) r @ x # t"
  by (induction r) auto

lemma path_ext_suffix: "suffix (path_ext p) p"
proof -
  let ?r = "takeWhile (\<lambda>c. c \<noteq> slash) (rev p)"
  have "suffix (CHR ''.'' # rev (takeWhile (\<lambda>c. c \<noteq> CHR ''.'') ?r)) p" if dot: "CHR ''.'' \<in> set ?r"
  proof -
    obtain t where t: "?r = takeWhile (\<lambda>c. c \<noteq> CHR ''.'') ?r @ CHR ''.'' # t"
      using take_to [OF dot] by blast
    moreover have "rev p = ?r @ dropWhile (\<lambda>c. c \<noteq> slash) (rev p)" by simp
    ultimately have "rev p = takeWhile (\<lambda>c. c \<noteq> CHR ''.'') ?r @ CHR ''.'' # t @ dropWhile (\<lambda>c. c \<noteq> slash) (rev p)"
      by (metis append_Cons append_assoc)
    then have "p = rev (t @ dropWhile (\<lambda>c. c \<noteq> slash) (rev p)) @ CHR ''.'' # rev (takeWhile (\<lambda>c. c \<noteq> CHR ''.'') ?r)"
      by (metis append.assoc append_Cons append_Nil rev.simps(2) rev_append rev_rev_ident)
    then show ?thesis unfolding suffix_def by blast
  qed
  then show ?thesis by (simp add: path_ext_def Let_def)
qed

lemma path_ext_iff: "path_ext p = ''.qcow2'' \<longleftrightarrow> suffix ''.qcow2'' p"
  using path_ext_suffix [of p] path_ext_qcow2 by (auto simp: suffix_def)

lemma suffix_after_slash: "slash \<notin> set x \<Longrightarrow> suffix x (a @ slash # f) \<longleftrightarrow> suffix x f"
proof
  assume x: "slash \<notin> set x" and "suffix x (a @ slash # f)"
  then obtain u where "a @ slash # f = u @ x" by (auto simp: suffix_def)
  then obtain t where "f = t @ x" by (rule after_quote [OF x])
  then show "suffix x f" by (simp add: suffix_def)
next
  assume "suffix x f"
  then show "suffix x (a @ slash # f)" by (metis suffix_append suffix_ConsI suffix_appendI)
qed

definition wrapped_as_qcow2 :: "'w sys \<Rightarrow> 'w \<Rightarrow> string \<Rightarrow> bool" where
  "wrapped_as_qcow2 sys w img \<longleftrightarrow> path_ext (base img) = ''.qcow2''
     \<or> is_qcow2_image sys w img \<and> \<not> equal_fold (path_ext (base img)) ''.qcow2''"

lemma container_file_qcow2: "suffix ''.qcow2'' (container_disk_filename sys w img) \<longleftrightarrow> wrapped_as_qcow2 sys w img"
proof -
  have "suffix ''.qcow2'' (p @ ''.qcow2'')" for p by (simp add: suffix_def)
  then show ?thesis
    unfolding wrapped_as_qcow2_def container_disk_filename_def Let_def path_ext_iff by auto
qed

lemma container_path_qcow2:
  assumes "plain (disk_name d)" and "plain (base (disk_image d))"
  shows "suffix ''.qcow2'' (container_path sys w d) \<longleftrightarrow> wrapped_as_qcow2 sys w (disk_image d)"
proof -
  let ?f = "container_disk_filename sys w (disk_image d)"
  have "container_path sys w d = abs_path (disk_base_comps @ [disk_name d]) @ slash # ?f"
    unfolding container_path_plain [OF assms] by (simp add: abs_path_def disk_base_comps_def)
  then have "suffix ''.qcow2'' (container_path sys w d) \<longleftrightarrow> suffix ''.qcow2'' ?f"
    using suffix_after_slash [of "''.qcow2''"] by simp
  then show ?thesis using container_file_qcow2 by simp
qed

lemma container_path_quotes:
  assumes "plain (disk_name d)" and "plain (base (disk_image d))"
    and "dquote \<notin> set (disk_name d)" and "dquote \<notin> set (base (disk_image d))"
  shows "dquote \<notin> set (container_path sys w d)"
proof -
  have "dquote \<notin> set (container_disk_filename sys w (disk_image d))"
    using assms(4) set_trim_suffix [of "base (disk_image d)" "path_ext (base (disk_image d))"]
    by (auto simp: container_disk_filename_def Let_def dquote_def)
  then show ?thesis
    using assms(3) unfolding container_path_plain [OF assms(1,2)] by (simp add: abs_path_def disk_base_comps_def dquote_def)
qed

lemma qcow2_target_of:
  assumes "node_name l = n" and "n \<noteq> []" and "l \<in> blockdevs args" and "\<forall>m\<in>blockdevs args. node_name m = n \<longrightarrow> m = l"
  shows "n \<in> qcow2_targets args \<longleftrightarrow> qcow2_file l"
proof
  assume "n \<in> qcow2_targets args"
  then obtain m where "m \<in> blockdevs args" "qcow2_file m" "n = node_name m" by (auto simp: qcow2_targets_def)
  then show "qcow2_file l" using assms(4) by blast
next
  assume "qcow2_file l"
  then show "n \<in> qcow2_targets args" using assms(1-3) by (auto simp: qcow2_targets_def)
qed

section \<open>Properties\<close>

text \<open>
  C14: From the image of a VM to the block devices of QEMU. When the block device of a disk has the path
  at which \<open>ToVMI\<close> mounts the image, and no other device has its node, a qcow2 layer is put on it
  exactly when the extension of the image is \<open>.qcow2\<close>, or the image is qcow2 and its extension is
  no spelling of \<open>.qcow2\<close>. So a qcow2 image \<open>a.QCOW2\<close> is left raw, and a raw image named \<open>a.qcow2\<close>
  is opened as qcow2.
\<close>

theorem qcow2_disk_layer:
  assumes "no_file_matches sh" and "awk_documented sh" and "list_all solid args" and "list_ex (prefix ''guest='') args"
    and "\<forall>m\<in>qcow2_targets (unsandboxed args). plain_node m"
    and "plain (disk_name d)" and "plain (base (disk_image d))"
    and "dquote \<notin> set (disk_name d)" and "dquote \<notin> set (base (disk_image d))"
    and "n \<noteq> []" and "dquote \<notin> set n" and "\<not> suffix ''.qcow2'' n" and "\<not> sublist (''.qcow2'' @ [dquote]) rest"
    and "file_blockdev (container_path sys w d) n rest \<in> blockdevs (unsandboxed args)"
    and "\<forall>l\<in>blockdevs (unsandboxed args). node_name l = n \<longrightarrow> l = file_blockdev (container_path sys w d) n rest"
  shows "\<exists>ns. wrapper_args sh args = launch ns (unsandboxed args) @ net_args
    \<and> (n \<in> set ns \<longleftrightarrow> wrapped_as_qcow2 sys w (disk_image d))"
proof -
  let ?bd = "file_blockdev (container_path sys w d) n rest"
  obtain ns where ns: "set ns = qcow2_targets (unsandboxed args)"
    "wrapper_args sh args = launch ns (unsandboxed args) @ net_args"
    by (rule wrapper_launches [OF assms(1-4), unfolded strip_unsandboxed]) (use assms(5) in blast)+
  have p: "dquote \<notin> set (container_path sys w d)" by (rule container_path_quotes [OF assms(6-9)])
  have "node_name ?bd = n" by (rule file_blockdev_node [OF p assms(11,10)])
  then have "n \<in> qcow2_targets (unsandboxed args) \<longleftrightarrow> qcow2_file ?bd"
    by (rule qcow2_target_of [OF _ assms(10,14,15)])
  also have "\<dots> \<longleftrightarrow> wrapped_as_qcow2 sys w (disk_image d)"
    using file_blockdev_qcow2 [OF p assms(11-13)] container_path_qcow2 [OF assms(6,7)] by simp
  finally show ?thesis using ns by blast
qed

definition odd_disk :: disk_spec where
  "odd_disk = sample_disk ''root'' ''/i/a.QCOW2''"

definition odd_args :: "string list" where
  "odd_args = [''guest=vm1'', ''-blockdev'', file_blockdev (container_path sample_sys [] odd_disk) ''n1'' ''}'']"

lemma odd_plain: "plain (disk_name odd_disk)" "plain (base (disk_image odd_disk))"
  by (simp_all add: odd_disk_def sample_disk_def plain_def base_def Let_def)

lemma odd_path: "container_path sample_sys [] odd_disk = ''/var/run/kubevirt-private/vmi-disks/root/a.QCOW2''"
proof -
  have "container_disk_filename sample_sys [] (disk_image odd_disk) = ''a.QCOW2''" by code_simp
  then show ?thesis
    unfolding container_path_plain [OF odd_plain] by (simp add: disk_base_comps_def abs_path_def odd_disk_def sample_disk_def)
qed

theorem qcow2_disk_layer_witness:
  "is_qcow2_image sample_sys [] (disk_image odd_disk)
    \<and> (\<exists>ns. wrapper_args plain_shell odd_args = launch ns odd_args @ net_args \<and> ''n1'' \<notin> set ns)"
proof -
  let ?bd = "file_blockdev (container_path sample_sys [] odd_disk) ''n1'' ''}''"
  have bd: "?bd \<noteq> ''-blockdev''" "?bd \<noteq> ''-sandbox''" by (simp_all add: file_blockdev_def)
  then have strip: "unsandboxed odd_args = odd_args"
    unfolding strip_unsandboxed [symmetric] by (intro strip_id) (simp add: odd_args_def)
  have devs: "blockdevs odd_args = {?bd}" using bd by (auto simp: blockdevs_def odd_args_def)
  have q: "dquote \<notin> set (container_path sample_sys [] odd_disk)" by (simp add: odd_path dquote_def)
  have "\<not> qcow2_file ?bd"
    by (subst file_blockdev_qcow2 [OF q]) (simp_all add: odd_path dquote_def suffix_to_prefix sublist_Cons_right)
  then have none: "qcow2_targets odd_args = {}" by (auto simp: qcow2_targets_def devs)
  have guest: "list_ex (prefix ''guest='') odd_args" by (simp add: odd_args_def)
  have quotes: "dquote \<notin> set (disk_name odd_disk)" "dquote \<notin> set (base (disk_image odd_disk))"
    by (simp_all add: odd_disk_def sample_disk_def base_def Let_def dquote_def)
  have sol: "list_all solid odd_args"
    by (simp add: odd_args_def odd_path file_blockdev_def json_field_def dquote_def solid_def blank_def)
  have "wrapped_as_qcow2 sample_sys [] (disk_image odd_disk) \<longleftrightarrow> False" by code_simp
  moreover have "is_qcow2_image sample_sys [] (disk_image odd_disk)" by code_simp
  moreover have "\<exists>ns. wrapper_args plain_shell odd_args = launch ns (unsandboxed odd_args) @ net_args
      \<and> (''n1'' \<in> set ns \<longleftrightarrow> wrapped_as_qcow2 sample_sys [] (disk_image odd_disk))"
    by (rule qcow2_disk_layer [OF plain_shell_documented sol guest _ odd_plain quotes, where rest = "''}''"])
      (simp_all add: strip none devs dquote_def suffix_to_prefix sublist_Cons_right)
  ultimately show ?thesis using strip by auto
qed



end
