(* ===== verification/Spec2Isabelle.thy ===== *)
theory Spec2Isabelle
  imports LogPipe ExtractionProps EndToEnd CommandLines WrapperProps
begin

text \<open>
  podvirt: virtual machines in virt-launcher containers, run by rootless Podman.

  The program is a command line tool. A command of \<open>cmd/\<close> reads flags, builds or looks up a VM,
  and drives Podman (\<open>pkg/podman\<close>) and, inside the VM's container, \<open>virsh\<close> (\<open>pkg/libvirt\<close>).
  \<open>create\<close> turns a configuration (\<open>pkg/config\<close>) into a KubeVirt object (\<open>pkg/converter\<close>) that
  the launcher finds in its environment. No state is kept by the program itself: all of it
  is in the file system, in Podman and in libvirt.

  \<^bold>\<open>How the code is modelled.\<close> A function without effects that can fail is a function into
  \<open>go_error + 'a\<close>. One with effects is an action \<open>('w st, 'a) act\<close>: a function from a state to a
  result or error and the next state (\<open>Prelude\<close>). A state is an arbitrary world \<open>'w\<close>, a clock
  in nanoseconds and the log of the events so far. The operating system, the Podman service,
  \<open>virsh\<close>'s output, the YAML and JSON libraries and the Unicode tables are the fields of the
  record \<open>sys\<close> (\<open>Sys\<close>): every definition takes it as an argument, and a theorem for all \<open>sys\<close>
  holds whatever these parts answer, at whatever point they fail. \<open>Sample\<close> is one concrete
  world, on which most witnesses run, and \<open>Ledger\<close> another, which keeps containers. Error values keep the format and the arguments
  of \<open>fmt.Errorf\<close>, so two errors of the code are equal only where their texts are made alike.

  \<^bold>\<open>Go's library\<close>, as far as the code calls it, on lists of bytes:
  \<^item> \<open>GoStrings\<close>: \<open>TrimSpace\<close>, \<open>Cut\<close>, \<open>Split\<close>, \<open>Fields\<close>, prefixes and suffixes, lower and upper case
  \<^item> \<open>GoNumbers\<close>: \<open>ParseUint\<close>, \<open>Atoi\<close> and printing; locale \<open>decimal_codec\<close>, printers and parsers that
    invert each other, interpreted for unsigned and signed numbers
  \<^item> \<open>GoPath\<close>: \<open>filepath.Clean\<close>, \<open>Join\<close>, \<open>Base\<close>, \<open>Ext\<close>, \<open>Dir\<close>; absolute paths of plain components
  \<^item> \<open>GoMd5\<close>, \<open>GoJson\<close>: the digest behind the UID, and \<open>json.Marshal\<close> with its escapes

  \<^bold>\<open>pkg/config\<close>
  \<^item> \<open>ConfigTypes\<close> (\<open>types.go\<close>): one record for each struct
  \<^item> \<open>Quantity\<close> (\<open>quantity.go\<close>): sizes on 64-bit words; locale \<open>suffix_table\<close>, the unambiguity of the
    table of units. Exactly which strings are accepted and with what value, the round trip,
    and the product that wraps around
  \<^item> \<open>NameRegex\<close>, \<open>Validator\<close> (\<open>validator.go\<close>): a matcher for the regular expression of names and the
    list of complaints; both are shown to refine a specification (\<open>dns_label\<close>, \<open>valid_vm\<close>)
  \<^item> \<open>ConfigParser\<close> (\<open>parser.go\<close>): loading, defaults, the override by flags; locale \<open>disk_setter\<close>, the
    contract that \<open>setLocalDisk\<close> and \<open>setContainerDisk\<close> share

  \<^bold>\<open>pkg/converter\<close> (\<open>vmi.go\<close>): \<open>VmiTypes\<close> is the object and its JSON, \<open>Converter\<close> the conversion.
  \<open>ConverterFacts\<close>: when it succeeds, that disks and volumes, networks and interfaces
  correspond, where images are mounted, and the form of the UID.

  \<^bold>\<open>pkg/util\<close>: \<open>UtilPkg\<close>, the checks of socket and KVM, the paths, the qcow2 magic.

  \<^bold>\<open>pkg/podman\<close>
  \<^item> \<open>PodTypes\<close>: the fields of Podman's types that are used, and the events
  \<^item> \<open>PodmanPkg\<close> (\<open>client.go\<close>, \<open>image.go\<close>, \<open>oneshot.go\<close>, \<open>container.go\<close>): images, helper containers,
    host files, the specification of a VM's container and its life cycle
  \<^item> \<open>LogPipe\<close> (\<open>collectContainerLogs\<close>): the goroutine that reads the logs, its channels and the
    \<open>select\<close> loop as a step relation over all interleavings; an invariant gives the result and
    the absence of deadlock, a measure the bound on the steps
  \<^item> \<open>PodmanFacts\<close>: helper containers are always removed, the stamp of the QEMU binary is true, and
    what the container of a validated VM publishes and mounts
  \<^item> \<open>QemuWrapper\<close> (\<open>scripts/qemu-wrapper.sh\<close>): the shell script in front of QEMU as a function on lists of
    arguments, and its equivalence with a description of every argument in its place.
    \<open>WrapperProps\<close>: which images of the converter it takes for qcow2, and which paths it loses. The
    hypotheses \<open>no_file_matches\<close> and \<open>awk_documented\<close> say what is relied on of the shell and of awk

  \<^bold>\<open>pkg/libvirt\<close>: \<open>LibvirtPkg\<close>, \<open>virsh\<close> over Podman's exec sessions with its timeout, and the parsers.

  \<^bold>\<open>cmd\<close>
  \<^item> \<open>CmdHelpers\<close>: the client, the confirmation; locale \<open>vm_command\<close>, a command on an existing VM
    (interpreted for \<open>start\<close>, \<open>stop\<close>, \<open>delete\<close>, \<open>status\<close> and \<open>console\<close>), and locale \<open>poll_loop\<close>, a loop that
    polls until a deadline (interpreted for \<open>start --wait\<close> and \<open>stop --graceful\<close>)
  \<^item> \<open>CmdStart\<close>, \<open>CmdStop\<close>, \<open>CmdDelete\<close>, \<open>CmdStatus\<close> (with \<open>console\<close>), \<open>CmdList\<close>, \<open>CmdSsh\<close>, \<open>CmdCleanCache\<close>,
    one theory for a command, each closing with what a successful run has done
  \<^item> \<open>CreateConfig\<close>, \<open>CreateDisks\<close>: \<open>create.go\<close> in two halves. \<open>CreateConfigProps\<close>: flags, ports, keys.
    \<open>CreateSafety\<close>: the calculus \<open>creates_at\<close> of the one named container, and what extraction leaves.
    \<open>CreateProps\<close>: the properties of the whole command. \<open>ExtractionProps\<close>: the cache of extracted disks
  \<^item> \<open>CmdRoot\<close> (\<open>root.go\<close>, \<open>version.go\<close>, \<open>main.go\<close>): an \<open>invocation\<close> is a parsed command line, \<open>dispatch\<close> the
    function it calls, \<open>execute\<close> a run of the program with its exit code. \<open>CmdLine\<close>: the commands as they
    are registered (arguments, flags, types, defaults), how each reads them, and \<open>run_line\<close>, a run
    for a command line that the library has split

  \<^bold>\<open>The program as a whole.\<close> Runs of the program follow one another in a \<open>session\<close>; what one
  leaves for the next is the table of containers in Podman.
  \<^item> \<open>ContainerTable\<close>: what is relied on of Podman, as two named hypotheses. \<open>container_tables\<close>: names and
    identifiers are unique, creating adds exactly the container asked for, removing takes away
    the one named, an error changes nothing, and nothing else touches the table (so nobody else
    uses Podman meanwhile). \<open>listings\<close>: a list is of the containers that pass the filter; the
    filter for a name is a regular expression. The \<open>view\<close> of a table are the containers under names of
    podvirt's form; \<open>keeps\<close>, closed under the combinators by \<open>keeps_intros\<close>, says that an action
    leaves it alone. Helper containers come and go without being seen in it
  \<^item> \<open>CommandTables\<close>: each command keeps the view, but \<open>create\<close> and \<open>delete\<close>, which change it by one
    container; the lemmas for all commands on a VM and for both polling loops are proved once, in
    the contexts of \<open>vm_command\<close> and \<open>poll_loop\<close>
  \<^item> \<open>Ledger\<close>: a world that consists of a list of containers, shown to satisfy both hypotheses; the run of
    a \<open>create\<close> in it is computed to its end
  \<^item> \<open>Lifecycle\<close>: the abstract machine \<open>vm_step\<close> on tables of VM containers, the proof that \<open>execute\<close>
    refines it, and the invariants of its traces (labels, and that a container stays)
  \<^item> \<open>EndToEnd\<close>: what \<open>list\<close> and \<open>ssh\<close> show of a VM that an earlier run created, and the case in which
    the answer is about another VM
  \<^item> \<open>CommandLines\<close>: sessions of command lines, each of which is refused by the library or is one run; a VM
    lasts until a line that deletes it

  \<^bold>\<open>Groups of lemmas.\<close> \<open>forward_intros\<close>: an action only extends the log and the clock. \<open>only_intros\<close>:
  every event an action adds satisfies a predicate. Both are closed under the combinators of
  the monad, so for an operation of the code they follow from its primitive calls; the
  safety properties rest on them. \<open>work\<close> and \<open>works\<close> (\<open>CreateProps\<close>) give the exact order of the
  relevant events.

  \<^bold>\<open>Loops.\<close> The polling loops of \<open>start\<close> and \<open>stop\<close> terminate because \<open>time.Sleep\<close> waits at least its
  argument, two seconds, and the deadline is fixed: the measure is the time left. Loops over
  lists are structural. \<open>status --watch\<close> has no bound; it is a \<open>partial_function\<close> whose value
  \<open>None\<close> means that it runs for ever, and when it returns is stated exactly. No fuel is used.

  \<^bold>\<open>Integers.\<close> Go's \<open>uint16\<close>, \<open>uint32\<close> and \<open>uint64\<close> are words of that width and conversions to them
  wrap; an \<open>int\<close> that is only stored, compared or converted is an \<open>int\<close>, its range made explicit
  where text is parsed, and \<open>time.Duration(n) * time.Second\<close> is the 64-bit product.

  \<^bold>\<open>Not modelled.\<close> Vendored packages and the Podman service, except through \<open>sys\<close>. The cobra
  library's splitting of the command line into a name, flags and arguments, which is an argument
  of \<open>run_line\<close>, the commands it adds itself and the help texts. The text that \<open>yaml.v3\<close> prints for
  \<open>list\<close>, and the column widths of \<open>tabwriter\<close>: the values they are given are in the event. The
  text of the wrapper script for QEMU, which \<open>create\<close> and \<open>start\<close> write as bytes that are a parameter (what
  the script does with its arguments is modelled apart), and its debug log. Output that a child process writes
  to the terminal. File modes, and a failure of \<open>Close\<close> or of the terminal. Signals and the death of the
  process in the middle of an operation: a run of the model ends with its result. A slice
  out of bounds (\<open>id[:12]\<close>) is the error \<open>GoPanic\<close>.
\<close>

end
